theory Spec2Isabelle
  imports Main "HOL-Library.Word"
begin

section \<open>Outcomes of C++ computations\<close>

text \<open>
  A C++ call either returns, throws an exception (\<open>ORT_THROW\<close>, \<open>ORT_ENFORCE\<close>,
  \<open>std::out_of_range\<close> of \<open>at\<close>, a SafeInt overflow), stops the process at a failed
  \<open>assert\<close>, or has undefined behaviour (\<open>operator[]\<close> out of range, a dangling
  pointer, signed overflow). Each is a value of the model.
\<close>

datatype 'a res = Ok 'a | Throw string | AssertFail string | Undefined

definition bindR :: "'a res \<Rightarrow> ('a \<Rightarrow> 'b res) \<Rightarrow> 'b res" where
  "bindR m f = (case m of Ok x \<Rightarrow> f x | Throw s \<Rightarrow> Throw s
                | AssertFail s \<Rightarrow> AssertFail s | Undefined \<Rightarrow> Undefined)"

definition assertR :: "bool \<Rightarrow> string \<Rightarrow> unit res" where
  "assertR b s = (if b then Ok () else AssertFail s)"

datatype ptr = Null | Addr nat

datatype OrtAllocatorType = OrtDeviceAllocator | OrtArenaAllocator

datatype OrtMemoryInfo = MemoryInfo string OrtAllocatorType int

section \<open>core/framework/tensor.cc\<close>

subsection \<open>Types the file uses\<close>

text \<open>
  A primitive element type with what \<open>IsDataTypeString\<close> and \<open>Size\<close> answer for it.
  An \<open>MLDataType\<close> is a pointer to a type description: \<open>None\<close> is \<open>nullptr\<close>, and
  \<open>AsPrimitiveDataType\<close> is \<open>nullptr\<close> for a type that is not primitive.
\<close>

datatype prim_type = Primitive (is_string: bool) (prim_size: nat)

datatype ml_type = PrimType prim_type | OtherType nat

type_synonym MLDataType = "ml_type option"

definition float_type :: prim_type where
  "float_type = Primitive False 4"

fun AsPrimitiveDataType :: "ml_type \<Rightarrow> prim_type option" where
  "AsPrimitiveDataType (PrimType p) = Some p"
| "AsPrimitiveDataType (OtherType n) = None"

fun ml_Size :: "ml_type \<Rightarrow> nat" where
  "ml_Size (PrimType p) = prim_size p"
| "ml_Size (OtherType n) = n"

datatype allocator = Allocator (Info: OrtMemoryInfo)

text \<open>
  A deleter is a \<open>std::function<void(void)>\<close>: the closure \<open>[deleter, this]\<close> that
  \<open>Init\<close> pushes (it holds the allocator and the address of the tensor that ran
  \<open>Init\<close>), or a callable handed to the constructor, of which only its running is seen.
\<close>

datatype deleter = BufferDeleter allocator nat | UserDeleter nat

datatype event =
    EvAlloc allocator nat ptr
  | EvFree allocator ptr
  | EvStringCtor ptr int
  | EvStringDtor ptr int
  | EvUserDeleter nat

record tensor =
  p_data :: ptr
  shape :: "int list"
  dtype :: prim_type
  alloc_info :: OrtMemoryInfo
  byte_offset :: int
  deleters :: "deleter list"

text \<open>The tensor objects by address, the allocator calls made so far, the next fresh buffer.\<close>

record tstate =
  objs :: "nat \<rightharpoonup> tensor"
  trace :: "event list"
  brk :: nat

subsection \<open>Helpers declared outside the file\<close>

text \<open>
  Modelled from the spec: \<open>TensorShape::Size\<close>, \<open>SafeInt\<close> and
  \<open>IAllocator::CalcMemSizeForArray\<close> are declared in headers that are not among the
  sources. The spec's error taxonomy names "negative dim" and "overflow in buffer-size
  calculation"; the comment at the call says the value of \<open>Size\<close> "is checked for
  overflow". \<open>Size\<close> multiplies the dimensions in a checked 64-bit signed integer and
  answers -1 at the first negative dimension; the conversion to \<open>SafeInt<size_t>\<close>
  throws on a negative value; \<open>CalcMemSizeForArray\<close> multiplies in \<open>size_t\<close> and
  answers false when the product does not fit 64 bits.
\<close>

fun SizeHelper :: "int \<Rightarrow> int list \<Rightarrow> int res" where
  "SizeHelper sz [] = Ok sz"
| "SizeHelper sz (d # ds) =
     (if d < 0 then Ok (- 1)
      else if 2 ^ 63 \<le> sz * d then Throw ''Integer overflow''
      else SizeHelper (sz * d) ds)"

definition TensorShape_Size :: "int list \<Rightarrow> int res" where
  "TensorShape_Size shp = SizeHelper 1 shp"

definition SafeInt_size_t :: "int \<Rightarrow> nat res" where
  "SafeInt_size_t x = (if x < 0 \<or> 2 ^ 64 \<le> x then Throw ''Integer overflow'' else Ok (nat x))"

definition CalcMemSizeForArray :: "nat \<Rightarrow> nat \<Rightarrow> nat option" where
  "CalcMemSizeForArray nmemb sz = (if nmemb * sz < 2 ^ 64 then Some (nmemb * sz) else None)"

text \<open>\<open>allocator->Alloc(len)\<close>: the next fresh buffer, and the call is recorded.\<close>

definition Alloc :: "allocator \<Rightarrow> nat \<Rightarrow> tstate \<Rightarrow> ptr \<times> tstate" where
  "Alloc a len st =
     (Addr (brk st), st\<lparr>trace := trace st @ [EvAlloc a len (Addr (brk st))], brk := Suc (brk st)\<rparr>)"

subsection \<open>Init and the constructors\<close>

text \<open>
  \<open>Init\<close> runs on the object under construction, whose \<open>alloc_info_\<close> and
  \<open>deleters_\<close> the member initialisers have set: \<open>t0\<close> holds them, \<open>this\<close> is
  the object's address.
\<close>

definition Init ::
  "nat \<Rightarrow> tensor \<Rightarrow> MLDataType \<Rightarrow> int list \<Rightarrow> ptr \<Rightarrow> allocator option \<Rightarrow> int \<Rightarrow> tensor res" where
  "Init this t0 p_type shp p_raw_data deleter offset =
     bindR (TensorShape_Size shp) (\<lambda>shape_size.
       if shape_size < 0 then Throw ''shape.Size() must >=0''
       else (case p_type of
           None \<Rightarrow> Undefined
         | Some ty \<Rightarrow> (case AsPrimitiveDataType ty of
             None \<Rightarrow> Throw ''Tensor is expected to contain one of the primitive data types.''
           | Some dt \<Rightarrow>
               Ok (t0\<lparr>dtype := dt, shape := shp, p_data := p_raw_data,
                      deleters := (case deleter of
                                     None \<Rightarrow> deleters t0
                                   | Some a \<Rightarrow> deleters t0 @ [BufferDeleter a this]),
                      byte_offset := offset\<rparr>))))"

definition blank :: "OrtMemoryInfo \<Rightarrow> deleter list \<Rightarrow> tensor" where
  "blank info ds = \<lparr>p_data = Null, shape = [], dtype = float_type, alloc_info = info,
                    byte_offset = 0, deleters = ds\<rparr>"

definition construct :: "nat \<Rightarrow> tensor res \<Rightarrow> tstate \<Rightarrow> tstate res" where
  "construct this r st = bindR r (\<lambda>t. Ok (st\<lparr>objs := (objs st)(this \<mapsto> t)\<rparr>))"

text \<open>\<open>Tensor(p_type, shape, p_data, alloc, offset)\<close>: a view, no deleter.\<close>

definition Tensor_view ::
  "nat \<Rightarrow> MLDataType \<Rightarrow> int list \<Rightarrow> ptr \<Rightarrow> OrtMemoryInfo \<Rightarrow> int \<Rightarrow> tstate \<Rightarrow> tstate res" where
  "Tensor_view this p_type shp p alloc offset st =
     (if p_type = None then Throw ''p_type != nullptr''
      else construct this (Init this (blank alloc []) p_type shp p None offset) st)"

text \<open>\<open>Tensor(p_type, shape, p_data, offset, alloc, deleters)\<close>.\<close>

definition Tensor_with_deleters ::
  "nat \<Rightarrow> MLDataType \<Rightarrow> int list \<Rightarrow> ptr \<Rightarrow> int \<Rightarrow> OrtMemoryInfo \<Rightarrow> deleter list \<Rightarrow> tstate
     \<Rightarrow> tstate res" where
  "Tensor_with_deleters this p_type shp p offset alloc ds st =
     (if p_type = None then Throw ''p_type != nullptr''
      else construct this (Init this (blank alloc ds) p_type shp p None offset) st)"

text \<open>\<open>Tensor(p_type, shape, allocator)\<close>: the allocating constructor.\<close>

definition Tensor_alloc ::
  "nat \<Rightarrow> MLDataType \<Rightarrow> int list \<Rightarrow> allocator \<Rightarrow> tstate \<Rightarrow> tstate res" where
  "Tensor_alloc this p_type shp a st =
     (case p_type of
        None \<Rightarrow> Throw ''p_type != nullptr''
      | Some ty \<Rightarrow>
          bindR (TensorShape_Size shp) (\<lambda>shape_size.
            if shape_size < 0 then Throw ''shape.Size() must >=0''
            else
              bindR (if 0 < shape_size
                     then bindR (SafeInt_size_t shape_size) (\<lambda>nmemb.
                            case CalcMemSizeForArray nmemb (ml_Size ty) of
                              None \<Rightarrow> Throw ''tensor failed memory size calculation''
                            | Some len \<Rightarrow> Ok (Alloc a len st))
                     else Ok (Null, st)) (\<lambda>(p, st1).
                let st2 = (if AsPrimitiveDataType ty \<noteq> None
                              \<and> is_string (the (AsPrimitiveDataType ty)) \<and> 0 < shape_size
                           then st1\<lparr>trace := trace st1 @ [EvStringCtor p shape_size]\<rparr>
                           else st1)
                in construct this (Init this (blank (Info a) []) p_type shp p (Some a) 0) st2)))"

subsection \<open>SizeInBytes\<close>

definition SizeInBytes :: "tensor \<Rightarrow> nat res" where
  "SizeInBytes t =
     bindR (TensorShape_Size (shape t)) (\<lambda>n.
       bindR (SafeInt_size_t n) (\<lambda>nmemb.
         case CalcMemSizeForArray nmemb (prim_size (dtype t)) of
           None \<Rightarrow> Throw ''tensor size overflow''
         | Some ret \<Rightarrow> Ok ret))"

subsection \<open>ReleaseBuffer, the destructor and the moves\<close>

text \<open>
  Running a deleter. The closure of \<open>Init\<close> reads \<open>p_data_\<close>, \<open>shape_\<close> and the
  element type through its captured \<open>this\<close> when it runs; if no tensor lives at that
  address any more the read is undefined.
\<close>

definition run_deleter :: "deleter \<Rightarrow> (nat \<rightharpoonup> tensor) \<Rightarrow> event list res" where
  "run_deleter d os =
     (case d of
        UserDeleter k \<Rightarrow> Ok [EvUserDeleter k]
      | BufferDeleter a owner \<Rightarrow>
          (case os owner of
             None \<Rightarrow> Undefined
           | Some t \<Rightarrow>
               if is_string (dtype t)
               then bindR (TensorShape_Size (shape t)) (\<lambda>len.
                      Ok [EvStringDtor (p_data t) len, EvFree a (p_data t)])
               else Ok [EvFree a (p_data t)]))"

function ReleaseBuffer :: "nat \<Rightarrow> tstate \<Rightarrow> tstate res" where
  "ReleaseBuffer this st =
     (case objs st this of
        None \<Rightarrow> Undefined
      | Some t \<Rightarrow>
          (case deleters t of
             [] \<Rightarrow> Ok st
           | d # ds \<Rightarrow>
               bindR (run_deleter d (objs st)) (\<lambda>evs.
                 ReleaseBuffer this
                   (st\<lparr>trace := trace st @ evs,
                       objs := (objs st)(this \<mapsto> t\<lparr>deleters := ds\<rparr>)\<rparr>))))"
  by pat_completeness auto
termination
  by (relation "measure (\<lambda>(this, st). case objs st this of None \<Rightarrow> 0
                                        | Some t \<Rightarrow> length (deleters t))") auto

definition Tensor_dtor :: "nat \<Rightarrow> tstate \<Rightarrow> tstate res" where
  "Tensor_dtor this st =
     bindR (ReleaseBuffer this st) (\<lambda>st1. Ok (st1\<lparr>objs := (objs st1)(this := None)\<rparr>))"

text \<open>What both moves leave in \<open>other\<close>.\<close>

definition moved_from :: "tensor \<Rightarrow> tensor" where
  "moved_from t = t\<lparr>dtype := float_type, shape := [0], p_data := Null, deleters := [],
                    byte_offset := 0\<rparr>"

text \<open>
  \<open>Tensor(Tensor&& other)\<close> builds a new object at \<open>this\<close>; an address that already
  holds a tensor is not storage for a new one.
\<close>

definition Tensor_move_ctor :: "nat \<Rightarrow> nat \<Rightarrow> tstate \<Rightarrow> tstate res" where
  "Tensor_move_ctor this other st =
     (case objs st other of
        None \<Rightarrow> Undefined
      | Some ot \<Rightarrow>
          if this \<in> dom (objs st) then Undefined
          else Ok (st\<lparr>objs := (objs st)(this \<mapsto> ot, other \<mapsto> moved_from ot)\<rparr>))"

definition Tensor_move_assign :: "nat \<Rightarrow> nat \<Rightarrow> tstate \<Rightarrow> tstate res" where
  "Tensor_move_assign this other st =
     (if this \<noteq> other
      then bindR (ReleaseBuffer this st) (\<lambda>st1.
             case (objs st1 this, objs st1 other) of
               (Some tt, Some ot) \<Rightarrow>
                 Ok (st1\<lparr>objs := (objs st1)(this \<mapsto> ot, other \<mapsto> moved_from ot)\<rparr>)
             | _ \<Rightarrow> Undefined)
      else Ok st)"

section \<open>tools/multi\_gpu\_pipeline.cc: data\<close>

subsection \<open>Machine integers and containers\<close>

text \<open>
  \<open>int\<close> is 32 bits wide. Storing a 64-bit value in an \<open>int\<close> keeps its low 32 bits
  (\<open>int32\<close>); signed \<open>int\<close> arithmetic that leaves the range is undefined
  (\<open>int_arith\<close>). Products of tensor dimensions in 64 bits are taken exact.
\<close>

definition int32 :: "int \<Rightarrow> int" where
  "int32 x = (x + 2 ^ 31) mod 2 ^ 32 - 2 ^ 31"

definition in_int :: "int \<Rightarrow> bool" where
  "in_int x \<longleftrightarrow> - (2 ^ 31) \<le> x \<and> x < 2 ^ 31"

definition int_arith :: "int \<Rightarrow> int res" where
  "int_arith x = (if in_int x then Ok x else Undefined)"

text \<open>\<open>v[i]\<close> and \<open>v[i] = x\<close> on a \<open>std::vector\<close>: no bounds check.\<close>

definition vec_at :: "'a list \<Rightarrow> int \<Rightarrow> 'a res" where
  "vec_at v i = (if 0 \<le> i \<and> i < int (length v) then Ok (v ! nat i) else Undefined)"

definition vec_set :: "'a list \<Rightarrow> int \<Rightarrow> 'a \<Rightarrow> 'a list res" where
  "vec_set v i x = (if 0 \<le> i \<and> i < int (length v) then Ok (v[nat i := x]) else Undefined)"

text \<open>\<open>m.at(k)\<close> throws \<open>std::out_of_range\<close>; \<open>m.emplace(k, v)\<close> inserts only when
  the key is absent and otherwise leaves the stored value as it is.\<close>

definition map_at :: "('k \<rightharpoonup> 'v) \<Rightarrow> 'k \<Rightarrow> 'v res" where
  "map_at m k = (case m k of None \<Rightarrow> Throw ''_Map_base::at'' | Some v \<Rightarrow> Ok v)"

definition emplace :: "('k \<rightharpoonup> 'v) \<Rightarrow> 'k \<Rightarrow> 'v \<Rightarrow> ('k \<rightharpoonup> 'v)" where
  "emplace m k v = (case m k of None \<Rightarrow> m(k \<mapsto> v) | Some old \<Rightarrow> m)"

text \<open>\<open>Contains\<close>: whether the element is found and, if so, its first index.\<close>

primrec Contains_from :: "int \<Rightarrow> string list \<Rightarrow> string \<Rightarrow> bool \<times> int" where
  "Contains_from i [] to_find = (False, - 1)"
| "Contains_from i (x # xs) to_find =
     (if x = to_find then (True, i) else Contains_from (i + 1) xs to_find)"

definition Contains :: "string list \<Rightarrow> string \<Rightarrow> bool \<times> int" where
  "Contains vec to_find = Contains_from 0 vec to_find"

fun digits :: "nat \<Rightarrow> string" where
  "digits n = (if n < 10 then [char_of (48 + n)]
               else digits (n div 10) @ [char_of (48 + n mod 10)])"

definition show_int :: "int \<Rightarrow> string" where
  "show_int i = (if i < 0 then CHR ''-'' # digits (nat (- i)) else digits (nat i))"

subsection \<open>The runtime's objects\<close>

text \<open>
  Modelled from the spec: the inference runtime (section 6, runtime collaborator
  contract) is not among the sources. An \<open>Ort::Value\<close> is a handle, null
  (\<open>None\<close>) or holding a tensor view: memory descriptor, data pointer, byte length,
  dimensions and element type; moving a handle leaves a null one behind. The view
  constructor copies the dimensions and keeps the pointer; it does not copy the data.
  A session answers its input and output names, their declared shapes (-1 for a dynamic
  dimension) and output element types, and runs with an IO binding; what a run produces
  for the bound outputs is a function of the session, left open.
\<close>

datatype ONNXTensorElementDataType = ELEMENT_FLOAT | ELEMENT_FLOAT16 | ELEMENT_INT64

record OrtTensor =
  mem_info :: OrtMemoryInfo
  data_ptr :: ptr
  data_len :: int
  dims :: "int list"
  elem_type :: ONNXTensorElementDataType

type_synonym Value = "OrtTensor option"

definition CreateTensor ::
  "OrtMemoryInfo \<Rightarrow> ptr \<Rightarrow> int \<Rightarrow> int list \<Rightarrow> ONNXTensorElementDataType \<Rightarrow> Value" where
  "CreateTensor info p p_data_byte_count shp ty =
     Some \<lparr>mem_info = info, data_ptr = p, data_len = p_data_byte_count, dims = shp,
           elem_type = ty\<rparr>"

text \<open>\<open>CreateTensor<int64_t>(info, p_data, p_data_element_count, shape, shape_len)\<close>.\<close>

definition CreateTensor_int64 :: "OrtMemoryInfo \<Rightarrow> ptr \<Rightarrow> int \<Rightarrow> int list \<Rightarrow> Value" where
  "CreateTensor_int64 info p p_data_element_count shp =
     CreateTensor info p (8 * p_data_element_count) shp ELEMENT_INT64"

definition CreateCpu :: "OrtAllocatorType \<Rightarrow> OrtMemoryInfo" where
  "CreateCpu ty = MemoryInfo ''Cpu'' ty 0"

text \<open>\<open>v.GetTensorTypeAndShapeInfo().GetShape()\<close>; a null handle has no tensor.\<close>

definition Value_GetShape :: "Value \<Rightarrow> int list res" where
  "Value_GetShape v = (case v of None \<Rightarrow> Undefined | Some t \<Rightarrow> Ok (dims t))"

record MemoryAllocation =
  ma_ptr :: ptr
  ma_size :: int

datatype BoundOutput = ToValue Value | ToDevice OrtMemoryInfo

record IoBinding =
  bound_inputs :: "(string \<times> Value) list"
  bound_outputs :: "(string \<times> BoundOutput) list"

text \<open>Binding a name again replaces what was bound to it; a new name goes last.\<close>

fun bind_put :: "string \<Rightarrow> 'a \<Rightarrow> (string \<times> 'a) list \<Rightarrow> (string \<times> 'a) list" where
  "bind_put n v [] = [(n, v)]"
| "bind_put n v ((m, w) # rest) = (if m = n then (n, v) # rest else (m, w) # bind_put n v rest)"

definition BindInput :: "string \<Rightarrow> Value \<Rightarrow> IoBinding \<Rightarrow> IoBinding" where
  "BindInput n v b = b\<lparr>bound_inputs := bind_put n v (bound_inputs b)\<rparr>"

definition BindOutput :: "string \<Rightarrow> Value \<Rightarrow> IoBinding \<Rightarrow> IoBinding" where
  "BindOutput n v b = b\<lparr>bound_outputs := bind_put n (ToValue v) (bound_outputs b)\<rparr>"

definition BindOutputToDevice :: "string \<Rightarrow> OrtMemoryInfo \<Rightarrow> IoBinding \<Rightarrow> IoBinding" where
  "BindOutputToDevice n info b = b\<lparr>bound_outputs := bind_put n (ToDevice info) (bound_outputs b)\<rparr>"

definition ClearBoundInputs :: "IoBinding \<Rightarrow> IoBinding" where
  "ClearBoundInputs b = b\<lparr>bound_inputs := []\<rparr>"

definition ClearBoundOutputs :: "IoBinding \<Rightarrow> IoBinding" where
  "ClearBoundOutputs b = b\<lparr>bound_outputs := []\<rparr>"

text \<open>
  Memory as the pipeline sees it: one address space with a next fresh address, the live
  \<open>std::vector<int64_t>\<close> buffers of the host, and the half-precision contents the
  runtime has written (raw 16-bit values).
\<close>

record World =
  next_addr :: nat
  host_mem :: "nat \<rightharpoonup> int list"
  half_mem :: "nat \<rightharpoonup> 16 word list"

record Session =
  sess_input_names :: "string list"
  sess_output_names :: "string list"
  sess_input_shapes :: "int list list"
  sess_output_shapes :: "int list list"
  sess_output_types :: "ONNXTensorElementDataType list"
  sess_run :: "IoBinding \<Rightarrow> World \<Rightarrow> (Value list \<times> World) res"

record SessionState =
  session :: Session
  cuda_mem_info :: OrtMemoryInfo

text \<open>\<open>GetShape(sess, io_idx, is_input)\<close>; the runtime rejects an index it does not have.\<close>

definition GetShape :: "Session \<Rightarrow> int \<Rightarrow> bool \<Rightarrow> int list res" where
  "GetShape sess io_idx is_input =
     (let shapes = (if is_input then sess_input_shapes sess else sess_output_shapes sess)
      in if 0 \<le> io_idx \<and> io_idx < int (length shapes) then Ok (shapes ! nat io_idx)
         else Throw ''invalid index'')"

definition GetOutputElementType :: "Session \<Rightarrow> int \<Rightarrow> ONNXTensorElementDataType res" where
  "GetOutputElementType sess io_idx =
     (if 0 \<le> io_idx \<and> io_idx < int (length (sess_output_types sess))
      then Ok (sess_output_types sess ! nat io_idx) else Throw ''invalid index'')"

text \<open>\<open>cuda_allocator->GetAllocation(size)\<close>: a fresh device buffer; the \<open>int\<close> size
  becomes a \<open>size_t\<close>, and no allocator serves what a negative one turns into.\<close>

definition GetAllocation :: "int \<Rightarrow> World \<Rightarrow> (MemoryAllocation \<times> World) res" where
  "GetAllocation sz w =
     (if sz < 0 then Throw ''Failed to allocate memory''
      else Ok (\<lparr>ma_ptr = Addr (next_addr w), ma_size = sz\<rparr>, w\<lparr>next_addr := Suc (next_addr w)\<rparr>))"

subsection \<open>Configuration, token, frame\<close>

record ModelConfig =
  model_name :: string
  model_file_path :: string
  input_names :: "string list"
  output_names :: "string list"
  past_input_names :: "string list"
  present_output_names :: "string list"
  inter_stage_output_input_map :: "(string \<times> string) list"
  input_to_use_for_seq_len :: string
  seq_len_dim_index_in_input :: int
  batch_dim_index_in_input :: int
  batch_dim_index_in_state :: int
  seq_len_dim_index_in_state :: int
  seq_len_dim_in_inter_stage_output :: int
  batch_dim_in_inter_stage_output :: int
  device_id :: int

record PipelineConfig =
  input_ids_name :: string
  position_ids_name :: string
  logits_name :: string
  max_seq_len :: int
  num_stages :: int
  model_config_vec :: "ModelConfig list"

text \<open>The inter-stage map is kept as its list of entries: \<open>count\<close> and \<open>at\<close> look a
  key up, the frame constructor walks the entries.\<close>

definition map_count :: "(string \<times> string) list \<Rightarrow> string \<Rightarrow> bool" where
  "map_count m k \<longleftrightarrow> map_of m k \<noteq> None"

text \<open>
  Modelled from the spec: \<open>Token\<close>, \<open>OrtReq\<close>, \<open>OrtResp\<close>, \<open>RunState\<close> and the
  frame are declared in multi\_gpu\_pipeline.h, which is not among the sources; their
  fields are those the spec's data model lists and the code uses. \<open>Clear\<close> empties the
  two vectors, \<open>Init\<close> sets all four fields.
\<close>

record Token =
  req_id :: int
  step_id :: int
  ort_value_names :: "string list"
  ort_values :: "Value list"
  error_msg :: string

definition Token_Clear :: "Token \<Rightarrow> Token" where
  "Token_Clear t = t\<lparr>ort_value_names := [], ort_values := []\<rparr>"

definition Token_Init :: "int \<Rightarrow> int \<Rightarrow> string list \<Rightarrow> Value list \<Rightarrow> Token \<Rightarrow> Token" where
  "Token_Init r s names vals t =
     t\<lparr>req_id := r, step_id := s, ort_value_names := names, ort_values := vals\<rparr>"

record OrtReq =
  req_input_names :: "string list"
  req_input_values :: "Value list"

record OrtResp =
  resp_output_names :: "string list"
  resp_output_values :: "Value list"
  resp_output_meminfo :: "OrtMemoryInfo option list"

record RunState =
  io_binding :: IoBinding
  present_past_prealloc_buffer_1_vec :: "MemoryAllocation list"
  present_past_prealloc_buffer_2_vec :: "MemoryAllocation list"
  inter_stage_output_prealloc_buffer_map :: "string \<rightharpoonup> MemoryAllocation"
  output_val_map :: "string \<rightharpoonup> Value"

text \<open>The frame's \<open>ort_resp\<close> is a reference to the caller's response slot
  \<open>resp_list[req_index]\<close>; the functions that read it take the slot as an argument.\<close>

record RequestExecutionFrame =
  req_index :: int
  frame_req_id :: int
  batch_size :: int
  orig_input_seq_len :: int
  stage_id :: int
  token :: Token
  model_run_state_vec :: "RunState list"

record PipelineSession =
  pcfg :: PipelineConfig
  model_session_state_vec :: "SessionState list"

section \<open>tools/multi\_gpu\_pipeline.cc: the execution frame\<close>

text \<open>\<open>std::accumulate(first, last, 1, std::multiplies<int>())\<close>: every dimension is
  narrowed to \<open>int\<close> and multiplied as \<open>int\<close>.\<close>

fun accumulate_multiplies_int :: "int \<Rightarrow> int list \<Rightarrow> int res" where
  "accumulate_multiplies_int acc [] = Ok acc"
| "accumulate_multiplies_int acc (x # xs) =
     (if in_int (acc * int32 x) then accumulate_multiplies_int (acc * int32 x) xs
      else Undefined)"

text \<open>\<open>int size_to_allocate = sizeof(Ort::Float16_t) * num_elements\<close>.\<close>

definition size_to_allocate_of :: "int \<Rightarrow> int" where
  "size_to_allocate_of num_elements = int32 (2 * num_elements)"

text \<open>Lines 121-124: two buffers per past input name.\<close>

fun prealloc_state_buffers ::
  "int \<Rightarrow> string list \<Rightarrow> RunState \<Rightarrow> World \<Rightarrow> (RunState \<times> World) res" where
  "prealloc_state_buffers sz [] rs w = Ok (rs, w)"
| "prealloc_state_buffers sz (name # rest) rs w =
     bindR (GetAllocation sz w) (\<lambda>(b1, w1).
     bindR (GetAllocation sz w1) (\<lambda>(b2, w2).
       prealloc_state_buffers sz rest
         (rs\<lparr>present_past_prealloc_buffer_1_vec := present_past_prealloc_buffer_1_vec rs @ [b1],
             present_past_prealloc_buffer_2_vec := present_past_prealloc_buffer_2_vec rs @ [b2]\<rparr>)
         w2))"

text \<open>Lines 129-136: the initial state views, of sequence length 0, over buffer 1.\<close>

fun init_output_states ::
  "OrtMemoryInfo \<Rightarrow> int list \<Rightarrow> int \<Rightarrow> string list \<Rightarrow> RunState \<Rightarrow> RunState res" where
  "init_output_states info shp j [] rs = Ok rs"
| "init_output_states info shp j (oname # rest) rs =
     bindR (vec_at (present_past_prealloc_buffer_1_vec rs) j) (\<lambda>mem_allocation.
       init_output_states info shp (j + 1) rest
         (rs\<lparr>output_val_map :=
               emplace (output_val_map rs) oname
                 (CreateTensor info (ma_ptr mem_allocation) (ma_size mem_allocation) shp
                    ELEMENT_FLOAT16)\<rparr>))"

text \<open>Lines 141-158: one buffer per inter-stage output.\<close>

fun prealloc_inter_stage ::
  "ModelConfig \<Rightarrow> Session \<Rightarrow> int \<Rightarrow> int \<Rightarrow> (string \<times> string) list \<Rightarrow> RunState \<Rightarrow> World
     \<Rightarrow> (RunState \<times> World) res" where
  "prealloc_inter_stage mcfg sess bsz max_len [] rs w = Ok (rs, w)"
| "prealloc_inter_stage mcfg sess bsz max_len (elem_pair # rest) rs w =
     (let oname = fst elem_pair; rc = Contains (output_names mcfg) oname in
      bindR (assertR (fst rc) ''rc.first'') (\<lambda>_.
      bindR (GetShape sess (snd rc) False) (\<lambda>output_shape.
      bindR (vec_set output_shape (batch_dim_in_inter_stage_output mcfg) bsz) (\<lambda>shp1.
      bindR (vec_set shp1 (seq_len_dim_in_inter_stage_output mcfg) max_len) (\<lambda>shp2.
      bindR (accumulate_multiplies_int 1 shp2) (\<lambda>num_elements.
      bindR (GetAllocation (size_to_allocate_of num_elements) w) (\<lambda>(buf, w1).
        prealloc_inter_stage mcfg sess bsz max_len rest
          (rs\<lparr>inter_stage_output_prealloc_buffer_map :=
                emplace (inter_stage_output_prealloc_buffer_map rs) oname buf\<rparr>)
          w1)))))))"

definition empty_RunState :: RunState where
  "empty_RunState = \<lparr>io_binding = \<lparr>bound_inputs = [], bound_outputs = []\<rparr>,
     present_past_prealloc_buffer_1_vec = [], present_past_prealloc_buffer_2_vec = [],
     inter_stage_output_prealloc_buffer_map = Map.empty, output_val_map = Map.empty\<rparr>"

text \<open>The body of the constructor's loop (lines 101-165) for the stage \<open>idx\<close>.\<close>

definition frame_stage ::
  "PipelineSession \<Rightarrow> int \<Rightarrow> int \<Rightarrow> ModelConfig \<Rightarrow> World \<Rightarrow> (RunState \<times> World) res" where
  "frame_stage psess bsz idx mcfg w =
     bindR (vec_at (model_session_state_vec psess) idx) (\<lambda>ss.
     bindR (vec_at (past_input_names mcfg) 0) (\<lambda>past0.
     let rc = Contains (input_names mcfg) past0 in
     bindR (assertR (fst rc) ''rc.first'') (\<lambda>_.
     bindR (GetShape (session ss) (snd rc) True) (\<lambda>shp.
     bindR (vec_set shp (batch_dim_index_in_state mcfg) bsz) (\<lambda>shp1.
     bindR (vec_set shp1 (seq_len_dim_index_in_state mcfg) (max_seq_len (pcfg psess)))
       (\<lambda>past_present_state_shape.
     bindR (accumulate_multiplies_int 1 past_present_state_shape) (\<lambda>num_elements.
     bindR (prealloc_state_buffers (size_to_allocate_of num_elements) (past_input_names mcfg)
              empty_RunState w) (\<lambda>(rs1, w1).
     bindR (vec_set past_present_state_shape (seq_len_dim_index_in_state mcfg) 0) (\<lambda>shp0.
     bindR (init_output_states (cuda_mem_info ss) shp0 0 (present_output_names mcfg) rs1)
       (\<lambda>rs2.
     if idx < num_stages (pcfg psess) - 1
     then prealloc_inter_stage mcfg (session ss) bsz (max_seq_len (pcfg psess))
            (inter_stage_output_input_map mcfg) rs2 w1
     else Ok (rs2, w1)))))))))))"

fun frame_stages ::
  "PipelineSession \<Rightarrow> int \<Rightarrow> int \<Rightarrow> ModelConfig list \<Rightarrow> RunState list \<Rightarrow> World
     \<Rightarrow> (RunState list \<times> World) res" where
  "frame_stages psess bsz idx [] vec w = Ok (vec, w)"
| "frame_stages psess bsz idx (mcfg # rest) vec w =
     bindR (frame_stage psess bsz idx mcfg w) (\<lambda>(rs, w1).
       frame_stages psess bsz (idx + 1) rest (vec @ [rs]) w1)"

definition empty_Token :: Token where
  "empty_Token = \<lparr>req_id = 0, step_id = 0, ort_value_names = [], ort_values = [],
                   error_msg = []\<rparr>"

definition RequestExecutionFrame_ctor ::
  "PipelineSession \<Rightarrow> int \<Rightarrow> int \<Rightarrow> int \<Rightarrow> int \<Rightarrow> int \<Rightarrow> World
     \<Rightarrow> (RequestExecutionFrame \<times> World) res" where
  "RequestExecutionFrame_ctor psess req_idx0 req_id0 batch_size0 orig_input_seq_len0 stage_id0 w =
     bindR (frame_stages psess batch_size0 0 (model_config_vec (pcfg psess)) [] w) (\<lambda>(vec, w1).
       Ok (\<lparr>req_index = req_idx0, frame_req_id = req_id0, batch_size = batch_size0,
            orig_input_seq_len = orig_input_seq_len0, stage_id = stage_id0,
            token = empty_Token, model_run_state_vec = vec\<rparr>, w1))"

section \<open>tools/multi\_gpu\_pipeline.cc: the stage worker\<close>

text \<open>Lines 211-226: binding the inputs.\<close>

fun bind_inputs ::
  "ModelConfig \<Rightarrow> string list \<Rightarrow> Value list \<Rightarrow> RunState \<Rightarrow> string list \<Rightarrow> IoBinding
     \<Rightarrow> IoBinding res" where
  "bind_inputs mcfg in_names in_values rs [] b = Ok b"
| "bind_inputs mcfg in_names in_values rs (iname # rest) b =
     (let rc = Contains in_names iname in
      if fst rc
      then bindR (vec_at in_values (snd rc)) (\<lambda>v.
             bind_inputs mcfg in_names in_values rs rest (BindInput iname v b))
      else
        (let rc = Contains (past_input_names mcfg) iname in
         if fst rc
         then bindR (vec_at (present_output_names mcfg) (snd rc)) (\<lambda>mapped_oname.
              bindR (map_at (output_val_map rs) mapped_oname) (\<lambda>v.
                bind_inputs mcfg in_names in_values rs rest (BindInput iname v b)))
         else bind_inputs mcfg in_names in_values rs rest b))"

text \<open>Lines 262-307: binding the outputs. A state output goes to buffer 2 on an even
  step and to buffer 1 on an odd one.\<close>

fun bind_outputs ::
  "ModelConfig \<Rightarrow> SessionState \<Rightarrow> OrtResp \<Rightarrow> RunState \<Rightarrow> int \<Rightarrow> int \<Rightarrow> int list
     \<Rightarrow> ONNXTensorElementDataType \<Rightarrow> int \<Rightarrow> string list \<Rightarrow> IoBinding \<Rightarrow> IoBinding res" where
  "bind_outputs mcfg ss resp rs bsz step st_shape st_type input_seq_len [] b = Ok b"
| "bind_outputs mcfg ss resp rs bsz step st_shape st_type input_seq_len (oname # rest) b =
     (let rc = Contains (present_output_names mcfg) oname in
      if fst rc
      then bindR (vec_at (if step mod 2 = 0 then present_past_prealloc_buffer_2_vec rs
                          else present_past_prealloc_buffer_1_vec rs) (snd rc))
             (\<lambda>mem_allocation.
               bind_outputs mcfg ss resp rs bsz step st_shape st_type input_seq_len rest
                 (BindOutput oname
                    (CreateTensor (cuda_mem_info ss) (ma_ptr mem_allocation)
                       (ma_size mem_allocation) st_shape st_type) b))
      else
        (let rc = Contains (resp_output_names resp) oname in
         if fst rc
         then bindR (vec_at (resp_output_meminfo resp) (snd rc)) (\<lambda>mem_info.
                case mem_info of
                  Some info \<Rightarrow>
                    bind_outputs mcfg ss resp rs bsz step st_shape st_type input_seq_len rest
                      (BindOutputToDevice oname info b)
                | None \<Rightarrow>
                    bindR (vec_at (resp_output_values resp) (snd rc)) (\<lambda>ort_val.
                      bind_outputs mcfg ss resp rs bsz step st_shape st_type input_seq_len rest
                        (BindOutput oname ort_val b)))
         else
           (let found = Contains (output_names mcfg) oname in
            bindR (assertR (fst found) ''found.first'') (\<lambda>_.
            bindR (GetShape (session ss) (snd found) False) (\<lambda>shp.
            bindR (vec_set shp (batch_dim_in_inter_stage_output mcfg) bsz) (\<lambda>shp1.
            bindR (vec_set shp1 (seq_len_dim_in_inter_stage_output mcfg) input_seq_len)
              (\<lambda>inter_stage_output_shape.
            bindR (map_at (inter_stage_output_prealloc_buffer_map rs) oname)
              (\<lambda>mem_allocation.
                bind_outputs mcfg ss resp rs bsz step st_shape st_type input_seq_len rest
                  (BindOutput oname
                     (CreateTensor (cuda_mem_info ss) (ma_ptr mem_allocation)
                        (ma_size mem_allocation) inter_stage_output_shape st_type) b)))))))))"

text \<open>\<open>assert(v.GetTensorData<Ort::Float16_t>())\<close>.\<close>

definition assert_has_data :: "Value \<Rightarrow> unit res" where
  "assert_has_data v =
     (case v of None \<Rightarrow> Undefined
      | Some t \<Rightarrow> assertR (data_ptr t \<noteq> Null) ''GetTensorData'')"

text \<open>Lines 321-348: after the run, a state output is stored with \<open>emplace\<close> under its
  name, an inter-stage output is appended to the token under the next stage's name.\<close>

fun save_outputs ::
  "ModelConfig \<Rightarrow> Value list \<Rightarrow> int \<Rightarrow> string list \<Rightarrow> RunState \<Rightarrow> Token
     \<Rightarrow> (RunState \<times> Token) res" where
  "save_outputs mcfg vec_out_vals i [] rs tok = Ok (rs, tok)"
| "save_outputs mcfg vec_out_vals i (oname # rest) rs tok =
     (let is_loop_back_state_output = Contains (present_output_names mcfg) oname in
      bindR (assertR (\<not> (fst is_loop_back_state_output
                          \<and> map_count (inter_stage_output_input_map mcfg) oname))
               ''!(is_loop_back_state_output.first && inter_stage_output_input_map.count(oname))'')
        (\<lambda>_.
      if fst is_loop_back_state_output
      then bindR (vec_at vec_out_vals i) (\<lambda>v.
           bindR (assert_has_data v) (\<lambda>_.
             save_outputs mcfg vec_out_vals (i + 1) rest
               (rs\<lparr>output_val_map := emplace (output_val_map rs) oname v\<rparr>) tok))
      else
        (case map_of (inter_stage_output_input_map mcfg) oname of
           Some next_name \<Rightarrow>
             bindR (vec_at vec_out_vals i) (\<lambda>v.
             bindR (assert_has_data v) (\<lambda>_.
               save_outputs mcfg vec_out_vals (i + 1) rest rs
                 (tok\<lparr>ort_value_names := ort_value_names tok @ [next_name],
                      ort_values := ort_values tok @ [v]\<rparr>)))
         | None \<Rightarrow> save_outputs mcfg vec_out_vals (i + 1) rest rs tok)))"

text \<open>
  \<open>ProcessRequest\<close>. Both callers pass the frame's resident token, so the token is read
  from the frame and written back to it. The values are moved out of the token (null
  handles stay behind); the names stay.

  Lines 187-320: binding and the run. The result is the run state with the binding of
  this run, the token with its values moved out, and the output values of the run.
\<close>

definition bind_and_run ::
  "ModelConfig \<Rightarrow> SessionState \<Rightarrow> OrtResp \<Rightarrow> RequestExecutionFrame \<Rightarrow> World
     \<Rightarrow> (RunState \<times> Token \<times> Value list \<times> World) res" where
  "bind_and_run mcfg session_state ort_resp exec_frame w =
     (let tok = token exec_frame; model_idx = stage_id exec_frame in
      bindR (vec_at (model_run_state_vec exec_frame) model_idx) (\<lambda>run_state.
      let in_token_ort_value_names = ort_value_names tok;
          in_token_ort_values = ort_values tok;
          tok1 = tok\<lparr>ort_values := map (\<lambda>v. None) (ort_values tok)\<rparr>;
          b0 = ClearBoundOutputs (ClearBoundInputs (io_binding run_state)) in
      bindR (bind_inputs mcfg in_token_ort_value_names in_token_ort_values run_state
               (input_names mcfg) b0) (\<lambda>b1.
      let rc = Contains in_token_ort_value_names (input_to_use_for_seq_len mcfg) in
      bindR (assertR (fst rc) ''rc.first'') (\<lambda>_.
      bindR (vec_at in_token_ort_values (snd rc)) (\<lambda>input_ort_value.
      bindR (Value_GetShape input_ort_value) (\<lambda>in_shape.
      bindR (vec_at in_shape (seq_len_dim_index_in_input mcfg)) (\<lambda>d_in.
      let input_seq_len = int32 d_in in
      bindR (vec_at (present_output_names mcfg) 0) (\<lambda>present0.
      bindR (map_at (output_val_map run_state) present0) (\<lambda>state0.
      bindR (Value_GetShape state0) (\<lambda>state_shape.
      bindR (vec_at state_shape (seq_len_dim_index_in_state mcfg)) (\<lambda>d_past.
      let past_seq_len = int32 d_past in
      bindR (int_arith (input_seq_len + past_seq_len)) (\<lambda>new_seq_len.
      let rc2 = Contains (output_names mcfg) present0 in
      bindR (assertR (fst rc2) ''rc2.first'') (\<lambda>_.
      bindR (GetShape (session session_state) (snd rc2) False) (\<lambda>shp.
      bindR (vec_set shp (batch_dim_index_in_state mcfg) (batch_size exec_frame)) (\<lambda>shp1.
      bindR (vec_set shp1 (seq_len_dim_index_in_state mcfg) new_seq_len)
        (\<lambda>past_present_state_shape.
      bindR (GetOutputElementType (session session_state) (snd rc2)) (\<lambda>past_present_type.
      bindR (bind_outputs mcfg session_state ort_resp run_state (batch_size exec_frame)
               (step_id tok) past_present_state_shape past_present_type input_seq_len
               (output_names mcfg) b1) (\<lambda>b2.
      bindR (sess_run (session session_state) b2 w) (\<lambda>(vec_out_vals, w1).
        Ok (run_state\<lparr>io_binding := b2\<rparr>, tok1, vec_out_vals, w1)
      )))))))))))))))))))"

text \<open>The whole of \<open>ProcessRequest\<close>: after the run, lines 321-352.\<close>

definition ProcessRequest ::
  "ModelConfig \<Rightarrow> SessionState \<Rightarrow> OrtResp \<Rightarrow> RequestExecutionFrame \<Rightarrow> World
     \<Rightarrow> (RequestExecutionFrame \<times> World) res" where
  "ProcessRequest mcfg session_state ort_resp exec_frame w =
     bindR (bind_and_run mcfg session_state ort_resp exec_frame w)
       (\<lambda>(run_state, tok1, vec_out_vals, w1).
     bindR (save_outputs mcfg vec_out_vals 0 (output_names mcfg) run_state tok1)
       (\<lambda>(rs', tok').
     bindR (vec_set (model_run_state_vec exec_frame) (stage_id exec_frame) rs') (\<lambda>vec'.
       Ok (exec_frame\<lparr>token := tok', model_run_state_vec := vec'\<rparr>, w1))))"

text \<open>
  \<open>lambda_helper\<close>, the task a pool thread runs: an exception of the worker becomes an
  error message in the frame's token. A failed assertion or undefined behaviour is not
  caught. (What the worker changed before it threw is not kept: \<open>Run\<close> returns at the
  first error token without reading it.)
\<close>

definition lambda_helper ::
  "ModelConfig \<Rightarrow> SessionState \<Rightarrow> OrtResp \<Rightarrow> RequestExecutionFrame \<Rightarrow> World
     \<Rightarrow> (RequestExecutionFrame \<times> World) res" where
  "lambda_helper mcfg session_state ort_resp exec_frame w =
     (case ProcessRequest mcfg session_state ort_resp exec_frame w of
        Ok r \<Rightarrow> Ok r
      | Throw what \<Rightarrow>
          Ok (exec_frame\<lparr>token := (token exec_frame)
                \<lparr>error_msg := ''Error in processing request id: ''
                     @ show_int (req_id (token exec_frame)) @ '' with exception: '' @ what\<rparr>\<rparr>, w)
      | AssertFail a \<Rightarrow> AssertFail a
      | Undefined \<Rightarrow> Undefined)"

section \<open>tools/multi\_gpu\_pipeline.cc: greedy next-token selection\<close>

text \<open>
  \<open>Ort::Float16_t\<close> holds the raw 16 bits of a half and converts to \<open>uint16_t\<close>
  (as \<open>main\<close> uses it), so \<open>elem > max\<close> compares the raw values as unsigned
  integers: the order of \<open>16 word\<close>. \<open>logits_data\<close> is what
  \<open>GetTensorData\<close> points at.

  Lines 378-380, the inner loop that copies the last sequence position of one batch row:
  \<open>k\<close> is an \<open>int\<close>.
\<close>

function gather_row ::
  "16 word list \<Rightarrow> int \<Rightarrow> int \<Rightarrow> int \<Rightarrow> int \<Rightarrow> 16 word list \<Rightarrow> 16 word list res" where
  "gather_row logits_data s1 s2 batch_id k tmp =
     (if k < s2
      then (if \<not> (0 \<le> batch_id + (s1 - 1) * s2 + k
                   \<and> batch_id + (s1 - 1) * s2 + k < int (length logits_data)) then Undefined
            else if \<not> in_int (k + 1) then Undefined
            else gather_row logits_data s1 s2 batch_id (k + 1)
                   (tmp @ [logits_data ! nat (batch_id + (s1 - 1) * s2 + k)]))
      else Ok tmp)"
  by pat_completeness auto
termination
  by (relation "measure (\<lambda>(logits_data, s1, s2, batch_id, k, tmp). nat (2 ^ 31 - k))")
     (auto simp: in_int_def)

text \<open>Lines 377-381: \<open>batch_id += ltwo\<close> adds two \<open>int\<close>s.\<close>

partial_function (option) gather_rows ::
  "16 word list \<Rightarrow> int \<Rightarrow> int \<Rightarrow> int \<Rightarrow> int \<Rightarrow> int \<Rightarrow> 16 word list
     \<Rightarrow> 16 word list res option" where
  "gather_rows logits_data s1 s2 num_elems ltwo batch_id tmp =
     (if batch_id < num_elems
      then (case gather_row logits_data s1 s2 batch_id 0 tmp of
              Ok tmp' \<Rightarrow>
                if in_int (batch_id + ltwo)
                then gather_rows logits_data s1 s2 num_elems ltwo (batch_id + ltwo) tmp'
                else Some Undefined
            | Throw e \<Rightarrow> Some (Throw e)
            | AssertFail e \<Rightarrow> Some (AssertFail e)
            | Undefined \<Rightarrow> Some Undefined)
      else Some (Ok tmp))"

text \<open>Lines 388-395: the first largest element of one row; \<open>batch_id + j\<close> adds two
  \<open>int\<close>s.\<close>

function argmax_row :: "16 word list \<Rightarrow> int \<Rightarrow> int \<Rightarrow> int \<Rightarrow> 16 word \<Rightarrow> int \<Rightarrow> int res" where
  "argmax_row tmp s2 batch_id j mx max_idx =
     (if j < s2
      then (if \<not> in_int (batch_id + j) then Undefined
            else if \<not> (0 \<le> batch_id + j \<and> batch_id + j < int (length tmp)) then Undefined
            else if \<not> in_int (j + 1) then Undefined
            else if mx < tmp ! nat (batch_id + j)
                 then argmax_row tmp s2 batch_id (j + 1) (tmp ! nat (batch_id + j)) j
                 else argmax_row tmp s2 batch_id (j + 1) mx max_idx)
      else Ok max_idx)"
  by pat_completeness auto
termination
  by (relation "measure (\<lambda>(tmp, s2, batch_id, j, mx, max_idx). nat (2 ^ 31 - j))")
     (auto simp: in_int_def)

text \<open>Lines 384-397: \<open>batch_id += logits_shape[2]\<close> adds in 64 bits and narrows.\<close>

partial_function (option) argmax_rows ::
  "16 word list \<Rightarrow> int \<Rightarrow> int \<Rightarrow> int \<Rightarrow> int list \<Rightarrow> int list res option" where
  "argmax_rows tmp s2 new_size batch_id input_ids =
     (if batch_id < new_size
      then (if \<not> (0 \<le> batch_id \<and> batch_id < int (length tmp)) then Some Undefined
            else (case argmax_row tmp s2 batch_id 1 (tmp ! nat batch_id) 0 of
                    Ok max_idx \<Rightarrow>
                      argmax_rows tmp s2 new_size (int32 (batch_id + s2)) (input_ids @ [max_idx])
                  | Throw e \<Rightarrow> Some (Throw e)
                  | AssertFail e \<Rightarrow> Some (AssertFail e)
                  | Undefined \<Rightarrow> Some Undefined))
      else Some (Ok input_ids))"

text \<open>
  \<open>GetNewInputIdsFromLogits\<close>: the result is the pair of \<open>input_ids\<close> (the caller's
  vector with the new ids appended) and \<open>input_ids_shape\<close>; \<open>None\<close> is a call that
  does not return. \<open>reserve\<close> of a negative \<open>int\<close> asks for more than a vector can
  hold and throws.
\<close>

definition GetNewInputIdsFromLogits ::
  "int \<Rightarrow> 16 word list \<Rightarrow> int list \<Rightarrow> int list \<Rightarrow> (int list \<times> int list) res option" where
  "GetNewInputIdsFromLogits batch_size0 logits_data logits_shape input_ids =
     (if batch_size0 < 0 then Some (Throw ''vector::reserve'')
      else if length logits_shape < 3 then Some Undefined
      else
        (let input_ids_shape = [batch_size0, 1];
             s0 = logits_shape ! 0; s1 = logits_shape ! 1; s2 = logits_shape ! 2;
             new_size = int32 (s0 * s2) in
         if new_size < 0 then Some (Throw ''vector::reserve'')
         else
           (let num_elems = int32 (s0 * s1 * s2); ltwo = int32 (s1 * s2) in
            case gather_rows logits_data s1 s2 num_elems ltwo 0 [] of
              None \<Rightarrow> None
            | Some (Ok tmp) \<Rightarrow>
                (case argmax_rows tmp s2 new_size 0 input_ids of
                   None \<Rightarrow> None
                 | Some (Ok ids) \<Rightarrow> Some (Ok (ids, input_ids_shape))
                 | Some (Throw e) \<Rightarrow> Some (Throw e)
                 | Some (AssertFail e) \<Rightarrow> Some (AssertFail e)
                 | Some Undefined \<Rightarrow> Some Undefined)
            | Some (Throw e) \<Rightarrow> Some (Throw e)
            | Some (AssertFail e) \<Rightarrow> Some (AssertFail e)
            | Some Undefined \<Rightarrow> Some Undefined)))"

section \<open>tools/multi\_gpu\_pipeline.cc: the pipeline driver\<close>

datatype OrtErrorCode = ORT_FAIL

datatype OrtStatus = CreateStatus OrtErrorCode string

text \<open>
  The locals of \<open>Run\<close> and what it shares with its tasks. A \<open>Token*\<close> in the
  response queue always points at the resident token of a frame, so the queue holds the
  key of that frame. \<open>last_req_id\<close> is the static counter of \<open>CreateRequestId\<close>.

  The thread pool is modelled by one of its schedules: a task runs to completion when it
  is submitted, and its token goes to the back of the queue. \<open>Get\<close> on an empty queue
  with no task left never returns.
\<close>

record RunVars =
  req_frame_map :: "int \<rightharpoonup> RequestExecutionFrame"
  resp_queue :: "int list"
  req_list :: "OrtReq list"
  resp_list :: "OrtResp list"
  req_processed :: int
  last_req_id :: int
  world :: World

text \<open>\<open>a % b\<close> of C++: the remainder of the division that truncates.\<close>

definition c_mod :: "int \<Rightarrow> int \<Rightarrow> int res" where
  "c_mod a b = (if b = 0 then Undefined else Ok (sgn a * (\<bar>a\<bar> mod \<bar>b\<bar>)))"

text \<open>Lines 568-574 and \<open>lambda_helper\<close>: the task for the frame's current stage.\<close>

definition RunTask :: "PipelineSession \<Rightarrow> int \<Rightarrow> RunVars \<Rightarrow> RunVars res" where
  "RunTask ps rid rv =
     bindR (map_at (req_frame_map rv) rid) (\<lambda>exec_frame.
     bindR (vec_at (model_config_vec (pcfg ps)) (stage_id exec_frame)) (\<lambda>model_config.
     bindR (vec_at (model_session_state_vec ps) (stage_id exec_frame)) (\<lambda>session_state.
     bindR (vec_at (resp_list rv) (req_index exec_frame)) (\<lambda>ort_resp.
     bindR (lambda_helper model_config session_state ort_resp exec_frame (world rv))
       (\<lambda>(exec_frame', w').
         Ok (rv\<lparr>req_frame_map := (req_frame_map rv)(rid \<mapsto> exec_frame'), world := w',
                 resp_queue := resp_queue rv @ [rid]\<rparr>))))))"

text \<open>Lines 441-477: admitting the request at \<open>req_idx\<close>.\<close>

definition admit :: "PipelineSession \<Rightarrow> int \<Rightarrow> RunVars \<Rightarrow> RunVars res" where
  "admit ps req_idx rv =
     bindR (int_arith (last_req_id rv + 1)) (\<lambda>rid.
     bindR (vec_at (req_list rv) req_idx) (\<lambda>one_req.
     bindR (vec_at (resp_list rv) req_idx) (\<lambda>one_resp.
     bindR (assertR (length (resp_output_values one_resp) = length (resp_output_names one_resp))
              ''ovalues.size() == onames.size()'') (\<lambda>_.
     bindR (vec_at (model_config_vec (pcfg ps)) 0) (\<lambda>mc0.
     let rc = Contains (req_input_names one_req) (input_to_use_for_seq_len mc0) in
     bindR (assertR (fst rc) ''rc.first'') (\<lambda>_.
     bindR (vec_at (req_input_values one_req) (snd rc)) (\<lambda>v.
     bindR (Value_GetShape v) (\<lambda>shp.
     bindR (vec_at shp (seq_len_dim_index_in_input mc0)) (\<lambda>d_seq.
     bindR (vec_at shp (batch_dim_index_in_input mc0)) (\<lambda>d_batch.
     let orig_seq_len = int32 d_seq; batch_size0 = int32 d_batch in
     bindR (RequestExecutionFrame_ctor ps req_idx rid batch_size0 orig_seq_len 0 (world rv))
       (\<lambda>(tmp_exec_frame, w1).
     let frames = emplace (req_frame_map rv) rid tmp_exec_frame in
     bindR (map_at frames rid) (\<lambda>fr.
     bindR (vec_set (req_list rv) req_idx (one_req\<lparr>req_input_values := []\<rparr>)) (\<lambda>reqs'.
       RunTask ps rid
         (rv\<lparr>last_req_id := rid,
             req_frame_map := frames(rid \<mapsto>
               fr\<lparr>token := Token_Init rid 0 (req_input_names one_req)
                                (req_input_values one_req) (token fr)\<rparr>),
             req_list := reqs', world := w1\<rparr>))))))))))))))"

fun admit_from :: "PipelineSession \<Rightarrow> int \<Rightarrow> nat \<Rightarrow> RunVars \<Rightarrow> RunVars res" where
  "admit_from ps req_idx 0 rv = Ok rv"
| "admit_from ps req_idx (Suc n) rv =
     bindR (admit ps req_idx rv) (admit_from ps (req_idx + 1) n)"

text \<open>
  Lines 507-518: moving the requested outputs from the final token into the response
  slot. The result has the status to return, if a name is missing, and the token and the
  slot as they are at that point.
\<close>

fun move_outputs ::
  "string list \<Rightarrow> int \<Rightarrow> Token \<Rightarrow> OrtResp \<Rightarrow> (OrtStatus option \<times> Token \<times> OrtResp) res" where
  "move_outputs [] resp_index tok resp = Ok (None, tok, resp)"
| "move_outputs (oname # rest) resp_index tok resp =
     (let ex = Contains (ort_value_names tok) oname in
      if fst ex
      then bindR (vec_at (ort_values tok) (snd ex)) (\<lambda>v.
           bindR (vec_set (resp_output_values resp) resp_index v) (\<lambda>vals'.
           bindR (vec_set (ort_values tok) (snd ex) None) (\<lambda>tvals'.
             move_outputs rest (resp_index + 1) (tok\<lparr>ort_values := tvals'\<rparr>)
               (resp\<lparr>resp_output_values := vals'\<rparr>))))
      else Ok (Some (CreateStatus ORT_FAIL
                 (''Error: Output '' @ oname @ '' is not produced by the final stage''
                    @ [CHR 0x0A])), tok, resp))"

text \<open>What \<open>GetTensorData<Ort::Float16_t>\<close> points at: the halves the runtime wrote at
  the tensor's address, none where nothing is known to be.\<close>

definition half_contents :: "Value \<Rightarrow> World \<Rightarrow> 16 word list res" where
  "half_contents v w =
     (case v of
        None \<Rightarrow> Undefined
      | Some t \<Rightarrow> (case data_ptr t of
                    Null \<Rightarrow> Ok []
                  | Addr a \<Rightarrow> (case half_mem w a of None \<Rightarrow> Ok [] | Some xs \<Rightarrow> Ok xs)))"

definition bindRO :: "'a res \<Rightarrow> ('a \<Rightarrow> 'b res option) \<Rightarrow> 'b res option" where
  "bindRO m f = (case m of Ok x \<Rightarrow> f x | Throw e \<Rightarrow> Some (Throw e)
                 | AssertFail e \<Rightarrow> Some (AssertFail e) | Undefined \<Rightarrow> Some Undefined)"

text \<open>
  Lines 522-558: the token of the next step. \<open>input_ids\<close> and \<open>posn_ids\<close> are
  vectors local to the block: their buffers get the addresses \<open>a1\<close> and \<open>a2\<close>, the
  two tensors are views of those buffers, and at the closing brace of the block the
  vectors are destroyed and their buffers freed.
\<close>

definition next_step_token ::
  "PipelineSession \<Rightarrow> int \<Rightarrow> RequestExecutionFrame \<Rightarrow> int \<Rightarrow> int \<Rightarrow> Token \<Rightarrow> World
     \<Rightarrow> (OrtStatus option \<times> Token \<times> World) res option" where
  "next_step_token ps logits_idx exec_frame rid step tok w =
     (let bsz = batch_size exec_frame;
          rc = Contains (ort_value_names tok) (logits_name (pcfg ps)) in
      if \<not> fst rc
      then Some (Ok (Some (CreateStatus ORT_FAIL ''Did not get logits in the output''), tok, w))
      else
        bindRO (vec_at (model_session_state_vec ps) (num_stages (pcfg ps) - 1)) (\<lambda>ss.
        bindRO (GetShape (session ss) logits_idx False) (\<lambda>shp.
        bindRO (vec_set shp 0 bsz) (\<lambda>logits_shape.
        bindRO (vec_at (ort_values tok) (snd rc)) (\<lambda>logits.
        bindRO (half_contents logits w) (\<lambda>logits_data.
        case GetNewInputIdsFromLogits bsz logits_data logits_shape [] of
          None \<Rightarrow> None
        | Some r \<Rightarrow>
            Some (bindR r (\<lambda>(input_ids, input_ids_shape).
              let cpu_memory_info = CreateCpu OrtArenaAllocator;
                  a1 = next_addr w;
                  input_ids_tensor = CreateTensor_int64 cpu_memory_info (Addr a1)
                                       (int (length input_ids)) input_ids_shape in
              bindR (int_arith (orig_input_seq_len exec_frame + step)) (\<lambda>sum.
              bindR (int_arith (sum - 1)) (\<lambda>new_posn_id.
              let posn_ids = replicate (nat bsz) new_posn_id;
                  a2 = Suc a1;
                  posn_ids_tensor = CreateTensor_int64 cpu_memory_info (Addr a2)
                                      (int (length posn_ids)) input_ids_shape;
                  w1 = w\<lparr>next_addr := Suc a2,
                         host_mem := (host_mem w)(a1 \<mapsto> input_ids, a2 \<mapsto> posn_ids)\<rparr>;
                  tok1 = (Token_Clear tok)
                           \<lparr>req_id := rid, step_id := step,
                            ort_value_names := [input_ids_name (pcfg ps),
                                                position_ids_name (pcfg ps)]\<rparr>;
                  tok2 = tok1\<lparr>ort_values := ort_values tok1 @ [input_ids_tensor]\<rparr>;
                  tok3 = tok2\<lparr>ort_values := ort_values tok2 @ [posn_ids_tensor]\<rparr>
              in Ok (None, tok3,
                     w1\<lparr>host_mem := (host_mem w1)(a1 := None, a2 := None)\<rparr>)))))))))))"

text \<open>
  Lines 489-565 of one iteration of the main loop, for the token at the head of the
  queue: return from \<open>Run\<close> with a status, mark the request complete, or hand the
  request to its next task.
\<close>

datatype advance_result =
    Done "OrtStatus option" RunVars
  | Completed RunVars
  | Resubmit int RunVars

definition advance ::
  "PipelineSession \<Rightarrow> int \<Rightarrow> int \<Rightarrow> int \<Rightarrow> RunVars \<Rightarrow> advance_result res option" where
  "advance ps num_steps logits_idx rid rv =
     bindRO (map_at (req_frame_map rv) rid) (\<lambda>exec_frame.
     let tok = token exec_frame; step = step_id tok in
     if error_msg tok \<noteq> []
     then Some (Ok (Done (Some (CreateStatus ORT_FAIL (error_msg tok))) rv))
     else
       bindRO (c_mod (stage_id exec_frame + 1) (num_stages (pcfg ps))) (\<lambda>sid.
       let exec_frame1 = exec_frame\<lparr>stage_id := sid\<rparr> in
       if sid = 0
       then
         bindRO (int_arith (step + 1)) (\<lambda>step1.
         if step1 = num_steps
         then
           bindRO (vec_at (resp_list rv) (req_index exec_frame1)) (\<lambda>resp.
           bindRO (move_outputs (resp_output_names resp) 0 tok resp) (\<lambda>(st, tok', resp').
           bindRO (vec_set (resp_list rv) (req_index exec_frame1) resp') (\<lambda>resps'.
           let rv1 = rv\<lparr>resp_list := resps',
                        req_frame_map := (req_frame_map rv)(rid \<mapsto> exec_frame1\<lparr>token := tok'\<rparr>)\<rparr>
           in case st of
                Some status \<Rightarrow> Some (Ok (Done (Some status) rv1))
              | None \<Rightarrow> Some (Ok (Completed (rv1\<lparr>req_processed := req_processed rv1 + 1\<rparr>))))))
         else
           (case next_step_token ps logits_idx exec_frame1 rid step1 tok (world rv) of
              None \<Rightarrow> None
            | Some r \<Rightarrow>
                bindRO r (\<lambda>(st, tok', w').
                  let rv1 = rv\<lparr>world := w',
                               req_frame_map :=
                                 (req_frame_map rv)(rid \<mapsto> exec_frame1\<lparr>token := tok'\<rparr>)\<rparr>
                  in case st of
                       Some status \<Rightarrow> Some (Ok (Done (Some status) rv1))
                     | None \<Rightarrow> Some (Ok (Resubmit rid rv1)))))
       else
         Some (Ok (Resubmit rid
           (rv\<lparr>req_frame_map := (req_frame_map rv)(rid \<mapsto>
                  exec_frame1\<lparr>token := tok\<lparr>req_id := rid, step_id := step\<rparr>\<rparr>)\<rparr>)))))"

text \<open>Lines 488-575: the main loop; \<open>None\<close> is a loop that does not end.\<close>

partial_function (option) run_loop ::
  "PipelineSession \<Rightarrow> int \<Rightarrow> int \<Rightarrow> int \<Rightarrow> RunVars \<Rightarrow> (OrtStatus option \<times> RunVars) res option"
  where
  "run_loop ps num_steps num_reqs logits_idx rv =
     (if req_processed rv < num_reqs
      then (case resp_queue rv of
              [] \<Rightarrow> None
            | rid # q \<Rightarrow>
                (case advance ps num_steps logits_idx rid (rv\<lparr>resp_queue := q\<rparr>) of
                   None \<Rightarrow> None
                 | Some (Ok (Done st rv1)) \<Rightarrow> Some (Ok (st, rv1))
                 | Some (Ok (Completed rv1)) \<Rightarrow> run_loop ps num_steps num_reqs logits_idx rv1
                 | Some (Ok (Resubmit r rv1)) \<Rightarrow>
                     (case RunTask ps r rv1 of
                        Ok rv2 \<Rightarrow> run_loop ps num_steps num_reqs logits_idx rv2
                      | Throw e \<Rightarrow> Some (Throw e)
                      | AssertFail e \<Rightarrow> Some (AssertFail e)
                      | Undefined \<Rightarrow> Some Undefined)
                 | Some (Throw e) \<Rightarrow> Some (Throw e)
                 | Some (AssertFail e) \<Rightarrow> Some (AssertFail e)
                 | Some Undefined \<Rightarrow> Some Undefined))
      else Some (Ok (None, rv)))"

text \<open>\<open>PipelineSession::Run\<close>; the status \<open>None\<close> is the null pointer of success.\<close>

definition Run ::
  "PipelineSession \<Rightarrow> OrtReq list \<Rightarrow> OrtResp list \<Rightarrow> int \<Rightarrow> int \<Rightarrow> World
     \<Rightarrow> (OrtStatus option \<times> RunVars) res option" where
  "Run ps req_list0 resp_list0 num_steps static_req_id w =
     bindRO (admit_from ps 0 (length req_list0)
               \<lparr>req_frame_map = Map.empty, resp_queue = [], req_list = req_list0,
                resp_list = resp_list0, req_processed = 0, last_req_id = static_req_id,
                world = w\<rparr>) (\<lambda>rv1.
     bindRO (vec_at (model_config_vec (pcfg ps)) (num_stages (pcfg ps) - 1)) (\<lambda>last_stage.
     let f = Contains (output_names last_stage) (logits_name (pcfg ps)) in
     bindRO (assertR (fst f) ''f.first'') (\<lambda>_.
       run_loop ps num_steps (int (length req_list0)) (snd f) rv1)))"

section \<open>tools/multi\_gpu\_pipeline.cc: loading\<close>

definition Validate :: "PipelineConfig \<Rightarrow> bool" where
  "Validate cfg = True"

text \<open>
  \<open>PipelineSession::Init\<close>: a session per stage, whose output and input names are
  appended to the stage's configuration. The environment answers a model file and a
  device with a session, or throws.
\<close>

fun Init_stages ::
  "(string \<Rightarrow> int \<Rightarrow> Session res) \<Rightarrow> ModelConfig list
     \<Rightarrow> (ModelConfig list \<times> SessionState list) res" where
  "Init_stages env [] = Ok ([], [])"
| "Init_stages env (mcfg # rest) =
     bindR (env (model_file_path mcfg) (device_id mcfg)) (\<lambda>sess.
     bindR (Init_stages env rest) (\<lambda>(cfgs, states).
       Ok (mcfg\<lparr>output_names := output_names mcfg @ sess_output_names sess,
                input_names := input_names mcfg @ sess_input_names sess\<rparr> # cfgs,
           \<lparr>session = sess,
            cuda_mem_info = MemoryInfo ''Cuda'' OrtDeviceAllocator (device_id mcfg)\<rparr> # states)))"

text \<open>\<open>PipelineSession(const PipelineConfig&, int, Ort::Env&)\<close>; the constructor from a
  file parses the file into the configuration and goes on in the same way.\<close>

definition PipelineSession_ctor ::
  "PipelineConfig \<Rightarrow> (string \<Rightarrow> int \<Rightarrow> Session res) \<Rightarrow> PipelineSession res" where
  "PipelineSession_ctor ens0 env =
     bindR (assertR (Validate ens0) ''rc'') (\<lambda>_.
     bindR (Init_stages env (model_config_vec ens0)) (\<lambda>(cfgs, states).
       Ok \<lparr>pcfg = ens0\<lparr>model_config_vec := cfgs\<rparr>, model_session_state_vec = states\<rparr>))"

subsection \<open>Example tensors\<close>

definition ex_alloc :: allocator where
  "ex_alloc = Allocator (MemoryInfo ''Cpu'' OrtArenaAllocator 0)"

definition ex_owner :: tensor where
  "ex_owner = \<lparr>p_data = Addr 7, shape = [2, 3], dtype = float_type, alloc_info = Info ex_alloc,
                byte_offset = 0, deleters = [BufferDeleter ex_alloc 1]\<rparr>"

definition ex_target :: tensor where
  "ex_target = \<lparr>p_data = Addr 5, shape = [4], dtype = float_type, alloc_info = Info ex_alloc,
                 byte_offset = 0, deleters = [UserDeleter 9]\<rparr>"

definition ex_tstate :: tstate where
  "ex_tstate = \<lparr>objs = [1 \<mapsto> ex_owner, 2 \<mapsto> ex_target], trace = [], brk = 8\<rparr>"

definition ex_huge :: tensor where
  "ex_huge = ex_owner\<lparr>shape := [2 ^ 62], deleters := []\<rparr>"

text \<open>
  A tensor built by the allocating constructor at address 1 and then moved: into a new
  tensor at address 3 by the move constructor, or into a view at address 2 by the move
  assignment. \<open>released\<close> is the record of the allocator calls of a run.
\<close>

definition ex_empty :: tstate where
  "ex_empty = \<lparr>objs = Map.empty, trace = [], brk = 8\<rparr>"

definition ex_moved :: "tstate res" where
  "ex_moved =
     bindR (Tensor_alloc 1 (Some (PrimType float_type)) [2, 3] ex_alloc ex_empty)
       (Tensor_move_ctor 3 1)"

definition ex_assigned :: "tstate res" where
  "ex_assigned =
     bindR (Tensor_alloc 1 (Some (PrimType float_type)) [2, 3] ex_alloc ex_empty) (\<lambda>st.
     bindR (Tensor_view 2 (Some (PrimType float_type)) [4] (Addr 5) (Info ex_alloc) 0 st)
       (Tensor_move_assign 2 1))"

definition released :: "tstate res \<Rightarrow> event list res" where
  "released r = bindR r (\<lambda>st. Ok (trace st))"

subsection \<open>An example pipeline\<close>

text \<open>
  One stage with the inputs \<open>input_ids\<close>, \<open>position_ids\<close> and the state input
  \<open>past_0\<close>, the outputs \<open>logits\<close> and the state output \<open>present_0\<close>; the
  stage hands \<open>logits\<close> on in its token. The caller asks for \<open>logits\<close> and gives
  a memory descriptor for it, as \<open>main\<close> does.
\<close>

definition ex_mcfg :: ModelConfig where
  "ex_mcfg = \<lparr>model_name = ''gpt'', model_file_path = ''gpt.onnx'',
     input_names = [], output_names = [],
     past_input_names = [''past_0''], present_output_names = [''present_0''],
     inter_stage_output_input_map = [(''logits'', ''logits'')],
     input_to_use_for_seq_len = ''input_ids'',
     seq_len_dim_index_in_input = 1, batch_dim_index_in_input = 0,
     batch_dim_index_in_state = 0, seq_len_dim_index_in_state = 1,
     seq_len_dim_in_inter_stage_output = 1, batch_dim_in_inter_stage_output = 0,
     device_id = 0\<rparr>"

definition ex_cfg :: PipelineConfig where
  "ex_cfg = \<lparr>input_ids_name = ''input_ids'', position_ids_name = ''position_ids'',
     logits_name = ''logits'', max_seq_len = 8, num_stages = 1,
     model_config_vec = [ex_mcfg]\<rparr>"

text \<open>
  A runtime for the example: a run returns each bound output value as it was bound, and
  for an output bound to a device it allocates a tensor of shape (1, 1, 3) holding the raw
  halves 1, 7, 7.
\<close>

fun ex_outputs :: "(string \<times> BoundOutput) list \<Rightarrow> World \<Rightarrow> Value list \<times> World" where
  "ex_outputs [] w = ([], w)"
| "ex_outputs ((n, ToValue v) # rest) w =
     (case ex_outputs rest w of (vs, w') \<Rightarrow> (v # vs, w'))"
| "ex_outputs ((n, ToDevice info) # rest) w =
     (case ex_outputs rest
             (w\<lparr>next_addr := Suc (next_addr w),
                half_mem := (half_mem w)(next_addr w \<mapsto> [1, 7, 7])\<rparr>) of
        (vs, w') \<Rightarrow>
          (Some \<lparr>mem_info = info, data_ptr = Addr (next_addr w), data_len = 6,
                 dims = [1, 1, 3], elem_type = ELEMENT_FLOAT16\<rparr> # vs, w'))"

definition ex_run :: "IoBinding \<Rightarrow> World \<Rightarrow> (Value list \<times> World) res" where
  "ex_run b w = Ok (ex_outputs (bound_outputs b) w)"

definition ex_session :: Session where
  "ex_session = \<lparr>sess_input_names = [''input_ids'', ''position_ids'', ''past_0''],
     sess_output_names = [''logits'', ''present_0''],
     sess_input_shapes = [[- 1, - 1], [- 1, - 1], [- 1, - 1, 2]],
     sess_output_shapes = [[- 1, 1, 3], [- 1, - 1, 2]],
     sess_output_types = [ELEMENT_FLOAT16, ELEMENT_FLOAT16],
     sess_run = ex_run\<rparr>"

definition ex_env :: "string \<Rightarrow> int \<Rightarrow> Session res" where
  "ex_env path dev = Ok ex_session"

definition ex_loaded :: ModelConfig where
  "ex_loaded = ex_mcfg\<lparr>output_names := [''logits'', ''present_0''],
                        input_names := [''input_ids'', ''position_ids'', ''past_0'']\<rparr>"

definition ex_ps :: PipelineSession where
  "ex_ps = \<lparr>pcfg = ex_cfg\<lparr>model_config_vec := [ex_loaded]\<rparr>,
     model_session_state_vec =
       [\<lparr>session = ex_session, cuda_mem_info = MemoryInfo ''Cuda'' OrtDeviceAllocator 0\<rparr>]\<rparr>"

definition ex_input :: "nat \<Rightarrow> Value" where
  "ex_input a = CreateTensor_int64 (CreateCpu OrtArenaAllocator) (Addr a) 1 [1, 1]"

definition ex_req :: OrtReq where
  "ex_req = \<lparr>req_input_names = [''input_ids'', ''position_ids''],
              req_input_values = [ex_input 100, ex_input 101]\<rparr>"

definition ex_resp :: OrtResp where
  "ex_resp = \<lparr>resp_output_names = [''logits''], resp_output_values = [None],
               resp_output_meminfo = [Some (CreateCpu OrtDeviceAllocator)]\<rparr>"

definition ex_world :: World where
  "ex_world = \<lparr>next_addr = 200, host_mem = [100 \<mapsto> [1], 101 \<mapsto> [1]], half_mem = Map.empty\<rparr>"

text \<open>The example with a stage whose state output \<open>present_0\<close> is also a key of its
  inter-stage map.\<close>

definition ex_collide_cfg :: PipelineConfig where
  "ex_collide_cfg = ex_cfg\<lparr>model_config_vec :=
     [ex_mcfg\<lparr>inter_stage_output_input_map :=
               [(''logits'', ''logits''), (''present_0'', ''past_0'')]\<rparr>]\<rparr>"

definition ex_collide_loaded :: ModelConfig where
  "ex_collide_loaded = ex_loaded\<lparr>inter_stage_output_input_map :=
                                   [(''logits'', ''logits''), (''present_0'', ''past_0'')]\<rparr>"

definition ex_collide_ps :: PipelineSession where
  "ex_collide_ps = ex_ps\<lparr>pcfg := ex_collide_cfg\<lparr>model_config_vec := [ex_collide_loaded]\<rparr>\<rparr>"

text \<open>A caller that asks for \<open>logits\<close> and for \<open>hidden\<close>, which no stage produces.\<close>

definition ex_resp2 :: OrtResp where
  "ex_resp2 = \<lparr>resp_output_names = [''logits'', ''hidden''], resp_output_values = [None, None],
                resp_output_meminfo = [Some (CreateCpu OrtDeviceAllocator),
                                       Some (CreateCpu OrtDeviceAllocator)]\<rparr>"

definition ex_vars :: RunVars where
  "ex_vars = \<lparr>req_frame_map = Map.empty, resp_queue = [], req_list = [ex_req],
               resp_list = [ex_resp], req_processed = 0, last_req_id = 0, world = ex_world\<rparr>"

text \<open>The frame of the example's request as admission builds it, before its first task.\<close>

definition ex_admitted_frame :: "PipelineSession \<Rightarrow> (RequestExecutionFrame \<times> World) res" where
  "ex_admitted_frame ps =
     bindR (RequestExecutionFrame_ctor ps 0 1 1 1 0 ex_world) (\<lambda>(fr, w).
       Ok (fr\<lparr>token := Token_Init 1 0 (req_input_names ex_req) (req_input_values ex_req)
                          (token fr)\<rparr>, w))"

subsection \<open>Observations\<close>

definition value_ptr :: "Value \<Rightarrow> ptr" where
  "value_ptr v = (case v of None \<Rightarrow> Null | Some t \<Rightarrow> data_ptr t)"

definition bound_input_ptr :: "RunState \<Rightarrow> string \<Rightarrow> ptr option" where
  "bound_input_ptr rs n = map_option value_ptr (map_of (bound_inputs (io_binding rs)) n)"

definition bound_output_ptr :: "RunState \<Rightarrow> string \<Rightarrow> ptr option" where
  "bound_output_ptr rs n =
     (case map_of (bound_outputs (io_binding rs)) n of
        Some (ToValue v) \<Rightarrow> Some (value_ptr v)
      | Some (ToDevice info) \<Rightarrow> None
      | None \<Rightarrow> None)"

text \<open>What \<open>Run\<close> returned, and the frame of a request when it returned.\<close>

definition returned_status :: "(OrtStatus option \<times> RunVars) res option \<Rightarrow> OrtStatus option option" where
  "returned_status r = (case r of Some (Ok (st, rv)) \<Rightarrow> Some st | _ \<Rightarrow> None)"

definition returned_vars :: "(OrtStatus option \<times> RunVars) res option \<Rightarrow> RunVars option" where
  "returned_vars r = (case r of Some (Ok (st, rv)) \<Rightarrow> Some rv | _ \<Rightarrow> None)"

definition returns_success :: "(OrtStatus option \<times> RunVars) res option \<Rightarrow> bool" where
  "returns_success r \<longleftrightarrow> returned_status r = Some None"

definition final_run_state ::
  "(OrtStatus option \<times> RunVars) res option \<Rightarrow> int \<Rightarrow> nat \<Rightarrow> (int \<times> RunState) option" where
  "final_run_state r rid stage =
     (case returned_vars r of
        None \<Rightarrow> None
      | Some rv \<Rightarrow>
          (case req_frame_map rv rid of
             None \<Rightarrow> None
           | Some ef \<Rightarrow>
               if stage < length (model_run_state_vec ef)
               then Some (step_id (token ef), model_run_state_vec ef ! stage) else None))"

text \<open>
  For the stage of a request when \<open>Run\<close> returned: the step of its last task, the
  pointers of its rotating buffers, and the pointers bound in that task for a state input
  and a state output.
\<close>

definition rotation_after ::
  "(OrtStatus option \<times> RunVars) res option \<Rightarrow> int \<Rightarrow> nat \<Rightarrow> string \<Rightarrow> string
     \<Rightarrow> (int \<times> ptr list \<times> ptr list \<times> ptr option \<times> ptr option) option" where
  "rotation_after r rid stage past present =
     (case final_run_state r rid stage of
        None \<Rightarrow> None
      | Some (step, rs) \<Rightarrow>
          Some (step, map ma_ptr (present_past_prealloc_buffer_1_vec rs),
                map ma_ptr (present_past_prealloc_buffer_2_vec rs),
                bound_input_ptr rs past, bound_output_ptr rs present))"

text \<open>The entry of \<open>output_val_map\<close> for a state output, and the value the last task
  bound for it, which is the tensor that run produced.\<close>

definition state_after ::
  "(OrtStatus option \<times> RunVars) res option \<Rightarrow> int \<Rightarrow> nat \<Rightarrow> string
     \<Rightarrow> (Value option \<times> BoundOutput option) option" where
  "state_after r rid stage present =
     (case final_run_state r rid stage of
        None \<Rightarrow> None
      | Some (step, rs) \<Rightarrow>
          Some (output_val_map rs present, map_of (bound_outputs (io_binding rs)) present))"

text \<open>What a host tensor of \<open>int64\<close> views: the vector buffer at its address, if that
  buffer is alive.\<close>

definition host_elems :: "World \<Rightarrow> Value \<Rightarrow> int list option" where
  "host_elems w v = (case value_ptr v of Null \<Rightarrow> None | Addr a \<Rightarrow> host_mem w a)"

text \<open>The token and the memory with which a request is handed to its next task.\<close>

definition resubmitted :: "advance_result res option \<Rightarrow> (Token \<times> World) option" where
  "resubmitted r =
     (case r of
        Some (Ok (Resubmit rid rv)) \<Rightarrow>
          (case req_frame_map rv rid of None \<Rightarrow> None | Some ef \<Rightarrow> Some (token ef, world rv))
      | _ \<Rightarrow> None)"

text \<open>The first iteration of the main loop of the example, run for two steps.\<close>

definition ex_first_iteration :: "advance_result res option" where
  "ex_first_iteration =
     (case admit_from ex_ps 0 1 ex_vars of
        Ok rv \<Rightarrow> advance ex_ps 2 0 (hd (resp_queue rv)) (rv\<lparr>resp_queue := tl (resp_queue rv)\<rparr>)
      | _ \<Rightarrow> None)"

definition returned :: "'a res \<Rightarrow> bool" where
  "returned r = (case r of Ok x \<Rightarrow> True | _ \<Rightarrow> False)"

definition the_Ok :: "'a res \<Rightarrow> 'a" where
  "the_Ok r = (case r of Ok x \<Rightarrow> x | _ \<Rightarrow> undefined)"

text \<open>The admitted frame of the example with the colliding name, and the binding and the
  run of its first task.\<close>

definition ex_collide_frame :: RequestExecutionFrame where
  "ex_collide_frame = fst (the_Ok (ex_admitted_frame ex_collide_ps))"

definition ex_collide_world :: World where
  "ex_collide_world = snd (the_Ok (ex_admitted_frame ex_collide_ps))"

definition ex_collide_first_run :: "(RunState \<times> Token \<times> Value list \<times> World) res" where
  "ex_collide_first_run =
     bind_and_run ex_collide_loaded (hd (model_session_state_vec ex_collide_ps)) ex_resp
       ex_collide_frame ex_collide_world"

text \<open>
  Every state output name of the stage has a tensor in \<open>output_val_map\<close>, and that
  tensor starts where buffer 1 does at the index of the name.
\<close>

definition state_views_buffer_1 :: "ModelConfig \<Rightarrow> RunState \<Rightarrow> bool" where
  "state_views_buffer_1 mcfg rs \<longleftrightarrow>
     list_all (\<lambda>oname.
         case output_val_map rs oname of
           None \<Rightarrow> False
         | Some v \<Rightarrow>
             (case vec_at (present_past_prealloc_buffer_1_vec rs)
                     (snd (Contains (present_output_names mcfg) oname)) of
                Ok m \<Rightarrow> value_ptr v = ma_ptr m
              | _ \<Rightarrow> False))
       (present_output_names mcfg)"

text \<open>The frame of the example as the constructor builds it, the frame as admitted, and
  its first task.\<close>

definition ex_new_frame :: "RequestExecutionFrame \<times> World" where
  "ex_new_frame = the_Ok (RequestExecutionFrame_ctor ex_ps 0 1 1 1 0 ex_world)"

definition ex_frame :: RequestExecutionFrame where
  "ex_frame = fst (the_Ok (ex_admitted_frame ex_ps))"

definition ex_frame_world :: World where
  "ex_frame_world = snd (the_Ok (ex_admitted_frame ex_ps))"

definition ex_first_task :: "(RequestExecutionFrame \<times> World) res" where
  "ex_first_task =
     ProcessRequest ex_loaded (hd (model_session_state_vec ex_ps)) ex_resp ex_frame ex_frame_world"

text \<open>
  For the final token of a request and the output names its caller asked for: the first
  name the token does not carry, the number of names before it, and the status \<open>Run\<close>
  returns for a missing name.
\<close>

definition missing_output :: "Token \<Rightarrow> string list \<Rightarrow> string option" where
  "missing_output tok names = find (\<lambda>n. \<not> fst (Contains (ort_value_names tok) n)) names"

definition moved_count :: "Token \<Rightarrow> string list \<Rightarrow> nat" where
  "moved_count tok names =
     length (takeWhile (\<lambda>n. fst (Contains (ort_value_names tok) n)) names)"

definition not_produced :: "string \<Rightarrow> OrtStatus" where
  "not_produced X = CreateStatus ORT_FAIL
     (''Error: Output '' @ X @ '' is not produced by the final stage'' @ [CHR 0x0A])"

text \<open>A request at the end of its only step, whose token carries \<open>logits\<close>, and a caller
  that asked for \<open>logits\<close> and \<open>hidden\<close>.\<close>

definition ex_logits :: Value where
  "ex_logits = Some \<lparr>mem_info = CreateCpu OrtDeviceAllocator, data_ptr = Addr 202, data_len = 6,
                     dims = [1, 1, 3], elem_type = ELEMENT_FLOAT16\<rparr>"

definition ex_final_frame :: RequestExecutionFrame where
  "ex_final_frame = \<lparr>req_index = 0, frame_req_id = 1, batch_size = 1, orig_input_seq_len = 1,
     stage_id = 0,
     token = \<lparr>req_id = 1, step_id = 0, ort_value_names = [''input_ids'', ''logits''],
              ort_values = [None, ex_logits], error_msg = []\<rparr>,
     model_run_state_vec = []\<rparr>"

definition ex_final_vars :: RunVars where
  "ex_final_vars = \<lparr>req_frame_map = [1 \<mapsto> ex_final_frame], resp_queue = [1], req_list = [],
     resp_list = [ex_resp2], req_processed = 0, last_req_id = 1, world = ex_world\<rparr>"







text \<open>No request is complete and no token has a negative step.\<close>

definition no_progress :: "RunVars \<Rightarrow> bool" where
  "no_progress rv \<longleftrightarrow> req_processed rv = 0 \<and>
     (\<forall>rid ef. req_frame_map rv rid = Some ef \<longrightarrow> 0 \<le> step_id (token ef))"

section \<open>Properties of tensor.cc\<close>

lemma bindR_Ok [simp]: "bindR (Ok x) f = f x"
  and bindR_Throw [simp]: "bindR (Throw s) f = Throw s"
  and bindR_AssertFail [simp]: "bindR (AssertFail s) f = AssertFail s"
  and bindR_Undefined [simp]: "bindR Undefined f = Undefined"
  by (simp_all add: bindR_def)

lemma bindR_eq_Ok: "bindR m f = Ok y \<longleftrightarrow> (\<exists>x. m = Ok x \<and> f x = Ok y)"
  by (cases m) simp_all

lemma SizeHelper_bound:
  "SizeHelper s ds = Ok n \<Longrightarrow> s < 2 ^ 63 \<Longrightarrow> n < 2 ^ 63"
proof (induction ds arbitrary: s)
  case Nil
  then show ?case by simp
next
  case (Cons d ds)
  show ?case
  proof (cases "d < 0")
    case True
    with Cons.prems show ?thesis by simp
  next
    case False
    with Cons.prems have "\<not> 2 ^ 63 \<le> s * d" "SizeHelper (s * d) ds = Ok n"
      by (simp_all split: if_splits)
    then show ?thesis using Cons.IH [of "s * d"] by simp
  qed
qed


lemma SizeHelper_nonneg:
  "SizeHelper s ds = Ok n \<Longrightarrow> 0 \<le> s \<Longrightarrow> 0 \<le> n \<Longrightarrow> n = s * prod_list ds"
proof (induction ds arbitrary: s)
  case Nil
  then show ?case by simp
next
  case (Cons d ds)
  show ?case
  proof (cases "d < 0")
    case True
    with Cons.prems show ?thesis by simp
  next
    case False
    with Cons.prems have "SizeHelper (s * d) ds = Ok n" "0 \<le> s * d"
      by (simp_all split: if_splits)
    then show ?thesis using Cons.IH [of "s * d"] Cons.prems(3) by (simp add: mult.assoc)
  qed
qed

lemma TensorShape_Size_count:
  "TensorShape_Size shp = Ok n \<Longrightarrow> 0 \<le> n \<Longrightarrow> n = prod_list shp \<and> n < 2 ^ 63"
  using SizeHelper_nonneg [of 1 shp n] SizeHelper_bound [of 1 shp n]
  by (simp add: TensorShape_Size_def)

lemma Init_shape_ok:
  "Init this t0 p_type shp p d off = Ok t \<Longrightarrow> \<exists>n. TensorShape_Size (shape t) = Ok n \<and> 0 \<le> n"
  by (auto simp: Init_def bindR_eq_Ok split: if_splits option.splits)


lemma SafeInt_size_t_of_Size:
  "TensorShape_Size shp = Ok n \<Longrightarrow> 0 \<le> n \<Longrightarrow> SafeInt_size_t n = Ok (nat n)"
proof -
  assume a: "TensorShape_Size shp = Ok n" "0 \<le> n"
  from TensorShape_Size_count [OF a] have "n < 2 ^ 63" by simp
  also have "(2::int) ^ 63 < 2 ^ 64" by simp
  finally have "\<not> 2 ^ 64 \<le> n" by simp
  with a(2) show ?thesis unfolding SafeInt_size_t_def by simp
qed

lemma SizeInBytes_eq:
  assumes "TensorShape_Size (shape t) = Ok n" "0 \<le> n"
  shows "SizeInBytes t =
           (if nat (prod_list (shape t)) * prim_size (dtype t) < 2 ^ 64
            then Ok (nat (prod_list (shape t)) * prim_size (dtype t))
            else Throw ''tensor size overflow'')"
proof -
  from TensorShape_Size_count [OF assms] have n: "prod_list (shape t) = n" by simp
  show ?thesis
    unfolding SizeInBytes_def CalcMemSizeForArray_def n
    by (simp add: assms(1) SafeInt_size_t_of_Size [OF assms])
qed


lemma Tensor_alloc_overflow:
  assumes "TensorShape_Size shp = Ok m" "0 < m" "2 ^ 64 \<le> nat m * ml_Size ty"
  shows "Tensor_alloc this (Some ty) shp a st = Throw ''tensor failed memory size calculation''"
proof -
  have "SafeInt_size_t m = Ok (nat m)"
    using SafeInt_size_t_of_Size [OF assms(1)] assms(2) by simp
  moreover have "CalcMemSizeForArray (nat m) (ml_Size ty) = None"
    using assms(3) by (simp add: CalcMemSizeForArray_def)
  ultimately show ?thesis
    using assms(1,2) by (simp add: Tensor_alloc_def)
qed

lemma Tensor_alloc_sized:
  assumes "TensorShape_Size shp = Ok m" "0 < m" "Tensor_alloc this (Some ty) shp a st = Ok st'"
  shows "nat (prod_list shp) * ml_Size ty < 2 ^ 64 \<and>
         (\<exists>evs. trace st' = trace st @ EvAlloc a (nat (prod_list shp) * ml_Size ty) (Addr (brk st)) # evs) \<and>
         (\<exists>t. objs st' this = Some t \<and> p_data t = Addr (brk st) \<and> shape t = shp)"
proof -
  from TensorShape_Size_count [of shp m] assms have m: "prod_list shp = m" by simp
  have s: "SafeInt_size_t m = Ok (nat m)"
    using SafeInt_size_t_of_Size [OF assms(1)] assms(2) by simp
  obtain len where len: "CalcMemSizeForArray (nat m) (ml_Size ty) = Some len"
    using assms by (cases "CalcMemSizeForArray (nat m) (ml_Size ty)") (simp_all add: Tensor_alloc_def s)
  then have l: "len = nat m * ml_Size ty" "nat m * ml_Size ty < 2 ^ 64"
    by (simp_all add: CalcMemSizeForArray_def split: if_splits)
  have "(\<exists>evs. trace st' = trace st @ EvAlloc a (nat m * ml_Size ty) (Addr (brk st)) # evs) \<and>
         (\<exists>t. objs st' this = Some t \<and> p_data t = Addr (brk st) \<and> shape t = shp)"
    using assms(3)
    by (auto simp: Tensor_alloc_def assms(1,2) s len l(1) Alloc_def Let_def
         construct_def Init_def bindR_eq_Ok split: if_splits option.splits)
  with l(2) show ?thesis unfolding m by blast
qed


lemma SizeHelper_result:
  "(\<exists>n. SizeHelper s ds = Ok n) \<or> (\<exists>e. SizeHelper s ds = Throw e)"
  by (induction ds arbitrary: s) auto

lemma SizeHelper_dims:
  "SizeHelper s ds = Ok n \<Longrightarrow> 0 \<le> n \<Longrightarrow> \<forall>d \<in> set ds. 0 \<le> d"
proof (induction ds arbitrary: s)
  case Nil
  then show ?case by simp
next
  case (Cons d ds)
  show ?case
  proof (cases "d < 0")
    case True
    with Cons.prems show ?thesis by simp
  next
    case False
    with Cons.prems have "SizeHelper (s * d) ds = Ok n" by (simp split: if_splits)
    from Cons.IH [OF this Cons.prems(2)] False show ?thesis by simp
  qed
qed

lemma SizeHelper_product:
  "SizeHelper s ds = Ok n \<Longrightarrow> \<forall>d \<in> set ds. 0 \<le> d \<Longrightarrow> n = s * prod_list ds"
proof (induction ds arbitrary: s)
  case Nil
  then show ?case by simp
next
  case (Cons d ds)
  from Cons.prems have "SizeHelper (s * d) ds = Ok n" "\<forall>d \<in> set ds. 0 \<le> d"
    by (simp_all split: if_splits)
  from Cons.IH [OF this] show ?case by (simp add: mult.assoc)
qed

lemma TensorShape_Size_overflow:
  assumes "\<forall>d \<in> set shp. 0 \<le> d" "2 ^ 63 \<le> prod_list shp"
  shows "\<exists>e. TensorShape_Size shp = Throw e"
proof -
  have "TensorShape_Size shp \<noteq> Ok n" for n
  proof
    assume a: "TensorShape_Size shp = Ok n"
    then have "n = prod_list shp"
      using SizeHelper_product [of 1 shp n] assms(1) by (simp add: TensorShape_Size_def)
    moreover from a have "n < 2 ^ 63"
      using SizeHelper_bound [of 1 shp n] by (simp add: TensorShape_Size_def)
    ultimately show False using assms(2) by simp
  qed
  then show ?thesis
    using SizeHelper_result [of 1 shp] by (auto simp: TensorShape_Size_def)
qed

lemma TensorShape_Size_dims:
  "TensorShape_Size shp = Ok n \<Longrightarrow> 0 \<le> n \<Longrightarrow> \<forall>d \<in> set shp. 0 \<le> d"
  unfolding TensorShape_Size_def by (rule SizeHelper_dims)

lemma prod_list_nonneg_int: "\<forall>d \<in> set (ds :: int list). 0 \<le> d \<Longrightarrow> 0 \<le> prod_list ds"
  by (induction ds) simp_all

lemma Tensor_alloc_throws:
  assumes "\<forall>d \<in> set shp. 0 \<le> d"
    and "2 ^ 63 \<le> prod_list shp \<or> 2 ^ 64 \<le> nat (prod_list shp) * ml_Size ty"
  shows "\<exists>e. Tensor_alloc this (Some ty) shp a st = Throw e"
proof (cases "2 ^ 63 \<le> prod_list shp")
  case True
  from TensorShape_Size_overflow [OF assms(1) True] show ?thesis
    by (auto simp: Tensor_alloc_def)
next
  case False
  with assms(2) have o: "2 ^ 64 \<le> nat (prod_list shp) * ml_Size ty" by simp
  from SizeHelper_result [of 1 shp] show ?thesis
  proof (elim disjE exE)
    fix n assume n: "SizeHelper 1 shp = Ok n"
    then have e: "n = prod_list shp"
      using SizeHelper_product [of 1 shp n] assms(1) by simp
    have "0 < n"
    proof (rule ccontr)
      assume "\<not> 0 < n"
      with prod_list_nonneg_int [OF assms(1)] e have "prod_list shp = 0" by simp
      with o show False by simp
    qed
    with Tensor_alloc_overflow [of shp n ty this a st] n o e show ?thesis
      by (simp add: TensorShape_Size_def)
  next
    fix e assume "SizeHelper 1 shp = Throw e"
    then show ?thesis by (simp add: Tensor_alloc_def TensorShape_Size_def)
  qed
qed

lemma Tensor_alloc_returns:
  assumes "Tensor_alloc this (Some ty) shp a st = Ok st'"
  shows "(\<forall>d \<in> set shp. 0 \<le> d) \<and> prod_list shp < 2 ^ 63 \<and>
         nat (prod_list shp) * ml_Size ty < 2 ^ 64 \<and>
         (\<exists>t. objs st' this = Some t \<and> shape t = shp \<and>
            (if 0 < prod_list shp
             then p_data t = Addr (brk st) \<and>
                  (\<exists>evs. trace st' = trace st @
                     EvAlloc a (nat (prod_list shp) * ml_Size ty) (Addr (brk st)) # evs)
             else p_data t = Null \<and> trace st' = trace st))"
proof -
  from assms obtain m where m: "TensorShape_Size shp = Ok m" "0 \<le> m"
    by (auto simp: Tensor_alloc_def bindR_eq_Ok split: if_splits)
  from TensorShape_Size_count [OF m] have c: "prod_list shp = m" "m < 2 ^ 63" by simp_all
  note d = TensorShape_Size_dims [OF m]
  show ?thesis
  proof (cases "0 < m")
    case True
    from Tensor_alloc_sized [OF m(1) True assms] d c True show ?thesis by auto
  next
    case False
    with m(2) have z: "m = 0" by simp
    from assms have "\<exists>t. objs st' this = Some t \<and> shape t = shp \<and> p_data t = Null \<and>
                       trace st' = trace st"
      by (auto simp: Tensor_alloc_def m(1) z construct_def Init_def bindR_eq_Ok Let_def
            split: if_splits option.splits)
    with d c z show ?thesis by auto
  qed
qed

lemma SizeInBytes_returns:
  assumes "SizeInBytes t = Ok r"
  shows "r = nat (prod_list (shape t)) * prim_size (dtype t) \<and> r < 2 ^ 64"
proof -
  from assms obtain n where n: "TensorShape_Size (shape t) = Ok n" "0 \<le> n"
    by (auto simp: SizeInBytes_def bindR_eq_Ok SafeInt_size_t_def split: if_splits)
  from SizeInBytes_eq [OF n] assms show ?thesis by (simp split: if_splits)
qed

lemma SizeInBytes_throws:
  assumes "\<forall>d \<in> set (shape t). 0 \<le> d"
    and "2 ^ 63 \<le> prod_list (shape t) \<or> 2 ^ 64 \<le> nat (prod_list (shape t)) * prim_size (dtype t)"
  shows "\<exists>e. SizeInBytes t = Throw e"
proof (cases "2 ^ 63 \<le> prod_list (shape t)")
  case True
  from TensorShape_Size_overflow [OF assms(1) True] show ?thesis
    by (auto simp: SizeInBytes_def)
next
  case False
  with assms(2) have o: "2 ^ 64 \<le> nat (prod_list (shape t)) * prim_size (dtype t)" by simp
  from SizeHelper_result [of 1 "shape t"] show ?thesis
  proof (elim disjE exE)
    fix n assume n: "SizeHelper 1 (shape t) = Ok n"
    then have e: "n = prod_list (shape t)"
      using SizeHelper_product [of 1 "shape t" n] assms(1) by simp
    with prod_list_nonneg_int [OF assms(1)] have "0 \<le> n" by simp
    from SizeInBytes_eq [of t n] n this o show ?thesis
      by (simp add: TensorShape_Size_def)
  next
    fix e assume "SizeHelper 1 (shape t) = Throw e"
    then show ?thesis by (simp add: SizeInBytes_def TensorShape_Size_def)
  qed
qed

declare ReleaseBuffer.simps [simp del]

lemma ReleaseBuffer_no_deleters:
  "objs st this = Some t \<Longrightarrow> deleters t = [] \<Longrightarrow> ReleaseBuffer this st = Ok st"
  by (subst ReleaseBuffer.simps) simp

lemma ReleaseBuffer_objs:
  "ReleaseBuffer this st = Ok st1 \<Longrightarrow> objs st this = Some t \<Longrightarrow>
     objs st1 = (objs st)(this \<mapsto> t\<lparr>deleters := []\<rparr>) \<and> brk st1 = brk st"
proof (induction this st arbitrary: t rule: ReleaseBuffer.induct)
  case (1 this st)
  show ?case
  proof (cases "deleters t")
    case Nil
    with "1.prems" have "st1 = st"
      by (subst (asm) ReleaseBuffer.simps) simp
    with Nil "1.prems"(2) show ?thesis by (auto simp: fun_eq_iff)
  next
    case (Cons d ds)
    from "1.prems" Cons obtain evs where
      evs: "run_deleter d (objs st) = Ok evs" and
      rec: "ReleaseBuffer this (st\<lparr>trace := trace st @ evs,
              objs := (objs st)(this \<mapsto> t\<lparr>deleters := ds\<rparr>)\<rparr>) = Ok st1"
      by (subst (asm) ReleaseBuffer.simps) (auto simp: bindR_eq_Ok)
    from "1.IH" [OF "1.prems"(2) Cons rec, of "t\<lparr>deleters := ds\<rparr>"]
    show ?thesis by (auto simp: fun_eq_iff)
  qed
qed

lemma moved_from_fields:
  "p_data (moved_from t) = Null" "shape (moved_from t) = [0]" "byte_offset (moved_from t) = 0"
  "deleters (moved_from t) = []" "alloc_info (moved_from t) = alloc_info t"
  by (simp_all add: moved_from_def)

lemma move_ctor_ok:
  assumes "objs st other = Some ot" "this \<notin> dom (objs st)"
  shows "\<exists>st'. Tensor_move_ctor this other st = Ok st' \<and> objs st' this = Some ot \<and>
           objs st' other = Some (moved_from ot) \<and> trace st' = trace st \<and>
           ReleaseBuffer other st' = Ok st'"
proof -
  from assms have ne: "this \<noteq> other" by auto
  let ?st = "st\<lparr>objs := (objs st)(this \<mapsto> ot, other \<mapsto> moved_from ot)\<rparr>"
  have "Tensor_move_ctor this other st = Ok ?st"
    using assms by (simp add: Tensor_move_ctor_def)
  moreover have "ReleaseBuffer other ?st = Ok ?st"
    by (rule ReleaseBuffer_no_deleters [where t = "moved_from ot"]) (simp_all add: moved_from_fields)
  ultimately show ?thesis using ne by simp
qed

lemma move_assign_ok:
  assumes "this \<noteq> other" "objs st other = Some ot" "ReleaseBuffer this st = Ok st1"
    "objs st this = Some tt"
  shows "\<exists>st'. Tensor_move_assign this other st = Ok st' \<and> objs st' this = Some ot \<and>
           objs st' other = Some (moved_from ot) \<and> trace st' = trace st1 \<and>
           ReleaseBuffer other st' = Ok st'"
proof -
  from ReleaseBuffer_objs [OF assms(3,4)] assms(1,2)
  have o: "objs st1 this = Some (tt\<lparr>deleters := []\<rparr>)" "objs st1 other = Some ot" by simp_all
  let ?st = "st1\<lparr>objs := (objs st1)(this \<mapsto> ot, other \<mapsto> moved_from ot)\<rparr>"
  have "Tensor_move_assign this other st = Ok ?st"
    using assms(1,3) o by (simp add: Tensor_move_assign_def)
  moreover have "ReleaseBuffer other ?st = Ok ?st"
    by (rule ReleaseBuffer_no_deleters [where t = "moved_from ot"]) (simp_all add: moved_from_fields)
  ultimately show ?thesis using assms(1) by simp
qed


text \<open>
  What the moves leave behind when the two objects are different: the moved-from tensor
  has a null data pointer, shape [0], byte offset zero and no deleter, the target holds
  the tensor's former fields with its deleters, and \<open>ReleaseBuffer\<close> on the moved-from
  tensor runs no deleter.
\<close>

lemma moved_from_is_empty:
  assumes "objs st other = Some ot"
  shows "(new \<notin> dom (objs st) \<longrightarrow>
            (\<exists>st'. Tensor_move_ctor new other st = Ok st' \<and> objs st' new = Some ot \<and>
                   objs st' other = Some (moved_from ot) \<and> trace st' = trace st \<and>
                   ReleaseBuffer other st' = Ok st')) \<and>
         (this \<noteq> other \<and> objs st this = Some tt \<and> ReleaseBuffer this st = Ok st1 \<longrightarrow>
            (\<exists>st'. Tensor_move_assign this other st = Ok st' \<and> objs st' this = Some ot \<and>
                   objs st' other = Some (moved_from ot) \<and> trace st' = trace st1 \<and>
                   ReleaseBuffer other st' = Ok st')) \<and>
         p_data (moved_from ot) = Null \<and> shape (moved_from ot) = [0] \<and>
         byte_offset (moved_from ot) = 0 \<and> deleters (moved_from ot) = []"
  using move_ctor_ok [OF assms, of new] move_assign_ok [OF _ assms, of this st1 tt]
  by (simp add: moved_from_fields)

text \<open>A self move assignment is skipped by the guard \<open>this != &other\<close>: the tensor
  keeps its pointer, its shape and its deleter.\<close>

lemma self_move_assign_is_skipped:
  "Tensor_move_assign 1 1 ex_tstate = Ok ex_tstate \<and> objs ex_tstate 1 = Some ex_owner \<and>
   p_data ex_owner \<noteq> Null \<and> shape ex_owner \<noteq> [0] \<and> deleters ex_owner \<noteq> []"
  by (simp add: Tensor_move_assign_def ex_tstate_def ex_owner_def)

text \<open>
  C9, on the code. The allocating constructor builds a tensor of shape (2, 3) at address 1;
  its buffer is at address 8 and its deleter is the closure of \<open>Init\<close>, which holds
  the address 1. The move constructor builds the tensor at address 3 from it: the
  moved-from tensor is empty, and the target holds the buffer and the closure, which still
  holds the address 1. When the moved-from tensor is destroyed and then the target, the
  target's deleter reads the destroyed object: the release of the buffer is undefined.
  When the target is destroyed while the moved-from tensor is alive, the deleter frees the
  null pointer it finds there and the buffer at address 8 is not released at all. The same
  happens after a move assignment into the tensor at address 2.
\<close>

theorem moved_tensor_release_reads_moved_from_object:
  "ex_moved =
     Ok \<lparr>objs = [3 \<mapsto> \<lparr>p_data = Addr 8, shape = [2, 3], dtype = float_type,
                         alloc_info = Info ex_alloc, byte_offset = 0,
                         deleters = [BufferDeleter ex_alloc 1]\<rparr>,
                  1 \<mapsto> \<lparr>p_data = Null, shape = [0], dtype = float_type,
                         alloc_info = Info ex_alloc, byte_offset = 0, deleters = []\<rparr>],
         trace = [EvAlloc ex_alloc 24 (Addr 8)], brk = 9\<rparr> \<and>
   bindR ex_moved (\<lambda>st. bindR (Tensor_dtor 1 st) (Tensor_dtor 3)) = Undefined \<and>
   released (bindR ex_moved (Tensor_dtor 3))
     = Ok [EvAlloc ex_alloc 24 (Addr 8), EvFree ex_alloc Null] \<and>
   bindR ex_assigned (\<lambda>st. bindR (Tensor_dtor 1 st) (Tensor_dtor 2)) = Undefined \<and>
   released (bindR ex_assigned (Tensor_dtor 2))
     = Ok [EvAlloc ex_alloc 24 (Addr 8), EvFree ex_alloc Null]"
  by (simp add: ex_moved_def ex_assigned_def released_def ex_empty_def Tensor_alloc_def
      Tensor_view_def Tensor_move_ctor_def Tensor_move_assign_def Tensor_dtor_def
      TensorShape_Size_def SafeInt_size_t_def CalcMemSizeForArray_def float_type_def Alloc_def
      construct_def Init_def blank_def moved_from_def run_deleter_def ReleaseBuffer.simps
      Let_def)

text \<open>
  C10. Whenever \<open>SizeInBytes\<close> returns, its value is the element count of the shape
  times the element size and fits \<open>size_t\<close>; it throws when the element count or that
  product overflows; and for a tensor that \<open>Init\<close> has built it throws exactly when
  the product does not fit \<open>size_t\<close>. The allocating constructor, for every shape its
  caller may pass, throws when the element count or the byte size overflows; when it
  returns, the element count and the byte size did not overflow, and it has asked the
  allocator for exactly the product (for no buffer at all when the count is zero).
\<close>

theorem byte_size_is_checked_product:
  "(SizeInBytes t = Ok r \<longrightarrow>
      r = nat (prod_list (shape t)) * prim_size (dtype t) \<and> r < 2 ^ 64) \<and>
   ((\<forall>d \<in> set (shape t). 0 \<le> d) \<and>
    (2 ^ 63 \<le> prod_list (shape t)
     \<or> 2 ^ 64 \<le> nat (prod_list (shape t)) * prim_size (dtype t)) \<longrightarrow>
      (\<exists>e. SizeInBytes t = Throw e)) \<and>
   (Init this0 t0 p_type shp0 p d off = Ok t \<longrightarrow>
      SizeInBytes t =
        (if nat (prod_list (shape t)) * prim_size (dtype t) < 2 ^ 64
         then Ok (nat (prod_list (shape t)) * prim_size (dtype t))
         else Throw ''tensor size overflow'')) \<and>
   ((\<forall>d \<in> set shp. 0 \<le> d) \<and>
    (2 ^ 63 \<le> prod_list shp \<or> 2 ^ 64 \<le> nat (prod_list shp) * ml_Size ty) \<longrightarrow>
      (\<exists>e. Tensor_alloc this (Some ty) shp a st = Throw e)) \<and>
   (Tensor_alloc this (Some ty) shp a st = Ok st' \<longrightarrow>
      (\<forall>d \<in> set shp. 0 \<le> d) \<and> prod_list shp < 2 ^ 63 \<and>
      nat (prod_list shp) * ml_Size ty < 2 ^ 64 \<and>
      (\<exists>t'. objs st' this = Some t' \<and> shape t' = shp \<and>
         (if 0 < prod_list shp
          then p_data t' = Addr (brk st) \<and>
               (\<exists>evs. trace st' = trace st @
                  EvAlloc a (nat (prod_list shp) * ml_Size ty) (Addr (brk st)) # evs)
          else p_data t' = Null \<and> trace st' = trace st)))"
proof -
  have i: "SizeInBytes t =
        (if nat (prod_list (shape t)) * prim_size (dtype t) < 2 ^ 64
         then Ok (nat (prod_list (shape t)) * prim_size (dtype t))
         else Throw ''tensor size overflow'')"
    if "Init this0 t0 p_type shp0 p d off = Ok t"
  proof -
    from Init_shape_ok [OF that] obtain n where "TensorShape_Size (shape t) = Ok n" "0 \<le> n"
      by blast
    then show ?thesis by (rule SizeInBytes_eq)
  qed
  show ?thesis
    using SizeInBytes_returns [of t r] SizeInBytes_throws [of t] i
      Tensor_alloc_throws [of shp ty this a st] Tensor_alloc_returns [of this ty shp a st st']
    by blast
qed

lemma ex_alloc_run:
  "Tensor_alloc 3 (Some (PrimType float_type)) [2, 3] ex_alloc ex_tstate =
     Ok (ex_tstate\<lparr>trace := [EvAlloc ex_alloc 24 (Addr 8)], brk := 9,
          objs := (objs ex_tstate)(3 \<mapsto> \<lparr>p_data = Addr 8, shape = [2, 3], dtype = float_type,
                    alloc_info = Info ex_alloc, byte_offset = 0,
                    deleters = [BufferDeleter ex_alloc 3]\<rparr>)\<rparr>)"
  by (simp add: Tensor_alloc_def TensorShape_Size_def SafeInt_size_t_def CalcMemSizeForArray_def
      float_type_def Alloc_def ex_tstate_def construct_def Init_def blank_def)

lemma ex_owner_built:
  "Init 1 (blank (Info ex_alloc) []) (Some (PrimType float_type)) [2, 3] (Addr 7)
     (Some ex_alloc) 0 = Ok ex_owner"
  by (simp add: Init_def TensorShape_Size_def blank_def ex_owner_def)

lemma ex_alloc_throws:
  "Tensor_alloc 3 (Some (PrimType float_type)) [2 ^ 62] ex_alloc ex_tstate
     = Throw ''tensor failed memory size calculation''"
  "Tensor_alloc 3 (Some (PrimType float_type)) [2 ^ 32, 2 ^ 32] ex_alloc ex_tstate
     = Throw ''Integer overflow''"
  by (simp_all add: Tensor_alloc_def TensorShape_Size_def SafeInt_size_t_def
        CalcMemSizeForArray_def float_type_def)

lemma ex_sizes:
  "SizeInBytes ex_owner = Ok 24" "SizeInBytes ex_huge = Throw ''tensor size overflow''"
  by (simp_all add: SizeInBytes_def TensorShape_Size_def SafeInt_size_t_def
        CalcMemSizeForArray_def float_type_def ex_owner_def ex_huge_def)

theorem byte_size_is_checked_product_witness:
  "Init 1 (blank (Info ex_alloc) []) (Some (PrimType float_type)) [2, 3] (Addr 7)
     (Some ex_alloc) 0 = Ok ex_owner \<and>
   SizeInBytes ex_owner = Ok 24 \<and>
   nat (prod_list (shape ex_owner)) * prim_size (dtype ex_owner) = 24 \<and>
   2 ^ 64 \<le> nat (prod_list (shape ex_huge)) * prim_size (dtype ex_huge) \<and>
   SizeInBytes ex_huge = Throw ''tensor size overflow'' \<and>
   2 ^ 64 \<le> nat (prod_list [2 ^ 62]) * ml_Size (PrimType float_type) \<and>
   Tensor_alloc 3 (Some (PrimType float_type)) [2 ^ 62] ex_alloc ex_tstate
     = Throw ''tensor failed memory size calculation'' \<and>
   (2::int) ^ 63 \<le> prod_list [2 ^ 32, 2 ^ 32] \<and>
   Tensor_alloc 3 (Some (PrimType float_type)) [2 ^ 32, 2 ^ 32] ex_alloc ex_tstate
     = Throw ''Integer overflow'' \<and>
   (\<exists>st'. Tensor_alloc 3 (Some (PrimType float_type)) [2, 3] ex_alloc ex_tstate = Ok st' \<and>
      (\<exists>evs. trace st' = trace ex_tstate @ EvAlloc ex_alloc 24 (Addr (brk ex_tstate)) # evs))"
proof -
  have c: "prod_list (shape ex_owner) = 6" "prod_list (shape ex_huge) = 2 ^ 62"
    "prim_size (dtype ex_owner) = 4" "prim_size (dtype ex_huge) = 4"
    "shape ex_owner = [2, 3]" "shape ex_huge = [2 ^ 62]"
    "trace ex_tstate = []" "brk ex_tstate = 8"
    by (simp_all add: ex_owner_def ex_huge_def float_type_def ex_tstate_def)
  note w1 = byte_size_is_checked_product [of ex_owner 24 1 "blank (Info ex_alloc) []"
      "Some (PrimType float_type)" "[2, 3]" "Addr 7" "Some ex_alloc" 0 "[2, 3]"
      "PrimType float_type" 3 ex_alloc ex_tstate
      "ex_tstate\<lparr>trace := [EvAlloc ex_alloc 24 (Addr 8)], brk := 9,
          objs := (objs ex_tstate)(3 \<mapsto> \<lparr>p_data = Addr 8, shape = [2, 3], dtype = float_type,
                    alloc_info = Info ex_alloc, byte_offset = 0,
                    deleters = [BufferDeleter ex_alloc 3]\<rparr>)\<rparr>"]
  note w2 = byte_size_is_checked_product [of ex_huge _ _ _ _ _ _ _ _ "[2 ^ 62]"
      "PrimType float_type" 3 ex_alloc ex_tstate]
  note w3 = byte_size_is_checked_product [of ex_huge _ _ _ _ _ _ _ _ "[2 ^ 32, 2 ^ 32]"
      "PrimType float_type" 3 ex_alloc ex_tstate]
  show ?thesis
    using w1 w2 w3 ex_owner_built ex_alloc_run ex_alloc_throws ex_sizes
    by (simp add: c float_type_def)
qed

section \<open>Evaluating the example pipeline\<close>

lemma bindR_cong_weak [cong]: "m = m' \<Longrightarrow> bindR m f = bindR m' f"
  by simp

lemma bindRO_simps [simp]:
  "bindRO (Ok x) g = g x" "bindRO (Throw e) g = Some (Throw e)"
  "bindRO (AssertFail e) g = Some (AssertFail e)" "bindRO Undefined g = Some Undefined"
  by (simp_all add: bindRO_def)

lemma bindRO_cong_weak [cong]: "m = m' \<Longrightarrow> bindRO m f = bindRO m' f"
  by simp

declare gather_row.simps [simp del] argmax_row.simps [simp del]

lemmas ex_defs = ex_mcfg_def ex_cfg_def ex_run_def ex_session_def ex_env_def ex_loaded_def
  ex_ps_def ex_input_def ex_req_def ex_resp_def ex_world_def ex_collide_cfg_def
  ex_collide_loaded_def ex_collide_ps_def ex_resp2_def ex_vars_def ex_admitted_frame_def
  ex_first_iteration_def ex_collide_first_run_def ex_logits_def ex_final_frame_def
  ex_final_vars_def ex_collide_frame_def ex_collide_world_def the_Ok_def

lemmas prim_defs = vec_at_def vec_set_def map_at_def emplace_def Contains_def int32_def
  in_int_def int_arith_def assertR_def CreateTensor_def CreateTensor_int64_def CreateCpu_def
  Value_GetShape_def BindInput_def BindOutput_def BindOutputToDevice_def ClearBoundInputs_def
  ClearBoundOutputs_def GetShape_def GetOutputElementType_def GetAllocation_def map_count_def
  Token_Clear_def Token_Init_def size_to_allocate_of_def empty_RunState_def empty_Token_def
  assert_has_data_def c_mod_def half_contents_def

lemmas run_defs = RequestExecutionFrame_ctor_def frame_stage_def bind_and_run_def
  ProcessRequest_def lambda_helper_def RunTask_def admit_def advance_def next_step_token_def
  Run_def GetNewInputIdsFromLogits_def run_loop.simps gather_rows.simps argmax_rows.simps
  gather_row.simps argmax_row.simps Let_def

lemmas obs_defs = value_ptr_def bound_input_ptr_def bound_output_ptr_def returned_status_def
  returned_vars_def returns_success_def final_run_state_def rotation_after_def state_after_def
  host_elems_def resubmitted_def

lemmas ex_frame_defs = ex_new_frame_def ex_frame_def ex_frame_world_def ex_first_task_def

lemma ex_loads: "PipelineSession_ctor ex_cfg ex_env = Ok ex_ps"
  by (simp add: PipelineSession_ctor_def Validate_def ex_defs prim_defs)

lemma ex_one_step_succeeds:
  "returned_status (Run ex_ps [ex_req] [ex_resp] 1 0 ex_world) = Some None"
  by (simp add: run_defs ex_defs prim_defs obs_defs)

text \<open>
  C1, on the code: the example's request has \<open>orig_input_seq_len = 1\<close>. When \<open>Run\<close>
  returns after one step, the tensor that the run of step 0 produced for \<open>present_0\<close>
  is the one bound to buffer 2 (address 201) with sequence length 1, and the entry of
  \<open>output_val_map\<close> for \<open>present_0\<close> is still the constructor's view of buffer 1
  (address 200) with sequence length 0: \<open>emplace\<close> does not replace an entry.
\<close>

theorem state_entry_not_replaced:
  "state_after (Run ex_ps [ex_req] [ex_resp] 1 0 ex_world) 1 0 ''present_0'' =
     Some (Some (Some \<lparr>mem_info = MemoryInfo ''Cuda'' OrtDeviceAllocator 0,
                       data_ptr = Addr 200, data_len = 32, dims = [1, 0, 2],
                       elem_type = ELEMENT_FLOAT16\<rparr>),
           Some (ToValue (Some \<lparr>mem_info = MemoryInfo ''Cuda'' OrtDeviceAllocator 0,
                                data_ptr = Addr 201, data_len = 32, dims = [1, 1, 2],
                                elem_type = ELEMENT_FLOAT16\<rparr>)))"
  by (simp add: run_defs ex_defs prim_defs obs_defs)

text \<open>
  C2, on the code: when \<open>Run\<close> returns after two steps, the last task of the request
  was step 1. Buffer 1 of state 0 is at address 200 and buffer 2 at 201. In step 1 the
  state input \<open>past_0\<close> was bound to address 200, which is buffer 1 although the step is
  odd, and the state output \<open>present_0\<close> was bound to address 200 as well: input and
  output of the step share a buffer.
\<close>

theorem odd_step_reads_and_writes_buffer_1:
  "rotation_after (Run ex_ps [ex_req] [ex_resp] 2 0 ex_world) 1 0 ''past_0'' ''present_0'' =
     Some (1, [Addr 200], [Addr 201], Some (Addr 200), Some (Addr 200))"
  by (simp add: run_defs ex_defs prim_defs obs_defs)

text \<open>
  C3, as stated, at step 0 of the example: the step is even, the state input is read from
  buffer 1 (address 200) and the state output is written to buffer 2 (address 201); the
  claim has it the other way round.
\<close>

theorem even_step_reads_buffer_1_counterexample:
  "rotation_after (Run ex_ps [ex_req] [ex_resp] 1 0 ex_world) 1 0 ''past_0'' ''present_0'' =
     Some (0, [Addr 200], [Addr 201], Some (Addr 200), Some (Addr 201))"
  by (simp add: run_defs ex_defs prim_defs obs_defs)

text \<open>
  C5, on the code: in the example run for two steps, the first iteration of the main loop
  hands the request to stage 0 with a token of two entries, \<open>input_ids\<close> and
  \<open>position_ids\<close>, both \<open>int64\<close> host tensors of shape (1, 1). The two tensors view
  the buffers of the block's local vectors (addresses 203 and 204), and when the token is
  handed on those vectors are gone: the memory has no buffer at either address, so the
  elements of the \<open>position_ids\<close> tensor are not defined.
\<close>

theorem resubmitted_token_views_freed_vectors:
  "map_option fst (resubmitted ex_first_iteration) =
     Some \<lparr>req_id = 1, step_id = 1, ort_value_names = [''input_ids'', ''position_ids''],
           ort_values =
             [Some \<lparr>mem_info = MemoryInfo ''Cpu'' OrtArenaAllocator 0, data_ptr = Addr 203,
                    data_len = 8, dims = [1, 1], elem_type = ELEMENT_INT64\<rparr>,
              Some \<lparr>mem_info = MemoryInfo ''Cpu'' OrtArenaAllocator 0, data_ptr = Addr 204,
                    data_len = 8, dims = [1, 1], elem_type = ELEMENT_INT64\<rparr>],
           error_msg = []\<rparr> \<and>
   map_option (\<lambda>(tok, w). map (host_elems w) (ort_values tok)) (resubmitted ex_first_iteration) =
     Some [None, None]"
  by (simp add: run_defs ex_defs prim_defs obs_defs)

section \<open>The name collision (C7)\<close>

lemma bindR_eq_Throw: "bindR m f = Throw e \<longleftrightarrow> m = Throw e \<or> (\<exists>x. m = Ok x \<and> f x = Throw e)"
  by (cases m) simp_all

lemma vec_at_not_Throw [simp]: "vec_at v i \<noteq> Throw e"
  by (simp add: vec_at_def)

lemma assertR_not_Throw [simp]: "assertR b s \<noteq> Throw e"
  by (simp add: assertR_def)

lemma assert_has_data_not_Throw [simp]: "assert_has_data v \<noteq> Throw e"
  by (simp add: assert_has_data_def split: option.splits)

lemma save_outputs_not_Throw: "save_outputs mcfg vals i names rs tok \<noteq> Throw e"
proof (induction names arbitrary: i rs tok)
  case Nil
  then show ?case by simp
next
  case (Cons oname names)
  show ?case
    by (auto simp: Let_def bindR_eq_Throw Cons.IH split: option.splits)
qed

lemma save_outputs_collision:
  "oname \<in> set names \<Longrightarrow> fst (Contains (present_output_names mcfg) oname) \<Longrightarrow>
   map_count (inter_stage_output_input_map mcfg) oname \<Longrightarrow>
   save_outputs mcfg vals i names rs tok \<noteq> Ok r"
proof (induction names arbitrary: i rs tok)
  case Nil
  then show ?case by simp
next
  case (Cons x names)
  show ?case
  proof (cases "x = oname")
    case True
    with Cons.prems show ?thesis by (simp add: assertR_def)
  next
    case False
    with Cons.prems have "oname \<in> set names" by simp
    note ih = Cons.IH [OF this Cons.prems(2,3)]
    show ?thesis
      by (auto simp: Let_def bindR_eq_Ok ih split: option.splits)
  qed
qed

text \<open>
  C7, amended. \<open>Validate\<close> accepts every configuration, so loading succeeds whenever
  the stages' sessions open, whether or not an output name of a stage is both one of its
  \<open>present_output_names\<close> and a key of its \<open>inter_stage_output_input_map\<close>. For
  such a stage the worker never returns normally: once it has bound and run the stage, it
  stops in the loop after the run, at an assertion (the one on the colliding name, or an
  earlier one of that loop) or on an output value that is not there.
\<close>

theorem collision_stops_worker_after_run:
  assumes "Init_stages env (model_config_vec cfg) = Ok (cfgs, states)" and "mcfg \<in> set cfgs"
    and "oname \<in> set (output_names mcfg)"
    and "fst (Contains (present_output_names mcfg) oname)"
    and "map_count (inter_stage_output_input_map mcfg) oname"
  shows "Validate cfg \<and>
         PipelineSession_ctor cfg env =
           Ok \<lparr>pcfg = cfg\<lparr>model_config_vec := cfgs\<rparr>, model_session_state_vec = states\<rparr> \<and>
         (bind_and_run mcfg ss resp ef w = Ok out \<longrightarrow>
            (\<exists>e. ProcessRequest mcfg ss resp ef w = AssertFail e)
            \<or> ProcessRequest mcfg ss resp ef w = Undefined)"
proof -
  have v: "Validate cfg" by (simp add: Validate_def)
  have l: "PipelineSession_ctor cfg env =
              Ok \<lparr>pcfg = cfg\<lparr>model_config_vec := cfgs\<rparr>, model_session_state_vec = states\<rparr>"
    using assms(1) by (simp add: PipelineSession_ctor_def Validate_def assertR_def)
  have p: "(\<exists>e. ProcessRequest mcfg ss resp ef w = AssertFail e)
            \<or> ProcessRequest mcfg ss resp ef w = Undefined"
    if ran: "bind_and_run mcfg ss resp ef w = Ok out"
  proof -
    obtain rs tok1 vals w1 where r: "out = (rs, tok1, vals, w1)" by (cases out) auto
    let ?s = "save_outputs mcfg vals 0 (output_names mcfg) rs tok1"
    have "?s \<noteq> Ok r" for r
      by (rule save_outputs_collision [OF assms(3,4,5)])
    moreover have "?s \<noteq> Throw e" for e
      by (rule save_outputs_not_Throw)
    ultimately have "(\<exists>e. ?s = AssertFail e) \<or> ?s = Undefined"
      by (cases ?s) auto
    then show ?thesis
      by (auto simp: ProcessRequest_def ran r)
  qed
  from v l p show ?thesis by blast
qed

text \<open>The amended C7 on the example whose state output \<open>present_0\<close> is a key of the
  inter-stage map.\<close>

theorem collision_stops_worker_after_run_witness:
  "Init_stages ex_env (model_config_vec ex_collide_cfg)
     = Ok ([ex_collide_loaded], model_session_state_vec ex_collide_ps) \<and>
   ''present_0'' \<in> set (output_names ex_collide_loaded) \<and>
   fst (Contains (present_output_names ex_collide_loaded) ''present_0'') \<and>
   map_count (inter_stage_output_input_map ex_collide_loaded) ''present_0'' \<and>
   Validate ex_collide_cfg \<and> PipelineSession_ctor ex_collide_cfg ex_env = Ok ex_collide_ps \<and>
   returned ex_collide_first_run \<and>
   ProcessRequest ex_collide_loaded (hd (model_session_state_vec ex_collide_ps)) ex_resp
     ex_collide_frame ex_collide_world
     = AssertFail ''!(is_loop_back_state_output.first && inter_stage_output_input_map.count(oname))''"
proof -
  have i: "Init_stages ex_env (model_config_vec ex_collide_cfg)
     = Ok ([ex_collide_loaded], model_session_state_vec ex_collide_ps)"
    by (simp add: ex_defs)
  have h: "ex_collide_loaded \<in> set [ex_collide_loaded]"
    "''present_0'' \<in> set (output_names ex_collide_loaded)"
    "fst (Contains (present_output_names ex_collide_loaded) ''present_0'')"
    "map_count (inter_stage_output_input_map ex_collide_loaded) ''present_0''"
    by (simp_all add: ex_defs Contains_def map_count_def)
  have ps: "\<lparr>pcfg = ex_collide_cfg\<lparr>model_config_vec := [ex_collide_loaded]\<rparr>,
             model_session_state_vec = model_session_state_vec ex_collide_ps\<rparr> = ex_collide_ps"
    by (simp add: ex_defs)
  have b: "bind_and_run ex_collide_loaded (hd (model_session_state_vec ex_collide_ps)) ex_resp
      ex_collide_frame ex_collide_world = Ok (the_Ok ex_collide_first_run)"
    by (simp add: run_defs ex_defs prim_defs)
  have p: "ProcessRequest ex_collide_loaded (hd (model_session_state_vec ex_collide_ps)) ex_resp
      ex_collide_frame ex_collide_world
      = AssertFail ''!(is_loop_back_state_output.first && inter_stage_output_input_map.count(oname))''"
    by (simp add: run_defs ex_defs prim_defs)
  have r: "returned ex_collide_first_run"
    by (simp add: returned_def run_defs ex_defs prim_defs)
  from collision_stops_worker_after_run [OF i h, of "hd (model_session_state_vec ex_collide_ps)"
      ex_resp ex_collide_frame ex_collide_world "the_Ok ex_collide_first_run"]
  show ?thesis using i h ps b p r by simp
qed

text \<open>
  C7, as stated, on that example: \<open>Validate\<close> holds and the session is constructed,
  the frame of the request is built at admission, the first task binds and runs the stage,
  and only then \<open>Run\<close> stops, at the worker's assertion: not a failure at load or at
  admission, and not before a stage task ran.
\<close>

theorem collision_not_detected_before_run_counterexample:
  "Validate ex_collide_cfg \<and> PipelineSession_ctor ex_collide_cfg ex_env = Ok ex_collide_ps \<and>
   returned (ex_admitted_frame ex_collide_ps) \<and> returned ex_collide_first_run \<and>
   Run ex_collide_ps [ex_req] [ex_resp] 1 0 ex_world =
     Some (AssertFail
       ''!(is_loop_back_state_output.first && inter_stage_output_input_map.count(oname))'')"
  by (simp add: PipelineSession_ctor_def Validate_def returned_def run_defs ex_defs prim_defs)

section \<open>The final outputs (C8)\<close>

lemma Contains_from_found:
  "fst (Contains_from i xs t) \<Longrightarrow>
     i \<le> snd (Contains_from i xs t) \<and> snd (Contains_from i xs t) < i + int (length xs) \<and>
     xs ! nat (snd (Contains_from i xs t) - i) = t"
proof (induction xs arbitrary: i)
  case Nil
  then show ?case by simp
next
  case (Cons x xs)
  show ?case
  proof (cases "x = t")
    case True
    then show ?thesis by simp
  next
    case False
    with Cons.prems have f: "fst (Contains_from (i + 1) xs t)" by simp
    from Cons.IH [OF f] have ih: "i + 1 \<le> snd (Contains_from (i + 1) xs t)"
      "snd (Contains_from (i + 1) xs t) < i + 1 + int (length xs)"
      "xs ! nat (snd (Contains_from (i + 1) xs t) - (i + 1)) = t" by simp_all
    from ih(1) have "nat (snd (Contains_from (i + 1) xs t) - i) =
        Suc (nat (snd (Contains_from (i + 1) xs t) - (i + 1)))" by simp
    with ih False show ?thesis by simp
  qed
qed

lemma Contains_found:
  "fst (Contains xs t) \<Longrightarrow>
     0 \<le> snd (Contains xs t) \<and> snd (Contains xs t) < int (length xs) \<and>
     xs ! nat (snd (Contains xs t)) = t"
  using Contains_from_found [of 0 xs t] by (simp add: Contains_def)

lemma Contains_from_fst: "fst (Contains_from i xs t) \<longleftrightarrow> t \<in> set xs"
  by (induction xs arbitrary: i) auto

lemma Contains_fst: "fst (Contains xs t) \<longleftrightarrow> t \<in> set xs"
  by (simp add: Contains_def Contains_from_fst)

lemma move_outputs_spec:
  assumes "distinct names" "0 \<le> i" "nat i + length names \<le> length (resp_output_values resp)"
    "length (ort_values tok) = length (ort_value_names tok)"
    "\<forall>n\<in>set names. \<forall>k. nat k < length (ort_values tok0) \<longrightarrow> ort_value_names tok0 ! nat k = n \<longrightarrow> 0 \<le> k \<longrightarrow> ort_values tok ! nat k = ort_values tok0 ! nat k"
    "ort_value_names tok = ort_value_names tok0" "length (ort_values tok0) = length (ort_values tok)"
  shows "\<exists>tok' resp'. move_outputs names i tok resp =
            Ok (map_option not_produced (missing_output tok0 names), tok', resp') \<and>
          resp_output_names resp' = resp_output_names resp \<and>
          resp_output_meminfo resp' = resp_output_meminfo resp \<and>
          length (resp_output_values resp') = length (resp_output_values resp) \<and>
          (\<forall>j < moved_count tok0 names. resp_output_values resp' ! (nat i + j) =
              ort_values tok0 ! nat (snd (Contains (ort_value_names tok0) (names ! j)))) \<and>
          (\<forall>p. p < nat i \<or> nat i + moved_count tok0 names \<le> p \<longrightarrow>
              resp_output_values resp' ! p = resp_output_values resp ! p)"
  using assms
proof (induction names arbitrary: i tok resp)
  case Nil
  then show ?case by (simp add: missing_output_def moved_count_def)
next
  case (Cons n names)
  let ?ex = "Contains (ort_value_names tok0) n"
  show ?case
  proof (cases "fst ?ex")
    case False
    then show ?thesis
      using Cons.prems(6) by (simp add: missing_output_def moved_count_def not_produced_def)
  next
    case True
    from Contains_found [OF True] have k: "0 \<le> snd ?ex" "snd ?ex < int (length (ort_value_names tok0))"
      "ort_value_names tok0 ! nat (snd ?ex) = n" by simp_all
    let ?k = "snd ?ex"
    have kl: "nat ?k < length (ort_values tok)" using k Cons.prems(4,6) by simp
    let ?v = "ort_values tok ! nat ?k"
    have v0: "?v = ort_values tok0 ! nat ?k"
      using Cons.prems(5) k kl Cons.prems(7) by simp
    let ?tok = "tok\<lparr>ort_values := (ort_values tok)[nat ?k := None]\<rparr>"
    let ?resp = "resp\<lparr>resp_output_values := (resp_output_values resp)[nat i := ?v]\<rparr>"
    have il: "nat i < length (resp_output_values resp)" using Cons.prems(3) by simp
    have ki: "?k < int (length (ort_values tok))" using k Cons.prems(4,6) by simp
    have ii: "i < int (length (resp_output_values resp))" using il Cons.prems(2) by simp
    have step: "move_outputs (n # names) i tok resp = move_outputs names (i + 1) ?tok ?resp"
      using True k(1) ki ii Cons.prems(2,6) by (simp add: vec_at_def vec_set_def Let_def)
    have pres: "\<forall>m\<in>set names. \<forall>k'. nat k' < length (ort_values tok0) \<longrightarrow>
        ort_value_names tok0 ! nat k' = m \<longrightarrow> 0 \<le> k' \<longrightarrow>
        ort_values ?tok ! nat k' = ort_values tok0 ! nat k'"
    proof (intro ballI allI impI)
      fix m k' assume m: "m \<in> set names" and a: "nat k' < length (ort_values tok0)"
        "ort_value_names tok0 ! nat k' = m" "0 \<le> k'"
      from m Cons.prems(1) have "m \<noteq> n" by auto
      with a k have "nat k' \<noteq> nat ?k" by auto
      then have "ort_values ?tok ! nat k' = ort_values tok ! nat k'" by simp
      also have "\<dots> = ort_values tok0 ! nat k'" using Cons.prems(5) m a by simp
      finally show "ort_values ?tok ! nat k' = ort_values tok0 ! nat k'" .
    qed
    have "\<exists>tok' resp'. move_outputs names (i + 1) ?tok ?resp =
            Ok (map_option not_produced (missing_output tok0 names), tok', resp') \<and>
          resp_output_names resp' = resp_output_names ?resp \<and>
          resp_output_meminfo resp' = resp_output_meminfo ?resp \<and>
          length (resp_output_values resp') = length (resp_output_values ?resp) \<and>
          (\<forall>j < moved_count tok0 names. resp_output_values resp' ! (nat (i + 1) + j) =
              ort_values tok0 ! nat (snd (Contains (ort_value_names tok0) (names ! j)))) \<and>
          (\<forall>p. p < nat (i + 1) \<or> nat (i + 1) + moved_count tok0 names \<le> p \<longrightarrow>
              resp_output_values resp' ! p = resp_output_values ?resp ! p)"
      apply (rule Cons.IH)
      using Cons.prems pres by simp_all
    then obtain tok' resp' where r:
      "move_outputs names (i + 1) ?tok ?resp =
            Ok (map_option not_produced (missing_output tok0 names), tok', resp')"
      "resp_output_names resp' = resp_output_names resp"
      "resp_output_meminfo resp' = resp_output_meminfo resp"
      "length (resp_output_values resp') = length (resp_output_values resp)"
      "\<forall>j < moved_count tok0 names. resp_output_values resp' ! (nat (i + 1) + j) =
              ort_values tok0 ! nat (snd (Contains (ort_value_names tok0) (names ! j)))"
      "\<forall>p. p < nat (i + 1) \<or> nat (i + 1) + moved_count tok0 names \<le> p \<longrightarrow>
              resp_output_values resp' ! p = resp_output_values ?resp ! p"
      by auto
    have mo: "missing_output tok0 (n # names) = missing_output tok0 names"
      using True by (simp add: missing_output_def)
    have mc: "moved_count tok0 (n # names) = Suc (moved_count tok0 names)"
      using True by (simp add: moved_count_def)
    have ni: "nat (i + 1) = Suc (nat i)" using Cons.prems(2) by simp
    have at_i: "resp_output_values resp' ! nat i = ort_values tok0 ! nat ?k"
      using r(6) il v0 by (simp add: ni)
    have moved: "\<forall>j < moved_count tok0 (n # names). resp_output_values resp' ! (nat i + j) =
              ort_values tok0 ! nat (snd (Contains (ort_value_names tok0) ((n # names) ! j)))"
    proof (intro allI impI)
      fix j assume j: "j < moved_count tok0 (n # names)"
      show "resp_output_values resp' ! (nat i + j) =
              ort_values tok0 ! nat (snd (Contains (ort_value_names tok0) ((n # names) ! j)))"
      proof (cases j)
        case 0
        then show ?thesis using at_i by simp
      next
        case (Suc j')
        with j mc have "j' < moved_count tok0 names" by simp
        with r(5) have "resp_output_values resp' ! (nat (i + 1) + j') =
              ort_values tok0 ! nat (snd (Contains (ort_value_names tok0) (names ! j')))" by blast
        then show ?thesis using Suc by (simp add: ni)
      qed
    qed
    have rest: "\<forall>p. p < nat i \<or> nat i + moved_count tok0 (n # names) \<le> p \<longrightarrow>
              resp_output_values resp' ! p = resp_output_values resp ! p"
    proof (intro allI impI)
      fix p assume p: "p < nat i \<or> nat i + moved_count tok0 (n # names) \<le> p"
      then have q: "p < nat (i + 1) \<or> nat (i + 1) + moved_count tok0 names \<le> p" "p \<noteq> nat i"
        using mc ni by auto
      from r(6) q(1) have "resp_output_values resp' ! p = resp_output_values ?resp ! p" by blast
      also have "\<dots> = resp_output_values resp ! p" using q(2) by simp
      finally show "resp_output_values resp' ! p = resp_output_values resp ! p" .
    qed
    show ?thesis
      using step r(1-4) mo moved rest by auto
  qed
qed

text \<open>
  C8, amended. When the token at the head of the queue ends the last step of its request
  (\<open>step_id + 1 = num_steps\<close>, the stage wraps to 0), the caller's output names are
  taken in order. The names before the first one that the token does not carry have their
  values moved into the slots of the same positions; the other slots of that response, and
  every other response, stay as they are. If a name \<open>X\<close> is missing, \<open>Run\<close> returns
  at once with the status "Error: Output X is not produced by the final stage" and a line
  feed, the slots before \<open>X\<close> already filled; otherwise the request is counted as
  processed and the loop goes on. (The names are distinct and the parallel vectors have
  equal lengths.)
\<close>

theorem final_outputs_moved_in_order:
  assumes "resp_queue rv = rid # q" and "req_processed rv < num_reqs"
    and "req_frame_map rv rid = Some ef" and "error_msg (token ef) = []"
    and "c_mod (stage_id ef + 1) (num_stages (pcfg ps)) = Ok 0"
    and "step_id (token ef) + 1 = num_steps" and "in_int num_steps"
    and "vec_at (resp_list rv) (req_index ef) = Ok resp"
    and "distinct (resp_output_names resp)"
    and "length (resp_output_values resp) = length (resp_output_names resp)"
    and "length (ort_values (token ef)) = length (ort_value_names (token ef))"
  shows "\<exists>rv1 resp'.
           resp_list rv1 = (resp_list rv)[nat (req_index ef) := resp'] \<and>
           resp_output_names resp' = resp_output_names resp \<and>
           length (resp_output_values resp') = length (resp_output_values resp) \<and>
           (\<forall>j < moved_count (token ef) (resp_output_names resp).
              resp_output_values resp' ! j =
                ort_values (token ef)
                  ! nat (snd (Contains (ort_value_names (token ef)) (resp_output_names resp ! j)))) \<and>
           (\<forall>p. moved_count (token ef) (resp_output_names resp) \<le> p \<longrightarrow>
              resp_output_values resp' ! p = resp_output_values resp ! p) \<and>
           (case missing_output (token ef) (resp_output_names resp) of
              Some X \<Rightarrow>
                run_loop ps num_steps num_reqs logits_idx rv = Some (Ok (Some (not_produced X), rv1))
            | None \<Rightarrow>
                req_processed rv1 = req_processed rv + 1 \<and>
                run_loop ps num_steps num_reqs logits_idx rv
                  = run_loop ps num_steps num_reqs logits_idx rv1)"
proof -
  let ?tok = "token ef" and ?names = "resp_output_names resp"
  from move_outputs_spec [of ?names 0 resp ?tok ?tok] assms(9,10,11)
  obtain tok' resp' where m:
    "move_outputs ?names 0 ?tok resp = Ok (map_option not_produced (missing_output ?tok ?names), tok', resp')"
    "resp_output_names resp' = resp_output_names resp"
    "length (resp_output_values resp') = length (resp_output_values resp)"
    "\<forall>j < moved_count ?tok ?names. resp_output_values resp' ! (nat 0 + j) =
        ort_values ?tok ! nat (snd (Contains (ort_value_names ?tok) (?names ! j)))"
    "\<forall>p. p < nat 0 \<or> nat 0 + moved_count ?tok ?names \<le> p \<longrightarrow>
        resp_output_values resp' ! p = resp_output_values resp ! p"
    by auto
  from assms(8) have idx: "0 \<le> req_index ef" "req_index ef < int (length (resp_list rv))"
    by (simp_all add: vec_at_def split: if_splits)
  let ?rv0 = "rv\<lparr>resp_queue := q\<rparr>"
  let ?rv1 = "?rv0\<lparr>resp_list := (resp_list rv)[nat (req_index ef) := resp'],
                   req_frame_map := (req_frame_map rv)(rid \<mapsto> ef\<lparr>stage_id := 0, token := tok'\<rparr>)\<rparr>"
  have adv: "advance ps num_steps logits_idx rid ?rv0 =
      (case missing_output ?tok ?names of
         Some X \<Rightarrow> Some (Ok (Done (Some (not_produced X)) ?rv1))
       | None \<Rightarrow> Some (Ok (Completed (?rv1\<lparr>req_processed := req_processed rv + 1\<rparr>))))"
    using assms(3,4,5,6,7,8) m(1) idx
    by (simp add: advance_def map_at_def int_arith_def Let_def vec_set_def split: option.splits)
  show ?thesis
  proof (cases "missing_output ?tok ?names")
    case None
    have "run_loop ps num_steps num_reqs logits_idx rv
            = run_loop ps num_steps num_reqs logits_idx (?rv1\<lparr>req_processed := req_processed rv + 1\<rparr>)"
      by (subst run_loop.simps) (simp add: assms(1,2) adv None)
    then show ?thesis
      using m(2,3,4,5) None
      by (intro exI [of _ "?rv1\<lparr>req_processed := req_processed rv + 1\<rparr>"] exI [of _ resp']) simp
  next
    case (Some X)
    have "run_loop ps num_steps num_reqs logits_idx rv = Some (Ok (Some (not_produced X), ?rv1))"
      by (subst run_loop.simps) (simp add: assms(1,2) adv Some)
    then show ?thesis
      using m(2,3,4,5) Some
      by (intro exI [of _ ?rv1] exI [of _ resp']) simp
  qed
qed

theorem final_outputs_moved_in_order_witness:
  "\<exists>rv1 resp'. resp_list rv1 = [resp'] \<and>
     resp_output_names resp' = [''logits'', ''hidden''] \<and>
     resp_output_values resp' ! 0 = ex_logits \<and> resp_output_values resp' ! 1 = None \<and>
     run_loop ex_ps 1 1 0 ex_final_vars = Some (Ok (Some (not_produced ''hidden''), rv1))"
proof -
  have h: "resp_queue ex_final_vars = [1]" "req_processed ex_final_vars < 1"
    "req_frame_map ex_final_vars 1 = Some ex_final_frame" "error_msg (token ex_final_frame) = []"
    "c_mod (stage_id ex_final_frame + 1) (num_stages (pcfg ex_ps)) = Ok 0"
    "step_id (token ex_final_frame) + 1 = 1" "in_int 1"
    "vec_at (resp_list ex_final_vars) (req_index ex_final_frame) = Ok ex_resp2"
    "distinct (resp_output_names ex_resp2)"
    "length (resp_output_values ex_resp2) = length (resp_output_names ex_resp2)"
    "length (ort_values (token ex_final_frame)) = length (ort_value_names (token ex_final_frame))"
    by (simp_all add: ex_final_vars_def ex_final_frame_def ex_resp2_def ex_ps_def ex_cfg_def
        c_mod_def in_int_def vec_at_def)
  have m: "moved_count (token ex_final_frame) (resp_output_names ex_resp2) = 1"
    "missing_output (token ex_final_frame) (resp_output_names ex_resp2) = Some ''hidden''"
    "snd (Contains (ort_value_names (token ex_final_frame)) (resp_output_names ex_resp2 ! 0)) = 1"
    "ort_values (token ex_final_frame) ! 1 = ex_logits"
    "resp_output_values ex_resp2 ! 1 = None" "resp_output_names ex_resp2 = [''logits'', ''hidden'']"
    "resp_list ex_final_vars = [ex_resp2]" "req_index ex_final_frame = 0"
    by (simp_all add: moved_count_def missing_output_def ex_final_frame_def ex_resp2_def
        Contains_def ex_final_vars_def)
  from final_outputs_moved_in_order [OF h, of 0]
  obtain rv1 resp' where r:
    "resp_list rv1 = (resp_list ex_final_vars)[nat (req_index ex_final_frame) := resp']"
    "resp_output_names resp' = resp_output_names ex_resp2"
    "\<forall>j < moved_count (token ex_final_frame) (resp_output_names ex_resp2).
        resp_output_values resp' ! j = ort_values (token ex_final_frame)
          ! nat (snd (Contains (ort_value_names (token ex_final_frame))
                   (resp_output_names ex_resp2 ! j)))"
    "\<forall>p. moved_count (token ex_final_frame) (resp_output_names ex_resp2) \<le> p \<longrightarrow>
        resp_output_values resp' ! p = resp_output_values ex_resp2 ! p"
    "case missing_output (token ex_final_frame) (resp_output_names ex_resp2) of
       Some X \<Rightarrow> run_loop ex_ps 1 1 0 ex_final_vars = Some (Ok (Some (not_produced X), rv1))
     | None \<Rightarrow> req_processed rv1 = req_processed ex_final_vars + 1 \<and>
         run_loop ex_ps 1 1 0 ex_final_vars = run_loop ex_ps 1 1 0 rv1"
    by blast
  from r(1) have a: "resp_list rv1 = [resp']" by (simp add: m(7,8))
  from r(2) have b: "resp_output_names resp' = [''logits'', ''hidden'']" by (simp add: m(6))
  from r(3) have c: "resp_output_values resp' ! 0 = ex_logits"
    unfolding m(1) using m(3,4) by simp
  from r(4) have d: "resp_output_values resp' ! 1 = None"
    unfolding m(1) using m(5) by simp
  from r(5) have e: "run_loop ex_ps 1 1 0 ex_final_vars = Some (Ok (Some (not_produced ''hidden''), rv1))"
    unfolding m(2) by simp
  from a b c d e show ?thesis by blast
qed

text \<open>
  C8, as stated, on the example with a caller that asks for \<open>logits\<close> and \<open>hidden\<close>:
  \<open>Run\<close> returns the error for \<open>hidden\<close>, with a text that is not the claim's, and
  the slot of \<open>logits\<close> of the request, which did not complete, has been filled.
\<close>

theorem partial_response_counterexample:
  "returned_status (Run ex_ps [ex_req] [ex_resp2] 1 0 ex_world) =
     Some (Some (CreateStatus ORT_FAIL
       (''Error: Output hidden is not produced by the final stage'' @ [CHR 0x0A]))) \<and>
   resp_output_values ex_resp2 = [None, None] \<and>
   map_option (\<lambda>rv. map resp_output_values (resp_list rv))
     (returned_vars (Run ex_ps [ex_req] [ex_resp2] 1 0 ex_world)) = Some [[ex_logits, None]]"
  by (simp add: run_defs ex_defs prim_defs obs_defs)

section \<open>Zero steps (C6)\<close>

lemma bind_and_run_Ok:
  assumes "bind_and_run mcfg ss resp ef w = Ok (rs, tok1, vals, w1)"
  obtains rs0 b1 b2 st_shape st_type input_seq_len where
    "vec_at (model_run_state_vec ef) (stage_id ef) = Ok rs0"
    "bind_inputs mcfg (ort_value_names (token ef)) (ort_values (token ef)) rs0 (input_names mcfg)
       (ClearBoundOutputs (ClearBoundInputs (io_binding rs0))) = Ok b1"
    "bind_outputs mcfg ss resp rs0 (batch_size ef) (step_id (token ef)) st_shape st_type
       input_seq_len (output_names mcfg) b1 = Ok b2"
    "sess_run (session ss) b2 w = Ok (vals, w1)"
    "rs = rs0\<lparr>io_binding := b2\<rparr>"
    "tok1 = (token ef)\<lparr>ort_values := map (\<lambda>v. None) (ort_values (token ef))\<rparr>"
  using assms unfolding bind_and_run_def Let_def
  by (auto simp: bindR_eq_Ok)

lemma save_outputs_token:
  "save_outputs mcfg vals i names rs tok = Ok (rs', tok') \<Longrightarrow>
     step_id tok' = step_id tok \<and> req_id tok' = req_id tok \<and> error_msg tok' = error_msg tok"
proof (induction names arbitrary: i rs tok)
  case Nil
  then show ?case by simp
next
  case (Cons n names)
  from Cons.prems show ?case
    by (auto simp: Let_def bindR_eq_Ok split: if_splits option.splits dest!: Cons.IH)
qed

lemma ProcessRequest_step:
  assumes "ProcessRequest mcfg ss resp ef w = Ok (ef', w')"
  shows "step_id (token ef') = step_id (token ef)"
proof -
  from assms obtain rs tok1 vals w1 rs' tok' where
    b: "bind_and_run mcfg ss resp ef w = Ok (rs, tok1, vals, w1)" and
    s: "save_outputs mcfg vals 0 (output_names mcfg) rs tok1 = Ok (rs', tok')" and
    e: "token ef' = tok'"
    by (auto simp: ProcessRequest_def bindR_eq_Ok)
  from b have "step_id tok1 = step_id (token ef)"
    by (rule bind_and_run_Ok) simp
  with save_outputs_token [OF s] e show ?thesis by simp
qed

lemma lambda_helper_step:
  assumes "lambda_helper mcfg ss resp ef w = Ok (ef', w')"
  shows "step_id (token ef') = step_id (token ef)"
  using assms ProcessRequest_step [of mcfg ss resp ef w]
  by (auto simp: lambda_helper_def split: res.splits)

lemma RunTask_no_progress:
  assumes "RunTask ps rid rv = Ok rv'" "no_progress rv"
  shows "no_progress rv'"
proof -
  from assms(1) obtain ef mc ss resp ef' w' where
    f: "req_frame_map rv rid = Some ef" and
    l: "lambda_helper mc ss resp ef (world rv) = Ok (ef', w')" and
    r: "rv' = rv\<lparr>req_frame_map := (req_frame_map rv)(rid \<mapsto> ef'), world := w',
                 resp_queue := resp_queue rv @ [rid]\<rparr>"
    by (auto simp: RunTask_def bindR_eq_Ok map_at_def split: option.splits)
  from lambda_helper_step [OF l] f assms(2) have "0 \<le> step_id (token ef')"
    by (simp add: no_progress_def)
  with assms(2) show ?thesis by (simp add: r no_progress_def)
qed

lemma admit_no_progress:
  assumes "admit ps i rv = Ok rv'" "no_progress rv"
  shows "no_progress rv'"
proof -
  from assms(1) obtain rid rv1 where
    t: "RunTask ps rid rv1 = Ok rv'" and
    p: "req_processed rv1 = req_processed rv" and
    f: "\<forall>r ef. req_frame_map rv1 r = Some ef \<longrightarrow> req_frame_map rv r = Some ef \<or> step_id (token ef) = 0"
    unfolding admit_def Let_def
    by (auto simp: bindR_eq_Ok Token_Init_def emplace_def split: if_splits option.splits)
  from p f assms(2) have "no_progress rv1"
    by (fastforce simp: no_progress_def)
  with t show ?thesis by (rule RunTask_no_progress)
qed

lemma admit_from_no_progress:
  "admit_from ps i n rv = Ok rv' \<Longrightarrow> no_progress rv \<Longrightarrow> no_progress rv'"
proof (induction n arbitrary: i rv)
  case 0
  then show ?case by simp
next
  case (Suc n)
  from Suc.prems(1) obtain rv1 where a: "admit ps i rv = Ok rv1"
    and b: "admit_from ps (i + 1) n rv1 = Ok rv'"
    by (auto simp: bindR_eq_Ok)
  from admit_no_progress [OF a Suc.prems(2)] Suc.IH [OF b] show ?case by simp
qed

lemma bindRO_eq_Some_Ok: "bindRO m f = Some (Ok y) \<longleftrightarrow> (\<exists>x. m = Ok x \<and> f x = Some (Ok y))"
  by (cases m) simp_all

lemma next_step_token_step:
  assumes "next_step_token ps li ef rid step tok w = Some (Ok (None, tok', w'))"
  shows "step_id tok' = step"
  using assms unfolding next_step_token_def Let_def
  by (auto simp: bindRO_eq_Some_Ok bindR_eq_Ok Token_Clear_def split: if_splits option.splits)

lemma advance_no_progress:
  assumes "advance ps num_steps logits_idx rid rv = Some (Ok r)" "no_progress rv" "num_steps \<le> 0"
  shows "(\<exists>st rv1. r = Done (Some st) rv1) \<or> (\<exists>r' rv1. r = Resubmit r' rv1 \<and> no_progress rv1)"
proof -
  from assms(1) obtain ef where f: "req_frame_map rv rid = Some ef"
    by (auto simp: advance_def bindRO_eq_Some_Ok map_at_def split: option.splits)
  with assms(2) have s0: "0 \<le> step_id (token ef)" by (simp add: no_progress_def)
  show ?thesis
  proof (cases "error_msg (token ef) = []")
    case False
    with assms(1) f show ?thesis by (auto simp: advance_def map_at_def)
  next
    case True
    with assms(1) f obtain sid where sid: "c_mod (stage_id ef + 1) (num_stages (pcfg ps)) = Ok sid"
      by (auto simp: advance_def map_at_def Let_def bindRO_eq_Some_Ok)
    show ?thesis
    proof (cases "sid = 0")
      case False
      with assms(1) f True sid have
        "r = Resubmit rid (rv\<lparr>req_frame_map := (req_frame_map rv)(rid \<mapsto>
                  ef\<lparr>stage_id := sid, token := (token ef)\<lparr>req_id := rid, step_id := step_id (token ef)\<rparr>\<rparr>)\<rparr>)"
        by (simp add: advance_def map_at_def Let_def)
      moreover have "no_progress (rv\<lparr>req_frame_map := (req_frame_map rv)(rid \<mapsto>
                  ef\<lparr>stage_id := sid, token := (token ef)\<lparr>req_id := rid, step_id := step_id (token ef)\<rparr>\<rparr>)\<rparr>)"
        using assms(2) s0 by (simp add: no_progress_def)
      ultimately show ?thesis by blast
    next
      case z: True
      from assms(1) f True sid z obtain step1 where
        st: "int_arith (step_id (token ef) + 1) = Ok step1"
        by (auto simp: advance_def map_at_def Let_def bindRO_eq_Some_Ok)
      then have s1: "step1 = step_id (token ef) + 1"
        by (simp add: int_arith_def split: if_splits)
      with s0 assms(3) have ne: "step1 \<noteq> num_steps" "0 \<le> step1" by simp_all
      let ?ef1 = "ef\<lparr>stage_id := 0\<rparr>"
      from assms(1) f True sid z st ne obtain rr where
        n: "next_step_token ps logits_idx ?ef1 rid step1 (token ef) (world rv) = Some rr"
        by (auto simp: advance_def map_at_def Let_def split: option.splits)
      with assms(1) f True sid z st ne obtain st' tok' w' where
        rr: "rr = Ok (st', tok', w')"
        by (cases rr) (auto simp: advance_def map_at_def Let_def)
      let ?rv1 = "rv\<lparr>world := w', req_frame_map := (req_frame_map rv)(rid \<mapsto> ?ef1\<lparr>token := tok'\<rparr>)\<rparr>"
      show ?thesis
      proof (cases st')
        case (Some status)
        with assms(1) f True sid z st ne n rr have "r = Done (Some status) ?rv1"
          by (simp add: advance_def map_at_def Let_def)
        then show ?thesis by blast
      next
        case None
        with assms(1) f True sid z st ne n rr have r: "r = Resubmit rid ?rv1"
          by (simp add: advance_def map_at_def Let_def)
        from n rr None have "step_id tok' = step1"
          using next_step_token_step by blast
        with ne(2) assms(2) have "no_progress ?rv1" by (simp add: no_progress_def)
        with r show ?thesis by blast
      qed
    qed
  qed
qed

lemma run_loop_no_progress:
  assumes "run_loop ps num_steps num_reqs logits_idx rv = Some y"
  shows "no_progress rv \<longrightarrow> num_steps \<le> 0 \<longrightarrow> (\<forall>rv'. y = Ok (None, rv') \<longrightarrow> num_reqs \<le> 0)"
proof (rule run_loop.raw_induct [where P = "\<lambda>ps num_steps num_reqs logits_idx rv y.
    no_progress rv \<longrightarrow> num_steps \<le> 0 \<longrightarrow> (\<forall>rv'. y = Ok (None, rv') \<longrightarrow> num_reqs \<le> 0)",
    OF _ assms], goal_cases)
  case (1 f ps num_steps num_reqs logits_idx rv y)
  note ih = "1"(1) and eq = "1"(2)
  show ?case
  proof (intro impI allI)
    fix rv' assume np0: "no_progress rv" and ns: "num_steps \<le> 0" and y: "y = Ok (None, rv')"
    show "num_reqs \<le> 0"
    proof (cases "req_processed rv < num_reqs")
      case False
      with np0 show ?thesis by (simp add: no_progress_def)
    next
      case True
      with eq obtain rid q where q: "resp_queue rv = rid # q"
        by (cases "resp_queue rv") auto
      from np0 have np: "no_progress (rv\<lparr>resp_queue := q\<rparr>)"
        by (simp add: no_progress_def)
      from eq True q obtain a where
        a: "advance ps num_steps logits_idx rid (rv\<lparr>resp_queue := q\<rparr>) = Some a"
        by (cases "advance ps num_steps logits_idx rid (rv\<lparr>resp_queue := q\<rparr>)") auto
      show ?thesis
      proof (cases a)
        case (Ok r)
        from advance_no_progress [OF a [unfolded Ok] np ns]
        show ?thesis
        proof (elim disjE exE conjE)
          fix st rv1 assume "r = Done (Some st) rv1"
          with eq True q a Ok y show ?thesis by simp
        next
          fix r' rv1 assume r: "r = Resubmit r' rv1" and n1: "no_progress rv1"
          show ?thesis
          proof (cases "RunTask ps r' rv1")
            case rt: (Ok rv2)
            with eq True q a Ok r have "f ps num_steps num_reqs logits_idx rv2 = Some y"
              by simp
            from ih [OF this] RunTask_no_progress [OF rt n1] ns y
            show ?thesis by blast
          qed (use eq True q a Ok r y in auto)
        qed
      qed (use eq True q a y in auto)
    qed
  qed
qed

lemma zero_steps_no_success:
  assumes "num_steps \<le> 0" "returns_success (Run ps reqs resps num_steps sid w)"
  shows "reqs = []"
proof -
  let ?rv0 = "\<lparr>req_frame_map = Map.empty, resp_queue = [], req_list = reqs,
                resp_list = resps, req_processed = 0, last_req_id = sid, world = w\<rparr>"
  from assms(2) obtain rv' where r: "Run ps reqs resps num_steps sid w = Some (Ok (None, rv'))"
    by (auto simp: returns_success_def returned_status_def split: option.splits res.splits)
  then obtain rv1 li where a: "admit_from ps 0 (length reqs) ?rv0 = Ok rv1"
    and l: "run_loop ps num_steps (int (length reqs)) li rv1 = Some (Ok (None, rv'))"
    unfolding Run_def Let_def by (auto simp: bindRO_eq_Some_Ok)
  have "no_progress ?rv0" by (simp add: no_progress_def)
  from admit_from_no_progress [OF a this] have "no_progress rv1" .
  with run_loop_no_progress [OF l] assms(1) have "int (length reqs) \<le> 0" by blast
  then show ?thesis by simp
qed

lemma no_requests_success:
  assumes "vec_at (model_config_vec (pcfg ps)) (num_stages (pcfg ps) - 1) = Ok last_stage"
    "fst (Contains (output_names last_stage) (logits_name (pcfg ps)))"
  shows "Run ps [] resps num_steps sid w =
           Some (Ok (None, \<lparr>req_frame_map = Map.empty, resp_queue = [], req_list = [],
                resp_list = resps, req_processed = 0, last_req_id = sid, world = w\<rparr>))"
  using assms by (simp add: Run_def assertR_def run_loop.simps)

text \<open>
  C6, amended. With \<open>num_steps = 0\<close> (or less) \<open>Run\<close> returns the success status
  only for an empty request list: every full step of a request ends with a step id of at
  least 1, which never equals \<open>num_steps\<close>, so no request is ever counted as processed.
  With an empty request list, and a last stage that has the logits output, which \<open>Run\<close>
  asserts, \<open>Run\<close> returns success and the responses are as the caller passed them.
\<close>

theorem zero_steps_succeed_only_without_requests:
  "(num_steps \<le> 0 \<and> returns_success (Run ps reqs resps num_steps sid w) \<longrightarrow> reqs = []) \<and>
   (vec_at (model_config_vec (pcfg ps)) (num_stages (pcfg ps) - 1) = Ok last_stage \<and>
    fst (Contains (output_names last_stage) (logits_name (pcfg ps))) \<longrightarrow>
      returned_status (Run ps [] resps num_steps sid w) = Some None \<and>
      map_option resp_list (returned_vars (Run ps [] resps num_steps sid w)) = Some resps)"
  using zero_steps_no_success [of num_steps ps reqs resps sid w]
    no_requests_success [of ps last_stage resps num_steps sid w]
  by (simp add: returned_status_def returned_vars_def)

theorem zero_steps_succeed_only_without_requests_witness:
  "returns_success (Run ex_ps [] [ex_resp] 0 0 ex_world) \<and>
   vec_at (model_config_vec (pcfg ex_ps)) (num_stages (pcfg ex_ps) - 1) = Ok ex_loaded \<and>
   fst (Contains (output_names ex_loaded) (logits_name (pcfg ex_ps))) \<and>
   returned_status (Run ex_ps [] [ex_resp] 0 0 ex_world) = Some None \<and>
   map_option resp_list (returned_vars (Run ex_ps [] [ex_resp] 0 0 ex_world)) = Some [ex_resp]"
proof -
  have h: "vec_at (model_config_vec (pcfg ex_ps)) (num_stages (pcfg ex_ps) - 1) = Ok ex_loaded"
    "fst (Contains (output_names ex_loaded) (logits_name (pcfg ex_ps)))"
    by (simp_all add: ex_ps_def ex_cfg_def ex_loaded_def vec_at_def Contains_def)
  from zero_steps_succeed_only_without_requests [of 0 ex_ps "[]" "[ex_resp]" 0 ex_world ex_loaded] h
  show ?thesis by (simp add: returns_success_def)
qed

text \<open>C6, as stated, on the example with its one request: \<open>Run\<close> with \<open>num_steps = 0\<close>
  does not return the success status.\<close>

theorem zero_steps_with_a_request_counterexample:
  "\<not> returns_success (Run ex_ps [ex_req] [ex_resp] 0 0 ex_world)"
  using zero_steps_no_success [of 0 ex_ps "[ex_req]" "[ex_resp]" 0 ex_world] by auto

section \<open>The rotation of the state buffers (C3)\<close>

lemma map_of_bind_put: "map_of (bind_put n v xs) m = (if m = n then Some v else map_of xs m)"
  by (induction xs) auto

lemma bind_outputs_frame:
  "bind_outputs mcfg ss resp rs bsz step shp ty len names b = Ok b' \<Longrightarrow>
     bound_inputs b' = bound_inputs b \<and>
     (oname \<notin> set names \<longrightarrow> map_of (bound_outputs b') oname = map_of (bound_outputs b) oname)"
proof (induction names arbitrary: b)
  case Nil
  then show ?case by simp
next
  case (Cons x names)
  from Cons.prems obtain b1 where
    r: "bind_outputs mcfg ss resp rs bsz step shp ty len names b1 = Ok b'" and
    i: "bound_inputs b1 = bound_inputs b" and
    o: "x \<noteq> oname \<longrightarrow> map_of (bound_outputs b1) oname = map_of (bound_outputs b) oname"
    by (auto simp: Let_def bindR_eq_Ok BindOutput_def BindOutputToDevice_def map_of_bind_put
        split: if_splits option.splits)
  from Cons.IH [OF r] i o show ?case by auto
qed

lemma bind_outputs_state:
  "bind_outputs mcfg ss resp rs bsz step shp ty len names b = Ok b' \<Longrightarrow>
   oname \<in> set names \<Longrightarrow> fst (Contains (present_output_names mcfg) oname) \<Longrightarrow>
     \<exists>m. vec_at (if step mod 2 = 0 then present_past_prealloc_buffer_2_vec rs
                 else present_past_prealloc_buffer_1_vec rs)
            (snd (Contains (present_output_names mcfg) oname)) = Ok m \<and>
         map_of (bound_outputs b') oname =
           Some (ToValue (CreateTensor (cuda_mem_info ss) (ma_ptr m) (ma_size m) shp ty))"
proof (induction names arbitrary: b)
  case Nil
  then show ?case by simp
next
  case (Cons x names)
  show ?case
  proof (cases "oname \<in> set names")
    case True
    from Cons.prems(1) obtain b1 where
      r: "bind_outputs mcfg ss resp rs bsz step shp ty len names b1 = Ok b'"
      by (auto simp: Let_def bindR_eq_Ok split: if_splits option.splits)
    from Cons.IH [OF r True Cons.prems(3)] show ?thesis .
  next
    case False
    with Cons.prems(2) have x: "x = oname" by simp
    from Cons.prems(1,3) x obtain m where
      m: "vec_at (if step mod 2 = 0 then present_past_prealloc_buffer_2_vec rs
                 else present_past_prealloc_buffer_1_vec rs)
            (snd (Contains (present_output_names mcfg) oname)) = Ok m" and
      r: "bind_outputs mcfg ss resp rs bsz step shp ty len names
            (BindOutput oname (CreateTensor (cuda_mem_info ss) (ma_ptr m) (ma_size m) shp ty) b) = Ok b'"
      by (auto simp: Let_def bindR_eq_Ok)
    from bind_outputs_frame [OF r, of oname] False m show ?thesis
      by (simp add: BindOutput_def map_of_bind_put)
  qed
qed

lemma bind_inputs_frame:
  "bind_inputs mcfg in_names in_values rs names b = Ok b' \<Longrightarrow>
     bound_outputs b' = bound_outputs b \<and>
     (iname \<notin> set names \<longrightarrow> map_of (bound_inputs b') iname = map_of (bound_inputs b) iname)"
proof (induction names arbitrary: b)
  case Nil
  then show ?case by simp
next
  case (Cons x names)
  from Cons.prems obtain b1 where
    r: "bind_inputs mcfg in_names in_values rs names b1 = Ok b'" and
    i: "bound_outputs b1 = bound_outputs b" and
    o: "x \<noteq> iname \<longrightarrow> map_of (bound_inputs b1) iname = map_of (bound_inputs b) iname"
    by (auto simp: Let_def bindR_eq_Ok BindInput_def map_of_bind_put split: if_splits)
  from Cons.IH [OF r] i o show ?case by auto
qed

lemma bind_inputs_state:
  "bind_inputs mcfg in_names in_values rs names b = Ok b' \<Longrightarrow>
   iname \<in> set names \<Longrightarrow> \<not> fst (Contains in_names iname) \<Longrightarrow>
   fst (Contains (past_input_names mcfg) iname) \<Longrightarrow>
     \<exists>oname v. vec_at (present_output_names mcfg) (snd (Contains (past_input_names mcfg) iname))
                 = Ok oname \<and>
         output_val_map rs oname = Some v \<and> map_of (bound_inputs b') iname = Some v"
proof (induction names arbitrary: b)
  case Nil
  then show ?case by simp
next
  case (Cons x names)
  show ?case
  proof (cases "iname \<in> set names")
    case True
    from Cons.prems(1) obtain b1 where
      r: "bind_inputs mcfg in_names in_values rs names b1 = Ok b'"
      by (auto simp: Let_def bindR_eq_Ok split: if_splits)
    from Cons.IH [OF r True Cons.prems(3,4)] show ?thesis .
  next
    case False
    with Cons.prems(2) have x: "x = iname" by simp
    from Cons.prems(1,3,4) x obtain oname v where
      m: "vec_at (present_output_names mcfg) (snd (Contains (past_input_names mcfg) iname)) = Ok oname"
        "output_val_map rs oname = Some v" and
      r: "bind_inputs mcfg in_names in_values rs names (BindInput iname v b) = Ok b'"
      by (auto simp: Let_def bindR_eq_Ok map_at_def split: option.splits)
    from bind_inputs_frame [OF r, of iname] False m show ?thesis
      by (simp add: BindInput_def map_of_bind_put)
  qed
qed

lemma save_outputs_frame:
  "save_outputs mcfg vals i names rs tok = Ok (rs', tok') \<Longrightarrow>
     io_binding rs' = io_binding rs \<and>
     present_past_prealloc_buffer_1_vec rs' = present_past_prealloc_buffer_1_vec rs \<and>
     present_past_prealloc_buffer_2_vec rs' = present_past_prealloc_buffer_2_vec rs"
proof (induction names arbitrary: i rs tok)
  case Nil
  then show ?case by simp
next
  case (Cons n names)
  from Cons.prems show ?case
    by (auto simp: Let_def bindR_eq_Ok split: if_splits option.splits dest!: Cons.IH)
qed


lemma prealloc_state_buffers_frame:
  "prealloc_state_buffers sz names rs w = Ok (rs', w') \<Longrightarrow> output_val_map rs' = output_val_map rs"
proof (induction names arbitrary: rs w)
  case Nil
  then show ?case by simp
next
  case (Cons n names)
  from Cons.prems show ?case
    by (auto simp: bindR_eq_Ok dest!: Cons.IH)
qed

lemma init_output_states_map:
  "init_output_states info shp j names rs = Ok rs' \<Longrightarrow>
     present_past_prealloc_buffer_1_vec rs' = present_past_prealloc_buffer_1_vec rs \<and>
     output_val_map rs' oname =
       (case output_val_map rs oname of
          Some v \<Rightarrow> Some v
        | None \<Rightarrow>
            if fst (Contains_from j names oname)
            then Some (CreateTensor info
                   (ma_ptr (present_past_prealloc_buffer_1_vec rs ! nat (snd (Contains_from j names oname))))
                   (ma_size (present_past_prealloc_buffer_1_vec rs ! nat (snd (Contains_from j names oname))))
                   shp ELEMENT_FLOAT16)
            else None)"
proof (induction names arbitrary: j rs)
  case Nil
  then show ?case by (simp split: option.splits)
next
  case (Cons x names)
  from Cons.prems obtain m where
    m: "vec_at (present_past_prealloc_buffer_1_vec rs) j = Ok m" and
    r: "init_output_states info shp (j + 1) names
          (rs\<lparr>output_val_map := emplace (output_val_map rs) x
                 (CreateTensor info (ma_ptr m) (ma_size m) shp ELEMENT_FLOAT16)\<rparr>) = Ok rs'"
    by (auto simp: bindR_eq_Ok)
  from m have mj: "m = present_past_prealloc_buffer_1_vec rs ! nat j"
    by (simp add: vec_at_def split: if_splits)
  from Cons.IH [OF r] show ?case
    by (auto simp: emplace_def mj split: option.splits)
qed

lemma prealloc_inter_stage_frame:
  "prealloc_inter_stage mcfg sess bsz max_len entries rs w = Ok (rs', w') \<Longrightarrow>
     output_val_map rs' = output_val_map rs \<and>
     present_past_prealloc_buffer_1_vec rs' = present_past_prealloc_buffer_1_vec rs"
proof (induction entries arbitrary: rs w)
  case Nil
  then show ?case by simp
next
  case (Cons e entries)
  from Cons.prems show ?case
    by (auto simp: Let_def bindR_eq_Ok dest!: Cons.IH)
qed

lemma vec_set_at: "vec_set v i x = Ok v' \<Longrightarrow> vec_at v' i = Ok x"
  by (auto simp: vec_set_def vec_at_def split: if_splits)

lemma init_output_states_in_range:
  "init_output_states info shp j names rs = Ok rs' \<Longrightarrow> fst (Contains_from j names oname) \<Longrightarrow>
     \<exists>m. vec_at (present_past_prealloc_buffer_1_vec rs) (snd (Contains_from j names oname)) = Ok m"
proof (induction names arbitrary: j rs)
  case Nil
  then show ?case by simp
next
  case (Cons x names)
  from Cons.prems(1) obtain m where
    m: "vec_at (present_past_prealloc_buffer_1_vec rs) j = Ok m" and
    r: "init_output_states info shp (j + 1) names
          (rs\<lparr>output_val_map := emplace (output_val_map rs) x
                 (CreateTensor info (ma_ptr m) (ma_size m) shp ELEMENT_FLOAT16)\<rparr>) = Ok rs'"
    by (auto simp: bindR_eq_Ok)
  show ?case
  proof (cases "x = oname")
    case True
    with m show ?thesis by simp
  next
    case False
    with Cons.prems(2) have "fst (Contains_from (j + 1) names oname)" by simp
    from Cons.IH [OF r this] False show ?thesis by simp
  qed
qed

lemma vec_at_nth: "vec_at v i = Ok m \<Longrightarrow> v ! nat i = m"
  by (simp add: vec_at_def split: if_splits)

lemma frame_stage_views:
  assumes "frame_stage psess bsz idx mcfg w = Ok (rs, w')"
    and "fst (Contains (present_output_names mcfg) oname)"
  shows "\<exists>v m. output_val_map rs oname = Some (Some v) \<and>
           vec_at (present_past_prealloc_buffer_1_vec rs)
             (snd (Contains (present_output_names mcfg) oname)) = Ok m \<and>
           data_ptr v = ma_ptr m \<and>
           vec_at (dims v) (seq_len_dim_index_in_state mcfg) = Ok 0"
proof -
  have "\<exists>(ss :: SessionState) shp2 sz rs1 w1 shp0 rs2.
    prealloc_state_buffers sz (past_input_names mcfg) empty_RunState w = Ok (rs1, w1) \<and>
    vec_set shp2 (seq_len_dim_index_in_state mcfg) 0 = Ok shp0 \<and>
    init_output_states (cuda_mem_info ss) shp0 0 (present_output_names mcfg) rs1 = Ok rs2 \<and>
    output_val_map rs = output_val_map rs2 \<and>
    present_past_prealloc_buffer_1_vec rs = present_past_prealloc_buffer_1_vec rs2"
  proof (cases "idx < num_stages (pcfg psess) - 1")
    case True
    with assms(1) obtain ss :: SessionState and shp2 sz rs1 w1 shp0 rs2 where
      h: "prealloc_state_buffers sz (past_input_names mcfg) empty_RunState w = Ok (rs1, w1)"
      "vec_set shp2 (seq_len_dim_index_in_state mcfg) 0 = Ok shp0"
      "init_output_states (cuda_mem_info ss) shp0 0 (present_output_names mcfg) rs1 = Ok rs2"
      "prealloc_inter_stage mcfg (session ss) bsz (max_seq_len (pcfg psess))
         (inter_stage_output_input_map mcfg) rs2 w1 = Ok (rs, w')"
      by (auto simp: frame_stage_def Let_def bindR_eq_Ok)
    from h(1,2,3) prealloc_inter_stage_frame [OF h(4)] show ?thesis by blast
  next
    case False
    with assms(1) obtain ss :: SessionState and shp2 sz rs1 w1 shp0 where
      "prealloc_state_buffers sz (past_input_names mcfg) empty_RunState w = Ok (rs1, w1)"
      "vec_set shp2 (seq_len_dim_index_in_state mcfg) 0 = Ok shp0"
      "init_output_states (cuda_mem_info ss) shp0 0 (present_output_names mcfg) rs1 = Ok rs"
      by (auto simp: frame_stage_def Let_def bindR_eq_Ok)
    then show ?thesis by blast
  qed
  then obtain ss :: SessionState and shp2 sz rs1 w1 shp0 rs2 where
    p: "prealloc_state_buffers sz (past_input_names mcfg) empty_RunState w = Ok (rs1, w1)" and
    z: "vec_set shp2 (seq_len_dim_index_in_state mcfg) 0 = Ok shp0" and
    i: "init_output_states (cuda_mem_info ss) shp0 0 (present_output_names mcfg) rs1 = Ok rs2" and
    s: "output_val_map rs = output_val_map rs2"
      "present_past_prealloc_buffer_1_vec rs = present_past_prealloc_buffer_1_vec rs2"
    by blast
  from prealloc_state_buffers_frame [OF p] have e: "output_val_map rs1 oname = None"
    by (simp add: empty_RunState_def)
  from init_output_states_in_range [OF i, of oname] assms(2) obtain m where
    r: "vec_at (present_past_prealloc_buffer_1_vec rs1)
          (snd (Contains (present_output_names mcfg) oname)) = Ok m"
    by (auto simp: Contains_def)
  from init_output_states_map [OF i, of oname] e assms(2) vec_at_nth [OF r]
  have m: "present_past_prealloc_buffer_1_vec rs2 = present_past_prealloc_buffer_1_vec rs1"
    "output_val_map rs2 oname = Some (CreateTensor (cuda_mem_info ss) (ma_ptr m) (ma_size m)
       shp0 ELEMENT_FLOAT16)"
    by (simp_all add: Contains_def)
  from m s r vec_set_at [OF z] show ?thesis
    by (simp add: CreateTensor_def)
qed

lemma frame_stages_nth:
  "frame_stages psess bsz idx cfgs vec w = Ok (vec', w') \<Longrightarrow>
     length vec' = length vec + length cfgs \<and>
     (\<forall>i<length cfgs. \<exists>w1 w2. frame_stage psess bsz (idx + int i) (cfgs ! i) w1
                                  = Ok (vec' ! (length vec + i), w2))"
proof (induction cfgs arbitrary: idx vec w)
  case Nil
  then show ?case by simp
next
  case (Cons c cfgs)
  from Cons.prems obtain rs w1 where
    f: "frame_stage psess bsz idx c w = Ok (rs, w1)" and
    r: "frame_stages psess bsz (idx + 1) cfgs (vec @ [rs]) w1 = Ok (vec', w')"
    by (auto simp: bindR_eq_Ok)
  from Cons.IH [OF r] have l: "length vec' = length vec + length (c # cfgs)" and
    n: "\<forall>i<length cfgs. \<exists>w1 w2. frame_stage psess bsz (idx + 1 + int i) (cfgs ! i) w1
                                  = Ok (vec' ! (length (vec @ [rs]) + i), w2)"
    by simp_all
  have pre: "vec' ! length vec = rs"
  proof -
    have "\<And>vec w. frame_stages psess bsz j cs vec w = Ok (vec', w') \<Longrightarrow> take (length vec) vec' = vec"
      for j cs vec' w'
    proof (induction cs arbitrary: j)
      case Nil
      then show ?case by simp
    next
      case (Cons a cs)
      from Cons.prems obtain rs w1 where
        "frame_stages psess bsz (j + 1) cs (vec @ [rs]) w1 = Ok (vec', w')"
        by (auto simp: bindR_eq_Ok)
      from Cons.IH [OF this] have "take (Suc (length vec)) vec' = vec @ [rs]" by simp
      then have "take (length vec) (take (Suc (length vec)) vec') = vec" by simp
      then show ?case by (simp add: min_def)
    qed
    from this [OF r] have "take (Suc (length vec)) vec' = vec @ [rs]" by simp
    then have "take (Suc (length vec)) vec' ! length vec = rs" by simp
    then show ?thesis by simp
  qed
  show ?case
  proof (intro conjI allI impI)
    show "length vec' = length vec + length (c # cfgs)" by (rule l)
  next
    fix i assume i: "i < length (c # cfgs)"
    show "\<exists>w1 w2. frame_stage psess bsz (idx + int i) ((c # cfgs) ! i) w1
                    = Ok (vec' ! (length vec + i), w2)"
    proof (cases i)
      case 0
      with f pre show ?thesis by auto
    next
      case (Suc k)
      with i n have "\<exists>w1 w2. frame_stage psess bsz (idx + 1 + int k) (cfgs ! k) w1
                                  = Ok (vec' ! (length (vec @ [rs]) + k), w2)" by simp
      with Suc show ?thesis by (simp add: add.commute add.left_commute)
    qed
  qed
qed

lemma constructor_views:
  assumes "RequestExecutionFrame_ctor psess ri rid bsz osl sid w = Ok (ef, w')"
  shows "length (model_run_state_vec ef) = length (model_config_vec (pcfg psess))"
    and "i < length (model_config_vec (pcfg psess)) \<Longrightarrow>
         fst (Contains (present_output_names (model_config_vec (pcfg psess) ! i)) oname) \<Longrightarrow>
         \<exists>v m. output_val_map (model_run_state_vec ef ! i) oname = Some (Some v) \<and>
           vec_at (present_past_prealloc_buffer_1_vec (model_run_state_vec ef ! i))
             (snd (Contains (present_output_names (model_config_vec (pcfg psess) ! i)) oname))
             = Ok m \<and>
           data_ptr v = ma_ptr m \<and>
           vec_at (dims v) (seq_len_dim_index_in_state (model_config_vec (pcfg psess) ! i)) = Ok 0"
proof -
  from assms(1) obtain vec where
    f: "frame_stages psess bsz 0 (model_config_vec (pcfg psess)) [] w = Ok (vec, w')" and
    e: "model_run_state_vec ef = vec"
    by (auto simp: RequestExecutionFrame_ctor_def bindR_eq_Ok)
  from frame_stages_nth [OF f] e
  show l: "length (model_run_state_vec ef) = length (model_config_vec (pcfg psess))" by simp
  assume i: "i < length (model_config_vec (pcfg psess))"
    and c: "fst (Contains (present_output_names (model_config_vec (pcfg psess) ! i)) oname)"
  from frame_stages_nth [OF f] i obtain w1 w2 where
    s: "frame_stage psess bsz (0 + int i) (model_config_vec (pcfg psess) ! i) w1 = Ok (vec ! i, w2)"
    by auto
  from frame_stage_views [OF s c] e
  show "\<exists>v m. output_val_map (model_run_state_vec ef ! i) oname = Some (Some v) \<and>
           vec_at (present_past_prealloc_buffer_1_vec (model_run_state_vec ef ! i))
             (snd (Contains (present_output_names (model_config_vec (pcfg psess) ! i)) oname))
             = Ok m \<and>
           data_ptr v = ma_ptr m \<and>
           vec_at (dims v) (seq_len_dim_index_in_state (model_config_vec (pcfg psess) ! i)) = Ok 0"
    by simp
qed

lemma state_views_buffer_1_iff:
  "state_views_buffer_1 mcfg rs \<longleftrightarrow>
     (\<forall>oname \<in> set (present_output_names mcfg).
        \<exists>v m. output_val_map rs oname = Some v \<and>
          vec_at (present_past_prealloc_buffer_1_vec rs)
            (snd (Contains (present_output_names mcfg) oname)) = Ok m \<and>
          value_ptr v = ma_ptr m)"
proof -
  have "(case x of None \<Rightarrow> False
         | Some v \<Rightarrow> (case r of Ok m \<Rightarrow> value_ptr v = ma_ptr m | _ \<Rightarrow> False))
        \<longleftrightarrow> (\<exists>v m. x = Some v \<and> r = Ok m \<and> value_ptr v = ma_ptr m)"
    for x :: "Value option" and r :: "MemoryAllocation res"
    by (cases x; cases r; simp)
  then show ?thesis
    by (simp add: state_views_buffer_1_def list_all_iff)
qed

lemma constructor_views_buffer_1:
  assumes "RequestExecutionFrame_ctor psess ri rid bsz osl sid w = Ok (ef, w')"
    and "i < length (model_config_vec (pcfg psess))"
  shows "state_views_buffer_1 (model_config_vec (pcfg psess) ! i) (model_run_state_vec ef ! i)"
  unfolding state_views_buffer_1_iff
proof
  fix oname
  assume "oname \<in> set (present_output_names (model_config_vec (pcfg psess) ! i))"
  then have "fst (Contains (present_output_names (model_config_vec (pcfg psess) ! i)) oname)"
    by (simp add: Contains_fst)
  from constructor_views(2) [OF assms this]
  show "\<exists>v m. output_val_map (model_run_state_vec ef ! i) oname = Some v \<and>
          vec_at (present_past_prealloc_buffer_1_vec (model_run_state_vec ef ! i))
            (snd (Contains (present_output_names (model_config_vec (pcfg psess) ! i)) oname)) = Ok m \<and>
          value_ptr v = ma_ptr m"
    by (auto simp: value_ptr_def)
qed

lemma ProcessRequest_Ok:
  assumes "ProcessRequest mcfg ss resp ef w = Ok (ef', w')"
  obtains rs0 b1 b2 st_shape st_type input_seq_len vals tok1 rs' tok' where
    "vec_at (model_run_state_vec ef) (stage_id ef) = Ok rs0"
    "bind_inputs mcfg (ort_value_names (token ef)) (ort_values (token ef)) rs0 (input_names mcfg)
       (ClearBoundOutputs (ClearBoundInputs (io_binding rs0))) = Ok b1"
    "bind_outputs mcfg ss resp rs0 (batch_size ef) (step_id (token ef)) st_shape st_type
       input_seq_len (output_names mcfg) b1 = Ok b2"
    "save_outputs mcfg vals 0 (output_names mcfg) (rs0\<lparr>io_binding := b2\<rparr>) tok1 = Ok (rs', tok')"
    "vec_at (model_run_state_vec ef') (stage_id ef) = Ok rs'"
    "model_run_state_vec ef' = (model_run_state_vec ef)[nat (stage_id ef) := rs']"
proof -
  from assms obtain rs tok1 vals w1 rs' tok' vec' where
    b: "bind_and_run mcfg ss resp ef w = Ok (rs, tok1, vals, w1)" and
    s: "save_outputs mcfg vals 0 (output_names mcfg) rs tok1 = Ok (rs', tok')" and
    v: "vec_set (model_run_state_vec ef) (stage_id ef) rs' = Ok vec'" and
    e: "model_run_state_vec ef' = vec'"
    by (auto simp: ProcessRequest_def bindR_eq_Ok)
  from v have v': "vec' = (model_run_state_vec ef)[nat (stage_id ef) := rs']"
    by (simp add: vec_set_def split: if_splits)
  from b show thesis
  proof (rule bind_and_run_Ok)
    fix rs0 b1 b2 st_shape st_type input_seq_len
    assume h: "vec_at (model_run_state_vec ef) (stage_id ef) = Ok rs0"
      "bind_inputs mcfg (ort_value_names (token ef)) (ort_values (token ef)) rs0 (input_names mcfg)
         (ClearBoundOutputs (ClearBoundInputs (io_binding rs0))) = Ok b1"
      "bind_outputs mcfg ss resp rs0 (batch_size ef) (step_id (token ef)) st_shape st_type
         input_seq_len (output_names mcfg) b1 = Ok b2"
      "rs = rs0\<lparr>io_binding := b2\<rparr>"
    from that [OF h(1,2,3) s [unfolded h(4)]] vec_set_at [OF v] e v'
    show thesis by simp
  qed
qed

lemma step_state_bindings:
  assumes "ProcessRequest mcfg ss resp ef w = Ok (ef', w')"
  shows "\<exists>rs rs'.
           vec_at (model_run_state_vec ef) (stage_id ef) = Ok rs \<and>
           model_run_state_vec ef' = (model_run_state_vec ef)[nat (stage_id ef) := rs'] \<and>
           vec_at (model_run_state_vec ef') (stage_id ef) = Ok rs' \<and>
           present_past_prealloc_buffer_1_vec rs' = present_past_prealloc_buffer_1_vec rs \<and>
           present_past_prealloc_buffer_2_vec rs' = present_past_prealloc_buffer_2_vec rs \<and>
           (\<forall>oname \<in> set (output_names mcfg).
              fst (Contains (present_output_names mcfg) oname) \<longrightarrow>
              (\<exists>m. vec_at (if step_id (token ef) mod 2 = 0
                           then present_past_prealloc_buffer_2_vec rs
                           else present_past_prealloc_buffer_1_vec rs)
                      (snd (Contains (present_output_names mcfg) oname)) = Ok m \<and>
                   bound_output_ptr rs' oname = Some (ma_ptr m))) \<and>
           (\<forall>iname \<in> set (input_names mcfg).
              \<not> fst (Contains (ort_value_names (token ef)) iname) \<longrightarrow>
              fst (Contains (past_input_names mcfg) iname) \<longrightarrow>
              (\<exists>oname v.
                 vec_at (present_output_names mcfg)
                   (snd (Contains (past_input_names mcfg) iname)) = Ok oname \<and>
                 output_val_map rs oname = Some v \<and>
                 map_of (bound_inputs (io_binding rs')) iname = Some v))"
proof -
  from assms obtain rs b1 b2 st_shape st_type input_seq_len vals tok1 rs' tok' where
    r: "vec_at (model_run_state_vec ef) (stage_id ef) = Ok rs" and
    i: "bind_inputs mcfg (ort_value_names (token ef)) (ort_values (token ef)) rs (input_names mcfg)
         (ClearBoundOutputs (ClearBoundInputs (io_binding rs))) = Ok b1" and
    o: "bind_outputs mcfg ss resp rs (batch_size ef) (step_id (token ef)) st_shape st_type
         input_seq_len (output_names mcfg) b1 = Ok b2" and
    s: "save_outputs mcfg vals 0 (output_names mcfg) (rs\<lparr>io_binding := b2\<rparr>) tok1 = Ok (rs', tok')" and
    r': "vec_at (model_run_state_vec ef') (stage_id ef) = Ok rs'" and
    v: "model_run_state_vec ef' = (model_run_state_vec ef)[nat (stage_id ef) := rs']"
    by (rule ProcessRequest_Ok)
  from save_outputs_frame [OF s] have
    io: "io_binding rs' = b2" and
    b1: "present_past_prealloc_buffer_1_vec rs' = present_past_prealloc_buffer_1_vec rs" and
    b2: "present_past_prealloc_buffer_2_vec rs' = present_past_prealloc_buffer_2_vec rs"
    by simp_all
  have out: "\<exists>m. vec_at (if step_id (token ef) mod 2 = 0
                           then present_past_prealloc_buffer_2_vec rs
                           else present_past_prealloc_buffer_1_vec rs)
                      (snd (Contains (present_output_names mcfg) oname)) = Ok m \<and>
                   bound_output_ptr rs' oname = Some (ma_ptr m)"
    if "oname \<in> set (output_names mcfg)" "fst (Contains (present_output_names mcfg) oname)"
    for oname
    using bind_outputs_state [OF o that]
    by (auto simp: bound_output_ptr_def io value_ptr_def CreateTensor_def)
  have inp: "\<exists>oname v.
                vec_at (present_output_names mcfg)
                  (snd (Contains (past_input_names mcfg) iname)) = Ok oname \<and>
                output_val_map rs oname = Some v \<and>
                map_of (bound_inputs (io_binding rs')) iname = Some v"
    if h: "iname \<in> set (input_names mcfg)"
      "\<not> fst (Contains (ort_value_names (token ef)) iname)"
      "fst (Contains (past_input_names mcfg) iname)"
    for iname
  proof -
    from bind_inputs_state [OF i h] obtain oname x where
      n: "vec_at (present_output_names mcfg) (snd (Contains (past_input_names mcfg) iname))
            = Ok oname" and
      x: "output_val_map rs oname = Some x" and
      b: "map_of (bound_inputs b1) iname = Some x"
      by blast
    from bind_outputs_frame [OF o, of undefined] b io
    have "map_of (bound_inputs (io_binding rs')) iname = Some x" by simp
    with n x show ?thesis by blast
  qed
  from r v r' b1 b2 out inp show ?thesis by blast
qed

lemma ex_new_frame_built:
  "RequestExecutionFrame_ctor ex_ps 0 1 1 1 0 ex_world = Ok ex_new_frame"
  by (simp add: run_defs ex_defs ex_frame_defs prim_defs)

lemma ex_first_task_done:
  "ProcessRequest ex_loaded (hd (model_session_state_vec ex_ps)) ex_resp ex_frame ex_frame_world
     = Ok (the_Ok ex_first_task)"
  by (simp add: run_defs ex_defs ex_frame_defs prim_defs)

lemma ex_frame_fields:
  "model_run_state_vec ex_frame = model_run_state_vec (fst ex_new_frame)"
  "stage_id ex_frame = 0" "step_id (token ex_frame) = 0"
  "ort_value_names (token ex_frame) = [''input_ids'', ''position_ids'']"
  "map ma_ptr (present_past_prealloc_buffer_1_vec (hd (model_run_state_vec ex_frame))) = [Addr 200]"
  "map ma_ptr (present_past_prealloc_buffer_2_vec (hd (model_run_state_vec ex_frame))) = [Addr 201]"
  "length (model_run_state_vec ex_frame) = 1"
  by (simp_all add: run_defs ex_defs ex_frame_defs prim_defs)

lemma vec_at_0_hd: "vec_at v 0 = Ok x \<Longrightarrow> x = hd v"
  by (cases v) (simp_all add: vec_at_def)

lemma vec_at_0_ptr: "vec_at v 0 = Ok m \<Longrightarrow> map ma_ptr v = [p] \<Longrightarrow> ma_ptr m = p"
  by (cases v) (simp_all add: vec_at_def)

lemma ex_loaded_names:
  "length (model_config_vec (pcfg ex_ps)) = 1" "model_config_vec (pcfg ex_ps) ! 0 = ex_loaded"
  "''present_0'' \<in> set (output_names ex_loaded)"
  "Contains (present_output_names ex_loaded) ''present_0'' = (True, 0)"
  "''past_0'' \<in> set (input_names ex_loaded)"
  "Contains [''input_ids'', ''position_ids''] ''past_0'' = (False, - 1)"
  "Contains (past_input_names ex_loaded) ''past_0'' = (True, 0)"
  "present_output_names ex_loaded = [''present_0'']"
  by (simp_all add: ex_ps_def ex_loaded_def ex_mcfg_def ex_cfg_def Contains_def)

text \<open>
  C3, amended. On every step a state output is bound to buffer 2 when the step id is even
  and to buffer 1 when it is odd, at the index of its name, and the step leaves both
  buffer vectors as they are. A state input that the token does not supply is bound to the
  state tensor the frame holds in \<open>output_val_map\<close> under the matching present output
  name. The frame constructor puts there, for every stage, a view of buffer 1 at the index
  of the name: so the first step of a request, the even step 0, reads buffer 1 and writes
  buffer 2.
\<close>

theorem state_output_by_parity_state_input_from_stored_state:
  "(RequestExecutionFrame_ctor psess ri rid bsz osl sid w0 = Ok (ef0, w1) \<longrightarrow>
      length (model_run_state_vec ef0) = length (model_config_vec (pcfg psess)) \<and>
      (\<forall>i < length (model_config_vec (pcfg psess)).
         state_views_buffer_1 (model_config_vec (pcfg psess) ! i) (model_run_state_vec ef0 ! i))) \<and>
   (ProcessRequest mcfg ss resp ef w = Ok (ef', w') \<longrightarrow>
      (\<exists>rs rs'.
         vec_at (model_run_state_vec ef) (stage_id ef) = Ok rs \<and>
         model_run_state_vec ef' = (model_run_state_vec ef)[nat (stage_id ef) := rs'] \<and>
         vec_at (model_run_state_vec ef') (stage_id ef) = Ok rs' \<and>
         present_past_prealloc_buffer_1_vec rs' = present_past_prealloc_buffer_1_vec rs \<and>
         present_past_prealloc_buffer_2_vec rs' = present_past_prealloc_buffer_2_vec rs \<and>
         (\<forall>oname \<in> set (output_names mcfg).
            fst (Contains (present_output_names mcfg) oname) \<longrightarrow>
            (\<exists>m. vec_at (if step_id (token ef) mod 2 = 0
                         then present_past_prealloc_buffer_2_vec rs
                         else present_past_prealloc_buffer_1_vec rs)
                    (snd (Contains (present_output_names mcfg) oname)) = Ok m \<and>
                 bound_output_ptr rs' oname = Some (ma_ptr m))) \<and>
         (\<forall>iname \<in> set (input_names mcfg).
            \<not> fst (Contains (ort_value_names (token ef)) iname) \<longrightarrow>
            fst (Contains (past_input_names mcfg) iname) \<longrightarrow>
            (\<exists>oname v.
               vec_at (present_output_names mcfg)
                 (snd (Contains (past_input_names mcfg) iname)) = Ok oname \<and>
               output_val_map rs oname = Some v \<and>
               map_of (bound_inputs (io_binding rs')) iname = Some v))))"
  using constructor_views(1) [of psess ri rid bsz osl sid w0 ef0 w1]
    constructor_views_buffer_1 [of psess ri rid bsz osl sid w0 ef0 w1]
    step_state_bindings [of mcfg ss resp ef w ef' w']
  by blast

text \<open>The amended C3 on the example: the frame as constructed, and its first task, the
  even step 0, which binds \<open>past_0\<close> to the constructor's view of buffer 1 (address 200)
  and \<open>present_0\<close> to buffer 2 (address 201).\<close>

theorem state_output_by_parity_state_input_from_stored_state_witness:
  "RequestExecutionFrame_ctor ex_ps 0 1 1 1 0 ex_world = Ok ex_new_frame \<and>
   state_views_buffer_1 ex_loaded (hd (model_run_state_vec (fst ex_new_frame))) \<and>
   ProcessRequest ex_loaded (hd (model_session_state_vec ex_ps)) ex_resp ex_frame ex_frame_world
     = Ok (the_Ok ex_first_task) \<and>
   step_id (token ex_frame) = 0 \<and>
   map ma_ptr (present_past_prealloc_buffer_1_vec (hd (model_run_state_vec ex_frame))) = [Addr 200] \<and>
   map ma_ptr (present_past_prealloc_buffer_2_vec (hd (model_run_state_vec ex_frame))) = [Addr 201] \<and>
   bound_output_ptr (hd (model_run_state_vec (fst (the_Ok ex_first_task)))) ''present_0''
     = Some (Addr 201) \<and>
   bound_input_ptr (hd (model_run_state_vec (fst (the_Ok ex_first_task)))) ''past_0''
     = Some (Addr 200)"
proof -
  have c: "RequestExecutionFrame_ctor ex_ps 0 1 1 1 0 ex_world
             = Ok (fst ex_new_frame, snd ex_new_frame)"
    using ex_new_frame_built by simp
  have p: "ProcessRequest ex_loaded (hd (model_session_state_vec ex_ps)) ex_resp ex_frame
             ex_frame_world = Ok (fst (the_Ok ex_first_task), snd (the_Ok ex_first_task))"
    using ex_first_task_done by simp
  note t = state_output_by_parity_state_input_from_stored_state
    [of ex_ps 0 1 1 1 0 ex_world "fst ex_new_frame" "snd ex_new_frame" ex_loaded
        "hd (model_session_state_vec ex_ps)" ex_resp ex_frame ex_frame_world
        "fst (the_Ok ex_first_task)" "snd (the_Ok ex_first_task)"]
  from t c have "state_views_buffer_1 (model_config_vec (pcfg ex_ps) ! 0)
                   (model_run_state_vec (fst ex_new_frame) ! 0)"
    by (simp add: ex_loaded_names(1))
  moreover have "model_run_state_vec (fst ex_new_frame) ! 0
                   = hd (model_run_state_vec (fst ex_new_frame))"
    using ex_frame_fields(1,7) by (cases "model_run_state_vec (fst ex_new_frame)") simp_all
  ultimately have v0: "state_views_buffer_1 ex_loaded (hd (model_run_state_vec ex_frame))"
    by (simp add: ex_loaded_names(2) ex_frame_fields(1))
  from t p have "\<exists>rs rs'.
         vec_at (model_run_state_vec ex_frame) (stage_id ex_frame) = Ok rs \<and>
         vec_at (model_run_state_vec (fst (the_Ok ex_first_task))) (stage_id ex_frame) = Ok rs' \<and>
         (\<forall>oname \<in> set (output_names ex_loaded).
            fst (Contains (present_output_names ex_loaded) oname) \<longrightarrow>
            (\<exists>m. vec_at (if step_id (token ex_frame) mod 2 = 0
                         then present_past_prealloc_buffer_2_vec rs
                         else present_past_prealloc_buffer_1_vec rs)
                    (snd (Contains (present_output_names ex_loaded) oname)) = Ok m \<and>
                 bound_output_ptr rs' oname = Some (ma_ptr m))) \<and>
         (\<forall>iname \<in> set (input_names ex_loaded).
            \<not> fst (Contains (ort_value_names (token ex_frame)) iname) \<longrightarrow>
            fst (Contains (past_input_names ex_loaded) iname) \<longrightarrow>
            (\<exists>oname v.
               vec_at (present_output_names ex_loaded)
                 (snd (Contains (past_input_names ex_loaded) iname)) = Ok oname \<and>
               output_val_map rs oname = Some v \<and>
               map_of (bound_inputs (io_binding rs')) iname = Some v))"
    by blast
  then obtain rs rs' where
    r: "vec_at (model_run_state_vec ex_frame) (stage_id ex_frame) = Ok rs" and
    r': "vec_at (model_run_state_vec (fst (the_Ok ex_first_task))) (stage_id ex_frame) = Ok rs'" and
    out: "\<forall>oname \<in> set (output_names ex_loaded).
            fst (Contains (present_output_names ex_loaded) oname) \<longrightarrow>
            (\<exists>m. vec_at (if step_id (token ex_frame) mod 2 = 0
                         then present_past_prealloc_buffer_2_vec rs
                         else present_past_prealloc_buffer_1_vec rs)
                    (snd (Contains (present_output_names ex_loaded) oname)) = Ok m \<and>
                 bound_output_ptr rs' oname = Some (ma_ptr m))" and
    inp: "\<forall>iname \<in> set (input_names ex_loaded).
            \<not> fst (Contains (ort_value_names (token ex_frame)) iname) \<longrightarrow>
            fst (Contains (past_input_names ex_loaded) iname) \<longrightarrow>
            (\<exists>oname v.
               vec_at (present_output_names ex_loaded)
                 (snd (Contains (past_input_names ex_loaded) iname)) = Ok oname \<and>
               output_val_map rs oname = Some v \<and>
               map_of (bound_inputs (io_binding rs')) iname = Some v)"
    by blast
  from r have rs: "rs = hd (model_run_state_vec ex_frame)"
    by (simp add: ex_frame_fields(2) vec_at_0_hd)
  from r' have rs': "rs' = hd (model_run_state_vec (fst (the_Ok ex_first_task)))"
    by (simp add: ex_frame_fields(2) vec_at_0_hd)
  from out ex_loaded_names(3,4) obtain m where
    "vec_at (present_past_prealloc_buffer_2_vec rs) 0 = Ok m"
    "bound_output_ptr rs' ''present_0'' = Some (ma_ptr m)"
    by (auto simp: ex_frame_fields(3))
  with ex_frame_fields(6) have o: "bound_output_ptr rs' ''present_0'' = Some (Addr 201)"
    by (simp add: rs vec_at_0_ptr)
  from inp ex_loaded_names(5,6,7) obtain oname v where
    "vec_at (present_output_names ex_loaded) 0 = Ok oname"
    "output_val_map rs oname = Some v"
    "map_of (bound_inputs (io_binding rs')) ''past_0'' = Some v"
    by (auto simp: ex_frame_fields(4))
  then have s: "output_val_map rs ''present_0'' = Some v"
    "bound_input_ptr rs' ''past_0'' = Some (value_ptr v)"
    by (simp_all add: ex_loaded_names(8) vec_at_def bound_input_ptr_def)
  from v0 obtain v' m where
    "output_val_map rs ''present_0'' = Some v'"
    "vec_at (present_past_prealloc_buffer_1_vec rs)
       (snd (Contains (present_output_names ex_loaded) ''present_0'')) = Ok m"
    "value_ptr v' = ma_ptr m"
    unfolding state_views_buffer_1_iff rs by (auto simp: ex_loaded_names(8))
  with s have "vec_at (present_past_prealloc_buffer_1_vec rs) 0 = Ok m"
    "bound_input_ptr rs' ''past_0'' = Some (ma_ptr m)"
    by (simp_all add: ex_loaded_names(4))
  with ex_frame_fields(5) have i: "bound_input_ptr rs' ''past_0'' = Some (Addr 200)"
    by (simp add: rs vec_at_0_ptr)
  from ex_new_frame_built v0 ex_first_task_done ex_frame_fields(1,3,5,6) o i
  show ?thesis by (simp add: rs')
qed

section \<open>Greedy next-token selection (C4)\<close>






















end
